theory Spec2Isabelle
  imports Complex_Main
begin

section \<open>Geometry: regions and region tiling\<close>

text \<open>
  The geometry classes work on JavaScript numbers that the constructor of \<open>Region\<close> checks to be
  integers (\<open>ArgumentGuard.isInteger\<close>); they are modelled as \<^typ>\<open>int\<close>, so that check has no
  failing branch.  A thrown \<open>Error\<close> is a value of type \<open>error\<close>; a function that can throw
  returns \<open>error + 'a\<close> with \<open>Inl\<close> for the exception.
\<close>

datatype error =
    IllegalArgument string
  | Failure string

text \<open>
  Modelled from the spec: the enumeration \<open>CoordinatesType\<close> is declared outside the source
  files at hand.  The data model describes a region as tagged with the coordinate space it is
  expressed in ("as captured in screenshot" versus "relative to full page"); the only member the
  source names is \<open>SCREENSHOT_AS_IS\<close>, the default of the \<open>Region\<close> constructor.
\<close>

datatype CoordinatesType = SCREENSHOT_AS_IS | CONTEXT_AS_IS | CONTEXT_RELATIVE

text \<open>The fields \<open>_left\<close>, \<open>_top\<close>, \<open>_width\<close>, \<open>_height\<close>, \<open>_coordinatesType\<close> of class \<open>Region\<close>.\<close>

record Region =
  r_left :: int
  r_top :: int
  r_width :: int
  r_height :: int
  r_coordinatesType :: CoordinatesType

text \<open>A \<open>RectangleSize\<close>, and likewise a plain \<open>{width, height}\<close> object of the Selenium utilities.\<close>

record RectangleSize =
  s_width :: int
  s_height :: int

text \<open>A \<open>Location\<close>, and likewise a plain \<open>{x, y}\<close> object.\<close>

record Location =
  l_x :: int
  l_y :: int

text \<open>
  Modelled from the spec: \<open>ArgumentGuard.greaterThanZero\<close> is declared outside the source files at
  hand.  The spec makes a non-positive tile width or height a precondition violation that fails
  fast, so the guard raises an argument error, carrying the parameter name it was given, exactly
  when its argument is not greater than zero.
\<close>

definition greaterThanZero :: "int \<Rightarrow> string \<Rightarrow> error + unit" where
  "greaterThanZero param paramName =
     (if 0 \<ge> param then Inl (IllegalArgument paramName) else Inr ())"

text \<open>
  Modelled from the spec: \<open>ArgumentGuard.greaterThanOrEqualToZero\<close> is declared outside the source
  files at hand.  The data model gives a region the invariant width, height \<open>\<ge> 0\<close>; the guard
  raises an argument error exactly when its argument is negative.
\<close>

definition greaterThanOrEqualToZero :: "int \<Rightarrow> string \<Rightarrow> error + unit" where
  "greaterThanOrEqualToZero param paramName =
     (if 0 > param then Inl (IllegalArgument paramName) else Inr ())"

text \<open>The constructor \<open>new Region(left, top, width, height, coordinatesType)\<close>.\<close>

definition Region_new :: "int \<Rightarrow> int \<Rightarrow> int \<Rightarrow> int \<Rightarrow> CoordinatesType \<Rightarrow> error + Region" where
  "Region_new l t w h ct =
     (case greaterThanOrEqualToZero w ''width'' of
        Inl e \<Rightarrow> Inl e
      | Inr _ \<Rightarrow>
          (case greaterThanOrEqualToZero h ''height'' of
             Inl e \<Rightarrow> Inl e
           | Inr _ \<Rightarrow> Inr \<lparr>r_left = l, r_top = t, r_width = w, r_height = h, r_coordinatesType = ct\<rparr>))"

text \<open>\<open>Region.fromRegion(other)\<close>.\<close>

definition fromRegion :: "Region \<Rightarrow> error + Region" where
  "fromRegion other =
     Region_new (r_left other) (r_top other) (r_width other) (r_height other) (r_coordinatesType other)"

subsection \<open>Varying-size tiling\<close>

text \<open>
  The two nested \<open>while\<close> loops of \<open>_getSubRegionsWithVaryingSize\<close>.  Nothing in the loops
  themselves bounds the number of iterations (a step of zero would never leave them), so each
  loop is a partial function whose value \<open>None\<close> stands for a loop that does not return.  The
  array \<open>subRegions\<close> the loops push to is threaded through as an accumulator.
\<close>

partial_function (option) varying_cols ::
  "int \<Rightarrow> int \<Rightarrow> int \<Rightarrow> int \<Rightarrow> int \<Rightarrow> Region list \<Rightarrow> (error + Region list) option" where
  "varying_cols maxW right currentTop currentBottom currentLeft subRegions =
     (if currentLeft < right then
        (let currentRight = currentLeft + maxW;
             currentRight = (if currentRight > right then right else currentRight);
             currentHeight = currentBottom - currentTop;
             currentWidth = currentRight - currentLeft
         in case Region_new currentLeft currentTop currentWidth currentHeight SCREENSHOT_AS_IS of
              Inl e \<Rightarrow> Some (Inl e)
            | Inr r \<Rightarrow> varying_cols maxW right currentTop currentBottom (currentLeft + maxW) (subRegions @ [r]))
      else Some (Inr subRegions))"

partial_function (option) varying_rows ::
  "int \<Rightarrow> int \<Rightarrow> int \<Rightarrow> int \<Rightarrow> int \<Rightarrow> int \<Rightarrow> Region list \<Rightarrow> (error + Region list) option" where
  "varying_rows maxW maxH left right bottom currentTop subRegions =
     (if currentTop < bottom then
        (let currentBottom = currentTop + maxH;
             currentBottom = (if currentBottom > bottom then bottom else currentBottom)
         in case varying_cols maxW right currentTop currentBottom left subRegions of
              None \<Rightarrow> None
            | Some (Inl e) \<Rightarrow> Some (Inl e)
            | Some (Inr subRegions') \<Rightarrow>
                varying_rows maxW maxH left right bottom (currentTop + maxH) subRegions')
      else Some (Inr subRegions))"

text \<open>
  \<open>_getSubRegionsWithVaryingSize(containerRegion, maxSubRegionSize)\<close>.  Both arguments are
  objects of the model's types, so the two \<open>notNull\<close> guards have no failing branch.
\<close>

definition getSubRegionsWithVaryingSize :: "Region \<Rightarrow> RectangleSize \<Rightarrow> (error + Region list) option" where
  "getSubRegionsWithVaryingSize containerRegion maxSubRegionSize =
     (case greaterThanZero (s_width maxSubRegionSize) ''maxSubRegionSize.getWidth()'' of
        Inl e \<Rightarrow> Some (Inl e)
      | Inr _ \<Rightarrow>
     (case greaterThanZero (s_height maxSubRegionSize) ''maxSubRegionSize.getHeight()'' of
        Inl e \<Rightarrow> Some (Inl e)
      | Inr _ \<Rightarrow>
          (let currentTop = r_top containerRegion;
               bottom = r_top containerRegion + r_height containerRegion;
               right = r_left containerRegion + r_width containerRegion
           in varying_rows (s_width maxSubRegionSize) (s_height maxSubRegionSize)
                (r_left containerRegion) right bottom currentTop [])))"

subsection \<open>Fixed-size tiling\<close>

text \<open>The two nested \<open>while\<close> loops of \<open>_getSubRegionsWithFixedSize\<close>.\<close>

partial_function (option) fixed_cols ::
  "int \<Rightarrow> int \<Rightarrow> int \<Rightarrow> int \<Rightarrow> int \<Rightarrow> Region list \<Rightarrow> (error + Region list) option" where
  "fixed_cols subRegionWidth subRegionHeight right currentTop currentLeft subRegions =
     (if currentLeft \<le> right then
        (let currentLeft = (if currentLeft + subRegionWidth > right
                            then (right - subRegionWidth) + 1 else currentLeft)
         in case Region_new currentLeft currentTop subRegionWidth subRegionHeight SCREENSHOT_AS_IS of
              Inl e \<Rightarrow> Some (Inl e)
            | Inr r \<Rightarrow> fixed_cols subRegionWidth subRegionHeight right currentTop
                        (currentLeft + subRegionWidth) (subRegions @ [r]))
      else Some (Inr subRegions))"

partial_function (option) fixed_rows ::
  "int \<Rightarrow> int \<Rightarrow> int \<Rightarrow> int \<Rightarrow> int \<Rightarrow> int \<Rightarrow> Region list \<Rightarrow> (error + Region list) option" where
  "fixed_rows subRegionWidth subRegionHeight left right bottom currentTop subRegions =
     (if currentTop \<le> bottom then
        (let currentTop = (if currentTop + subRegionHeight > bottom
                           then (bottom - subRegionHeight) + 1 else currentTop)
         in case fixed_cols subRegionWidth subRegionHeight right currentTop left subRegions of
              None \<Rightarrow> None
            | Some (Inl e) \<Rightarrow> Some (Inl e)
            | Some (Inr subRegions') \<Rightarrow>
                fixed_rows subRegionWidth subRegionHeight left right bottom
                  (currentTop + subRegionHeight) subRegions')
      else Some (Inr subRegions))"

text \<open>\<open>_getSubRegionsWithFixedSize(containerRegion, subRegionSize)\<close>.\<close>

definition getSubRegionsWithFixedSize :: "Region \<Rightarrow> RectangleSize \<Rightarrow> (error + Region list) option" where
  "getSubRegionsWithFixedSize containerRegion subRegionSize =
     (let subRegionWidth = s_width subRegionSize;
          subRegionHeight = s_height subRegionSize
      in case greaterThanZero subRegionWidth ''subRegionSize width'' of
           Inl e \<Rightarrow> Some (Inl e)
         | Inr _ \<Rightarrow>
        (case greaterThanZero subRegionHeight ''subRegionSize height'' of
           Inl e \<Rightarrow> Some (Inl e)
         | Inr _ \<Rightarrow>
            (let subRegionWidth = (if subRegionWidth > r_width containerRegion
                                   then r_width containerRegion else subRegionWidth);
                 subRegionHeight = (if subRegionHeight > r_height containerRegion
                                    then r_height containerRegion else subRegionHeight)
             in if subRegionWidth = r_width containerRegion \<and> subRegionHeight = r_height containerRegion
                then (case fromRegion containerRegion of
                        Inl e \<Rightarrow> Some (Inl e)
                      | Inr r \<Rightarrow> Some (Inr [r]))
                else
                  (let currentTop = r_top containerRegion;
                       bottom = r_top containerRegion + r_height containerRegion - 1;
                       right = r_left containerRegion + r_width containerRegion - 1
                   in fixed_rows subRegionWidth subRegionHeight (r_left containerRegion)
                        right bottom currentTop []))))"

text \<open>The method \<open>Region.getSubRegions(subRegionSize, isFixedSize)\<close>.\<close>

definition getSubRegions :: "Region \<Rightarrow> RectangleSize \<Rightarrow> bool \<Rightarrow> (error + Region list) option" where
  "getSubRegions this subRegionSize isFixedSize =
     (if isFixedSize then getSubRegionsWithFixedSize this subRegionSize
      else getSubRegionsWithVaryingSize this subRegionSize)"

subsection \<open>Notions used to state the tiling properties\<close>

text \<open>
  A region seen as a set of pixels: the pixel \<open>(x, y)\<close> lies in the region when
  \<open>left \<le> x < left + width\<close> and \<open>top \<le> y < top + height\<close>.  Union, intersection and equality
  of regions in the tiling properties are those of these pixel sets.
\<close>

definition covers :: "Region \<Rightarrow> int \<Rightarrow> int \<Rightarrow> bool" where
  "covers r x y \<longleftrightarrow>
     r_left r \<le> x \<and> x < r_left r + r_width r \<and> r_top r \<le> y \<and> y < r_top r + r_height r"

text \<open>Row-major order: a tile comes before another when it is higher, or as high and further left.\<close>

definition row_major_before :: "Region \<Rightarrow> Region \<Rightarrow> bool" where
  "row_major_before a b \<longleftrightarrow> r_top a < r_top b \<or> (r_top a = r_top b \<and> r_left a < r_left b)"

text \<open>The number of steps of length \<open>step\<close> that it takes to walk an extent: its ceiling quotient.\<close>

definition tile_count :: "int \<Rightarrow> int \<Rightarrow> nat" where
  "tile_count extent step = nat ((extent + step - 1) div step)"

text \<open>
  The expected result of varying-size tiling: the grid of tiles in row-major order, the tile in
  row \<open>i\<close> and column \<open>j\<close> starting \<open>j\<close> widths right of and \<open>i\<close> heights below the corner of the
  container and clipped to the space that remains.
\<close>

definition varying_tile :: "Region \<Rightarrow> RectangleSize \<Rightarrow> nat \<Rightarrow> nat \<Rightarrow> Region" where
  "varying_tile R S i j =
     \<lparr>r_left = r_left R + int j * s_width S,
      r_top = r_top R + int i * s_height S,
      r_width = min (s_width S) (r_width R - int j * s_width S),
      r_height = min (s_height S) (r_height R - int i * s_height S),
      r_coordinatesType = SCREENSHOT_AS_IS\<rparr>"

definition varying_grid :: "Region \<Rightarrow> RectangleSize \<Rightarrow> Region list" where
  "varying_grid R S =
     concat (map (\<lambda>i. map (\<lambda>j. varying_tile R S i j) [0..<tile_count (r_width R) (s_width S)])
                 [0..<tile_count (r_height R) (s_height S)])"

definition varying_row_tile :: "int \<Rightarrow> int \<Rightarrow> int \<Rightarrow> int \<Rightarrow> int \<Rightarrow> nat \<Rightarrow> Region" where
  "varying_row_tile w right ct cb cl j =
     \<lparr>r_left = cl + int j * w, r_top = ct,
      r_width = min w (right - cl - int j * w), r_height = cb - ct,
      r_coordinatesType = SCREENSHOT_AS_IS\<rparr>"

text \<open>
  The expected result of fixed-size tiling when more than one tile is needed: every tile has the
  requested size cut down to the container, and starts at the earlier of the next step and the
  position that makes it end on the far edge of the container.
\<close>

definition fixed_tile :: "Region \<Rightarrow> RectangleSize \<Rightarrow> nat \<Rightarrow> nat \<Rightarrow> Region" where
  "fixed_tile R S i j =
     (let w = min (s_width S) (r_width R); h = min (s_height S) (r_height R)
      in \<lparr>r_left = min (r_left R + int j * w) (r_left R + r_width R - w),
          r_top = min (r_top R + int i * h) (r_top R + r_height R - h),
          r_width = w, r_height = h, r_coordinatesType = SCREENSHOT_AS_IS\<rparr>)"

definition fixed_grid :: "Region \<Rightarrow> RectangleSize \<Rightarrow> Region list" where
  "fixed_grid R S =
     (let w = min (s_width S) (r_width R); h = min (s_height S) (r_height R)
      in concat (map (\<lambda>i. map (\<lambda>j. fixed_tile R S i j) [0..<tile_count (r_width R) w])
                     [0..<tile_count (r_height R) h]))"

definition fixed_row_tile :: "int \<Rightarrow> int \<Rightarrow> int \<Rightarrow> int \<Rightarrow> int \<Rightarrow> nat \<Rightarrow> Region" where
  "fixed_row_tile w h right ct cl j =
     \<lparr>r_left = min (cl + int j * w) (right - w + 1), r_top = ct,
      r_width = w, r_height = h, r_coordinatesType = SCREENSHOT_AS_IS\<rparr>"


section \<open>Promises\<close>

text \<open>
  How a promise ends: it is fulfilled with a value, rejected with an error, or never settled.
  The source builds most of its promises with \<open>promiseFactory.makePromise(executor)\<close>, and
  \<open>PromiseFactory\<close> is outside the source files at hand; it is taken to be the standard promise
  constructor.  An executor that only calls \<open>resolve\<close> from a continuation of an inner promise
  therefore leaves the outer promise pending for ever when that inner promise rejects: the value
  \<open>Pending\<close>.
\<close>

datatype 'a outcome = Resolved 'a | Rejected error | Pending

text \<open>What an image operation resolves to: the image itself (\<open>that\<close>) or \<open>undefined\<close>.\<close>

datatype settled = This | Undefined

section \<open>Image buffer\<close>

text \<open>
  The functions of \<open>ImageUtils\<close> that \<open>MutableImage\<close> calls are outside the source files at hand
  and are parameters of the model, as are the types of encoded buffers \<open>'buf\<close> and of decoded
  bitmaps \<open>'bmp\<close>.  A field that can hold \<open>null\<close> or \<open>undefined\<close> is passed as an option, as
  the source passes whatever the field holds.  \<open>scaleImage\<close>, \<open>cropImage\<close> and \<open>rotateImage\<close>
  edit the bitmap in place; the model returns the edited bitmap.
\<close>

record ('buf, 'bmp) ImageUtils =
  iu_parseImage :: "'buf option \<Rightarrow> 'bmp outcome"
  iu_packImage :: "'bmp option \<Rightarrow> 'buf outcome"
  iu_scaleImage :: "'bmp option \<Rightarrow> real \<Rightarrow> 'bmp outcome"
  iu_cropImage :: "'bmp option \<Rightarrow> Region \<Rightarrow> 'bmp outcome"
  iu_rotateImage :: "'bmp option \<Rightarrow> int \<Rightarrow> 'bmp outcome"
  iu_getImageSizeFromBuffer :: "'buf option \<Rightarrow> error + RectangleSize"
  iu_saveImage :: "'buf option \<Rightarrow> string \<Rightarrow> unit outcome"
  bmp_width :: "'bmp \<Rightarrow> int"
  bmp_height :: "'bmp \<Rightarrow> int"

text \<open>
  The fields of a \<open>MutableImage\<close>.  The last field is not in the source: it is a probe that counts
  the calls of \<open>ImageUtils.parseImage\<close> made for this image.
\<close>

record ('buf, 'bmp) MutableImage =
  mi_imageBuffer :: "'buf option"
  mi_isParsed :: bool
  mi_imageBmp :: "'bmp option"
  mi_width :: int
  mi_height :: int
  mi_top :: int
  mi_left :: int
  mi_decodes :: nat

text \<open>The constructor \<open>new MutableImage(image, promiseFactory)\<close>.\<close>

definition MutableImage_new :: "'buf \<Rightarrow> ('buf, 'bmp) MutableImage" where
  "MutableImage_new image' =
     \<lparr>mi_imageBuffer = Some image', mi_isParsed = False, mi_imageBmp = None,
      mi_width = 0, mi_height = 0, mi_top = 0, mi_left = 0, mi_decodes = 0\<rparr>"

text \<open>
  \<open>_parseImage(that)\<close>.  The parameter \<open>disabled\<close> is the module constant \<open>!fs.open\<close>, fixed when
  the module is loaded.  The executor has no rejection handler, so a failed decode leaves the
  promise pending.
\<close>

definition parseImage ::
  "('buf, 'bmp) ImageUtils \<Rightarrow> bool \<Rightarrow> ('buf, 'bmp) MutableImage \<Rightarrow> unit outcome \<times> ('buf, 'bmp) MutableImage" where
  "parseImage U disabled that =
     (if mi_isParsed that \<or> disabled then (Resolved (), that)
      else (case iu_parseImage U (mi_imageBuffer that) of
              Resolved imageData \<Rightarrow>
                (Resolved (),
                 that\<lparr>mi_imageBmp := Some imageData, mi_width := bmp_width U imageData,
                      mi_height := bmp_height U imageData, mi_isParsed := True,
                      mi_decodes := Suc (mi_decodes that)\<rparr>)
            | Rejected e \<Rightarrow> (Pending, that\<lparr>mi_decodes := Suc (mi_decodes that)\<rparr>)
            | Pending \<Rightarrow> (Pending, that\<lparr>mi_decodes := Suc (mi_decodes that)\<rparr>)))"

text \<open>\<open>_packImage(that)\<close>.\<close>

definition packImage ::
  "('buf, 'bmp) ImageUtils \<Rightarrow> bool \<Rightarrow> ('buf, 'bmp) MutableImage \<Rightarrow> unit outcome \<times> ('buf, 'bmp) MutableImage" where
  "packImage U disabled that =
     (if \<not> mi_isParsed that \<or> mi_imageBuffer that \<noteq> None \<or> disabled then (Resolved (), that)
      else (case iu_packImage U (mi_imageBmp that) of
              Resolved buffer \<Rightarrow> (Resolved (), that\<lparr>mi_imageBuffer := Some buffer\<rparr>)
            | Rejected e \<Rightarrow> (Pending, that)
            | Pending \<Rightarrow> (Pending, that)))"

text \<open>\<open>_retrieveImageSize(that)\<close>: synchronous, and throws what \<open>getImageSizeFromBuffer\<close> throws.\<close>

definition retrieveImageSize ::
  "('buf, 'bmp) ImageUtils \<Rightarrow> ('buf, 'bmp) MutableImage \<Rightarrow> error + ('buf, 'bmp) MutableImage" where
  "retrieveImageSize U that =
     (if mi_isParsed that \<or> (mi_width that \<noteq> 0 \<and> mi_height that \<noteq> 0) then Inr that
      else (case iu_getImageSizeFromBuffer U (mi_imageBuffer that) of
              Inl e \<Rightarrow> Inl e
            | Inr imageSize \<Rightarrow>
                Inr (that\<lparr>mi_width := s_width imageSize, mi_height := s_height imageSize\<rparr>)))"

text \<open>\<open>getSize()\<close>.\<close>

definition getSize ::
  "('buf, 'bmp) ImageUtils \<Rightarrow> ('buf, 'bmp) MutableImage \<Rightarrow> error + (RectangleSize \<times> ('buf, 'bmp) MutableImage)" where
  "getSize U this =
     (case retrieveImageSize U this of
        Inl e \<Rightarrow> Inl e
      | Inr this' \<Rightarrow> Inr (\<lparr>s_width = mi_width this', s_height = mi_height this'\<rparr>, this'))"

text \<open>\<open>setCoordinates(coordinates)\<close> and \<open>getCoordinates()\<close>.\<close>

definition setCoordinates ::
  "Location \<Rightarrow> ('buf, 'bmp) MutableImage \<Rightarrow> unit outcome \<times> ('buf, 'bmp) MutableImage" where
  "setCoordinates coordinates this =
     (Resolved (), this\<lparr>mi_left := l_x coordinates, mi_top := l_y coordinates\<rparr>)"

definition getCoordinates :: "('buf, 'bmp) MutableImage \<Rightarrow> Location outcome" where
  "getCoordinates this = Resolved \<lparr>l_x = mi_left this, l_y = mi_top this\<rparr>"

text \<open>The object \<open>{imageBuffer, width, height}\<close> that \<open>asObject()\<close> resolves to.\<close>

record 'buf imageObject =
  io_imageBuffer :: "'buf option"
  io_width :: int
  io_height :: int

text \<open>\<open>asObject()\<close>.\<close>

definition asObject ::
  "('buf, 'bmp) ImageUtils \<Rightarrow> bool \<Rightarrow> ('buf, 'bmp) MutableImage \<Rightarrow>
   'buf imageObject outcome \<times> ('buf, 'bmp) MutableImage" where
  "asObject U disabled this =
     (case packImage U disabled this of
        (Resolved _, that) \<Rightarrow>
          (case retrieveImageSize U that of
             Inl e \<Rightarrow> (Rejected e, that)
           | Inr that' \<Rightarrow>
               (Resolved \<lparr>io_imageBuffer = mi_imageBuffer that', io_width = mi_width that',
                          io_height = mi_height that'\<rparr>, that'))
      | (Rejected e, that) \<Rightarrow> (Rejected e, that)
      | (Pending, that) \<Rightarrow> (Pending, that))"

text \<open>\<open>getImageBuffer()\<close>.\<close>

definition getImageBuffer ::
  "('buf, 'bmp) ImageUtils \<Rightarrow> bool \<Rightarrow> ('buf, 'bmp) MutableImage \<Rightarrow>
   'buf option outcome \<times> ('buf, 'bmp) MutableImage" where
  "getImageBuffer U disabled this =
     (case packImage U disabled this of
        (Resolved _, that) \<Rightarrow> (Resolved (mi_imageBuffer that), that)
      | (Rejected e, that) \<Rightarrow> (Rejected e, that)
      | (Pending, that) \<Rightarrow> (Pending, that))"

text \<open>\<open>saveImage(filename)\<close>.\<close>

definition saveImage ::
  "('buf, 'bmp) ImageUtils \<Rightarrow> bool \<Rightarrow> string \<Rightarrow> ('buf, 'bmp) MutableImage \<Rightarrow>
   unit outcome \<times> ('buf, 'bmp) MutableImage" where
  "saveImage U disabled filename this =
     (case getImageBuffer U disabled this of
        (Resolved imageBuffer, that) \<Rightarrow> (iu_saveImage U imageBuffer filename, that)
      | (Rejected e, that) \<Rightarrow> (Rejected e, that)
      | (Pending, that) \<Rightarrow> (Pending, that))"

text \<open>
  The continuation shared by \<open>scaleImage\<close>, \<open>cropImage\<close> and \<open>rotateImage\<close> once the bitmap has
  been edited: drop the encoded buffer and take the size from the bitmap.
\<close>

definition edited :: "('buf, 'bmp) ImageUtils \<Rightarrow> 'bmp \<Rightarrow> ('buf, 'bmp) MutableImage \<Rightarrow> ('buf, 'bmp) MutableImage" where
  "edited U bmp that =
     that\<lparr>mi_imageBmp := Some bmp, mi_imageBuffer := None,
          mi_width := bmp_width U bmp, mi_height := bmp_height U bmp\<rparr>"

text \<open>\<open>scaleImage(scaleRatio)\<close>.\<close>

definition scaleImage ::
  "('buf, 'bmp) ImageUtils \<Rightarrow> bool \<Rightarrow> real \<Rightarrow> ('buf, 'bmp) MutableImage \<Rightarrow>
   settled outcome \<times> ('buf, 'bmp) MutableImage" where
  "scaleImage U disabled scaleRatio this =
     (if scaleRatio = 1 then (Resolved Undefined, this)
      else (case parseImage U disabled this of
              (Resolved _, that) \<Rightarrow>
                (if mi_isParsed that then
                   (case iu_scaleImage U (mi_imageBmp that) scaleRatio of
                      Resolved bmp \<Rightarrow> (Resolved This, edited U bmp that)
                    | Rejected e \<Rightarrow> (Rejected e, that)
                    | Pending \<Rightarrow> (Pending, that))
                 else (Resolved This, that))
            | (Rejected e, that) \<Rightarrow> (Rejected e, that)
            | (Pending, that) \<Rightarrow> (Pending, that)))"

text \<open>\<open>cropImage(region)\<close>.\<close>

definition cropImage ::
  "('buf, 'bmp) ImageUtils \<Rightarrow> bool \<Rightarrow> Region \<Rightarrow> ('buf, 'bmp) MutableImage \<Rightarrow>
   settled outcome \<times> ('buf, 'bmp) MutableImage" where
  "cropImage U disabled region this =
     (case parseImage U disabled this of
        (Resolved _, that) \<Rightarrow>
          (if mi_isParsed that then
             (case iu_cropImage U (mi_imageBmp that) region of
                Resolved bmp \<Rightarrow> (Resolved This, edited U bmp that)
              | Rejected e \<Rightarrow> (Rejected e, that)
              | Pending \<Rightarrow> (Pending, that))
           else (Resolved This, that))
      | (Rejected e, that) \<Rightarrow> (Rejected e, that)
      | (Pending, that) \<Rightarrow> (Pending, that))"

text \<open>\<open>rotateImage(degrees)\<close>.\<close>

definition rotateImage ::
  "('buf, 'bmp) ImageUtils \<Rightarrow> bool \<Rightarrow> int \<Rightarrow> ('buf, 'bmp) MutableImage \<Rightarrow>
   settled outcome \<times> ('buf, 'bmp) MutableImage" where
  "rotateImage U disabled degrees this =
     (if degrees = 0 then (Resolved This, this)
      else (case parseImage U disabled this of
              (Resolved _, that) \<Rightarrow>
                (if mi_isParsed that then
                   (case iu_rotateImage U (mi_imageBmp that) degrees of
                      Resolved bmp \<Rightarrow> (Resolved This, edited U bmp that)
                    | Rejected e \<Rightarrow> (Rejected e, that)
                    | Pending \<Rightarrow> (Pending, that))
                 else (Resolved This, that))
            | (Rejected e, that) \<Rightarrow> (Rejected e, that)
            | (Pending, that) \<Rightarrow> (Pending, that)))"

text \<open>
  A decoder that rejects every buffer, with byte lists for buffers and a pair for a bitmap's
  size; used to run the image operations on concrete inputs.
\<close>

definition failing_ImageUtils :: "(nat list, int \<times> int) ImageUtils" where
  "failing_ImageUtils =
     \<lparr>iu_parseImage = (\<lambda>_. Rejected (Failure ''not an image'')),
      iu_packImage = (\<lambda>_. Rejected (Failure ''not an image'')),
      iu_scaleImage = (\<lambda>_ _. Rejected (Failure ''not an image'')),
      iu_cropImage = (\<lambda>_ _. Rejected (Failure ''not an image'')),
      iu_rotateImage = (\<lambda>_ _. Rejected (Failure ''not an image'')),
      iu_getImageSizeFromBuffer = (\<lambda>_. Inl (Failure ''not an image'')),
      iu_saveImage = (\<lambda>_ _. Resolved ()),
      bmp_width = fst, bmp_height = snd\<rparr>"


section \<open>Viewport sizer\<close>

text \<open>
  The browser behind the WebDriver is a state of an arbitrary type \<open>'b\<close>, and the driver calls the
  sizer makes are parameters of the model: resizing, measuring and moving the window, and running
  the script \<open>JS_GET_VIEWPORT_SIZE\<close>.  Each call returns how its promise ends and the browser
  state it leaves.  The script returns a pair whose components are \<open>None\<close> when \<open>isNaN\<close> holds of
  them and \<open>Some n\<close> otherwise, \<open>n\<close> being what \<open>parseInt(_, 10) || 0\<close> makes of them.
\<close>

record 'b WebDriver =
  wd_setSize :: "int \<Rightarrow> int \<Rightarrow> 'b \<Rightarrow> unit outcome \<times> 'b"
  wd_getSize :: "'b \<Rightarrow> RectangleSize outcome \<times> 'b"
  wd_setPosition :: "int \<Rightarrow> int \<Rightarrow> 'b \<Rightarrow> unit outcome \<times> 'b"
  wd_viewportScript :: "'b \<Rightarrow> (int option \<times> int option) outcome \<times> 'b"

text \<open>
  What a run leaves behind, in order: the driver calls, the settle delays and the lines given to
  the logger.  A line given to \<open>logger.verbose\<close> is recorded by its fixed text, without the
  values printed after it; the line given to \<open>logger.log\<close> is recorded with the size printed
  after it.
\<close>

datatype event =
    WindowSetSize RectangleSize
  | WindowGetSize
  | WindowSetPosition int int
  | ViewportScript
  | Sleep int
  | Verbose string
  | LogLine string RectangleSize

record 'b session =
  browser :: 'b
  trace :: "event list"

definition emit :: "event \<Rightarrow> 'b session \<Rightarrow> 'b session" where
  "emit ev s = s\<lparr>trace := trace s @ [ev]\<rparr>"

text \<open>\<open>browser.manage().window().setSize(width, height)\<close>.\<close>

definition window_setSize :: "'b WebDriver \<Rightarrow> RectangleSize \<Rightarrow> 'b session \<Rightarrow> unit outcome \<times> 'b session" where
  "window_setSize D requiredSize s =
     (case wd_setSize D (s_width requiredSize) (s_height requiredSize) (browser s) of
        (r, b) \<Rightarrow> (r, emit (WindowSetSize requiredSize) (s\<lparr>browser := b\<rparr>)))"

text \<open>\<open>browser.manage().window().getSize()\<close>.\<close>

definition window_getSize :: "'b WebDriver \<Rightarrow> 'b session \<Rightarrow> RectangleSize outcome \<times> 'b session" where
  "window_getSize D s =
     (case wd_getSize D (browser s) of (r, b) \<Rightarrow> (r, emit WindowGetSize (s\<lparr>browser := b\<rparr>)))"

text \<open>\<open>browser.manage().window().setPosition(x, y)\<close>.\<close>

definition window_setPosition :: "'b WebDriver \<Rightarrow> int \<Rightarrow> int \<Rightarrow> 'b session \<Rightarrow> unit outcome \<times> 'b session" where
  "window_setPosition D x y s =
     (case wd_setPosition D x y (browser s) of
        (r, b) \<Rightarrow> (r, emit (WindowSetPosition x y) (s\<lparr>browser := b\<rparr>)))"

text \<open>\<open>GeneralUtils.sleep(ms, promiseFactory)\<close>: a delay, which always resolves.\<close>

definition sleep :: "int \<Rightarrow> 'b session \<Rightarrow> unit outcome \<times> 'b session" where
  "sleep ms s = (Resolved (), emit (Sleep ms) s)"

text \<open>\<open>getViewportSize(browser, promiseFactory)\<close>.\<close>

definition getViewportSize :: "'b WebDriver \<Rightarrow> 'b session \<Rightarrow> RectangleSize outcome \<times> 'b session" where
  "getViewportSize D s =
     (case wd_viewportScript D (browser s) of
        (r, b) \<Rightarrow>
          (let s' = emit ViewportScript (s\<lparr>browser := b\<rparr>)
           in case r of
                Resolved (Some w, Some h) \<Rightarrow> (Resolved \<lparr>s_width = w, s_height = h\<rparr>, s')
              | Resolved _ \<Rightarrow> (Rejected (Failure ''Can't parse values.''), s')
              | Rejected err \<Rightarrow> (Rejected err, s')
              | Pending \<Rightarrow> (Pending, s')))"

text \<open>
  \<open>_setBrowserSize(logger, browser, requiredSize, retries, promiseFactory)\<close>.  The count
  \<open>retries\<close> is only ever started at 3 and compared with 0 before it is decremented, so it is a
  natural number.  The chain inside the executor has no rejection handler: a driver call that
  rejects leaves the promise pending.
\<close>

fun setBrowserSize_retrying ::
  "'b WebDriver \<Rightarrow> RectangleSize \<Rightarrow> nat \<Rightarrow> 'b session \<Rightarrow> unit outcome \<times> 'b session" where
  "setBrowserSize_retrying D requiredSize retries s =
     (case window_setSize D requiredSize (emit (Verbose ''Trying to set browser size to:'') s) of
        (Resolved _, s1) \<Rightarrow>
          (case sleep 1000 s1 of
             (Resolved _, s2) \<Rightarrow>
               (case window_getSize D s2 of
                  (Resolved currentSize, s3) \<Rightarrow>
                    (let s4 = emit (LogLine ''Current browser size:'' currentSize) s3
                     in if s_width currentSize = s_width requiredSize \<and>
                           s_height currentSize = s_height requiredSize
                        then (Resolved (), s4)
                        else (case retries of
                                0 \<Rightarrow> (Rejected (Failure ''Failed to set browser size: retries is out.''), s4)
                              | Suc retries' \<Rightarrow> setBrowserSize_retrying D requiredSize retries' s4))
                | (Rejected err, s3) \<Rightarrow> (Pending, s3)
                | (Pending, s3) \<Rightarrow> (Pending, s3))
           | (Rejected err, s2) \<Rightarrow> (Pending, s2)
           | (Pending, s2) \<Rightarrow> (Pending, s2))
      | (Rejected err, s1) \<Rightarrow> (Pending, s1)
      | (Pending, s1) \<Rightarrow> (Pending, s1))"

text \<open>\<open>setBrowserSize(logger, browser, requiredSize, promiseFactory)\<close>.\<close>

definition setBrowserSize :: "'b WebDriver \<Rightarrow> RectangleSize \<Rightarrow> 'b session \<Rightarrow> bool outcome \<times> 'b session" where
  "setBrowserSize D requiredSize s =
     (case setBrowserSize_retrying D requiredSize 3 s of
        (Resolved _, s') \<Rightarrow> (Resolved True, s')
      | (Rejected err, s') \<Rightarrow> (Resolved False, s')
      | (Pending, s') \<Rightarrow> (Pending, s'))"

text \<open>\<open>setBrowserSizeByViewportSize(logger, browser, actualViewportSize, requiredViewportSize, promiseFactory)\<close>.\<close>

definition setBrowserSizeByViewportSize ::
  "'b WebDriver \<Rightarrow> RectangleSize \<Rightarrow> RectangleSize \<Rightarrow> 'b session \<Rightarrow> bool outcome \<times> 'b session" where
  "setBrowserSizeByViewportSize D actualViewportSize requiredViewportSize s =
     (case window_getSize D s of
        (Resolved browserSize, s1) \<Rightarrow>
          (let requiredBrowserSize =
                 \<lparr>s_width = s_width browserSize +
                              (s_width requiredViewportSize - s_width actualViewportSize),
                  s_height = s_height browserSize +
                              (s_height requiredViewportSize - s_height actualViewportSize)\<rparr>
           in setBrowserSize D requiredBrowserSize (emit (Verbose ''Current browser size:'') s1))
      | (Rejected err, s1) \<Rightarrow> (Rejected err, s1)
      | (Pending, s1) \<Rightarrow> (Pending, s1))"

text \<open>
  \<open>_setWindowSize(...)\<close>, the stepwise search of the zoom workaround.  It calls itself only
  after \<open>--retriesLeft > 0\<close>, which is what makes it terminate.
\<close>

function setWindowSize ::
  "'b WebDriver \<Rightarrow> RectangleSize \<Rightarrow> RectangleSize \<Rightarrow> RectangleSize \<Rightarrow> int \<Rightarrow> int \<Rightarrow> int \<Rightarrow> int \<Rightarrow>
   int \<Rightarrow> int \<Rightarrow> int \<Rightarrow> RectangleSize option \<Rightarrow> 'b session \<Rightarrow> unit outcome \<times> 'b session" where
  "setWindowSize D requiredSize actualViewportSize browserSize widthDiff widthStep heightDiff heightStep
     currWidthChange currHeightChange retriesLeft lastRequiredBrowserSize s =
     (let s0 = emit (Verbose ''Retries left:'') s;
          currWidthChange =
            (if \<bar>currWidthChange\<bar> \<le> \<bar>widthDiff\<bar> \<and> s_width actualViewportSize \<noteq> s_width requiredSize
             then currWidthChange + widthStep else currWidthChange);
          currHeightChange =
            (if \<bar>currHeightChange\<bar> \<le> \<bar>heightDiff\<bar> \<and> s_height actualViewportSize \<noteq> s_height requiredSize
             then currHeightChange + heightStep else currHeightChange);
          requiredBrowserSize =
            \<lparr>s_width = s_width browserSize + currWidthChange,
             s_height = s_height browserSize + currHeightChange\<rparr>
      in if (case lastRequiredBrowserSize of
               None \<Rightarrow> False
             | Some lastSize \<Rightarrow> s_width requiredBrowserSize = s_width lastSize \<and>
                                s_height requiredBrowserSize = s_height lastSize)
         then (Resolved (),
               emit (Verbose ''Stopping viewport size attempts.'')
                 (emit (Verbose ''Browser size: , Viewport size: '')
                    (emit (Verbose ''Browser size is as required but viewport size does not match!'') s0)))
         else (case setBrowserSize D requiredBrowserSize s0 of
                 (Resolved _, s1) \<Rightarrow>
                   (case getViewportSize D s1 of
                      (Resolved actualViewportSize', s2) \<Rightarrow>
                        (let s3 = emit (Verbose ''Current viewport size:'') s2
                         in if s_width actualViewportSize' = s_width requiredSize \<and>
                               s_height actualViewportSize' = s_height requiredSize
                            then (Resolved (), s3)
                            else if (\<bar>currWidthChange\<bar> \<le> \<bar>widthDiff\<bar> \<or>
                                     \<bar>currHeightChange\<bar> \<le> \<bar>heightDiff\<bar>) \<and> retriesLeft - 1 > 0
                            then setWindowSize D requiredSize actualViewportSize' browserSize
                                   widthDiff widthStep heightDiff heightStep
                                   currWidthChange currHeightChange (retriesLeft - 1)
                                   (Some requiredBrowserSize) s3
                            else (Rejected (Failure ''Failed to set window size!''), s3))
                    | (Rejected err, s2) \<Rightarrow> (Pending, s2)
                    | (Pending, s2) \<Rightarrow> (Pending, s2))
               | (Rejected err, s1) \<Rightarrow> (Pending, s1)
               | (Pending, s1) \<Rightarrow> (Pending, s1)))"
  by pat_completeness auto
termination
  by (relation "measure (\<lambda>(D, requiredSize, actualViewportSize, browserSize, widthDiff, widthStep,
                           heightDiff, heightStep, currWidthChange, currHeightChange, retriesLeft,
                           lastRequiredBrowserSize, s). nat retriesLeft)") auto

declare setWindowSize.simps [simp del]

text \<open>
  The last callback of \<open>setViewportSize\<close>, run with the window size once two resizes by the
  measured difference have not given the required viewport.
\<close>

definition zoomWorkaround ::
  "'b WebDriver \<Rightarrow> RectangleSize \<Rightarrow> RectangleSize \<Rightarrow> RectangleSize \<Rightarrow> 'b session \<Rightarrow>
   unit outcome \<times> 'b session" where
  "zoomWorkaround D requiredSize actualViewportSize browserSize s =
     (let MAX_DIFF = 3;
          widthDiff = s_width actualViewportSize - s_width requiredSize;
          widthStep = (if widthDiff > 0 then - 1 else 1);
          heightDiff = s_height actualViewportSize - s_height requiredSize;
          heightStep = (if heightDiff > 0 then - 1 else 1);
          currWidthChange = 0;
          currHeightChange = 0
      in if \<bar>widthDiff\<bar> \<le> MAX_DIFF \<and> \<bar>heightDiff\<bar> \<le> MAX_DIFF
         then (let s0 = emit (Verbose ''Trying workaround for zoom...'') s;
                   retriesLeft = \<bar>(if widthDiff = 0 then 1 else widthDiff) *
                                  (if heightDiff = 0 then 1 else heightDiff)\<bar> * 2;
                   lastRequiredBrowserSize = None
               in case setWindowSize D requiredSize actualViewportSize browserSize
                         widthDiff widthStep heightDiff heightStep currWidthChange currHeightChange
                         retriesLeft lastRequiredBrowserSize s0 of
                    (Resolved _, s1) \<Rightarrow> (Resolved (), s1)
                  | (Rejected err, s1) \<Rightarrow>
                      (Rejected (Failure ''Failed to set viewport size: zoom workaround failed.''), s1)
                  | (Pending, s1) \<Rightarrow> (Pending, s1))
         else (Rejected (Failure ''Failed to set viewport size!''), s))"

text \<open>
  \<open>setViewportSize(logger, browser, requiredSize, promiseFactory)\<close>.  Only the first measurement
  is under the \<open>catch\<close> that rejects the promise; the chain started after it is not returned to
  that \<open>catch\<close>, so a driver call that rejects further on leaves the promise pending.
\<close>

definition setViewportSize :: "'b WebDriver \<Rightarrow> RectangleSize \<Rightarrow> 'b session \<Rightarrow> unit outcome \<times> 'b session" where
  "setViewportSize D requiredSize s =
     (case getViewportSize D (emit (Verbose ''setViewportSize('') s) of
        (Rejected err, s1) \<Rightarrow> (Rejected err, s1)
      | (Pending, s1) \<Rightarrow> (Pending, s1)
      | (Resolved actualViewportSize, s1) \<Rightarrow>
          (let s2 = emit (Verbose ''Initial viewport size:'') s1
           in if s_width actualViewportSize = s_width requiredSize \<and>
                 s_height actualViewportSize = s_height requiredSize
              then (Resolved (), s2)
              else
                (case (case window_setPosition D 0 0 s2 of
                         (Rejected err, s3) \<Rightarrow>
                           (Resolved (), emit (Verbose ''Warning: Failed to move the browser window to (0,0)'') s3)
                       | r \<Rightarrow> r) of
                   (Resolved _, s3) \<Rightarrow>
                     (case setBrowserSizeByViewportSize D actualViewportSize requiredSize s3 of
                        (Resolved _, s4) \<Rightarrow>
                          (case getViewportSize D s4 of
                             (Resolved actualViewportSize, s5) \<Rightarrow>
                               (if s_width actualViewportSize = s_width requiredSize \<and>
                                   s_height actualViewportSize = s_height requiredSize
                                then (Resolved (), s5)
                                else
                                  (case setBrowserSizeByViewportSize D actualViewportSize requiredSize
                                          (emit (Verbose ''Trying workaround for maximization...'') s5) of
                                     (Resolved _, s6) \<Rightarrow>
                                       (case getViewportSize D s6 of
                                          (Resolved actualViewportSize, s7) \<Rightarrow>
                                            (let s8 = emit (Verbose ''Current viewport size:'') s7
                                             in if s_width actualViewportSize = s_width requiredSize \<and>
                                                   s_height actualViewportSize = s_height requiredSize
                                                then (Resolved (), s8)
                                                else
                                                  (case window_getSize D s8 of
                                                     (Resolved browserSize, s9) \<Rightarrow>
                                                       zoomWorkaround D requiredSize actualViewportSize
                                                         browserSize s9
                                                   | (_, s9) \<Rightarrow> (Pending, s9)))
                                        | (_, s7) \<Rightarrow> (Pending, s7))
                                   | (_, s6) \<Rightarrow> (Pending, s6)))
                           | (_, s5) \<Rightarrow> (Pending, s5))
                      | (_, s4) \<Rightarrow> (Pending, s4))
                 | (_, s3) \<Rightarrow> (Pending, s3))))"

subsection \<open>Notions used to state the sizer properties\<close>

text \<open>The number of raw window resizes in a trace, and the sizes they asked for.\<close>

fun requested :: "event list \<Rightarrow> RectangleSize list" where
  "requested [] = []"
| "requested (WindowSetSize sz # evs) = sz # requested evs"
| "requested (_ # evs) = requested evs"

text \<open>The number of steps of the stepwise search in a trace: one line of the logger each.\<close>

definition search_steps :: "event list \<Rightarrow> nat" where
  "search_steps evs = length (filter (\<lambda>ev. ev = Verbose ''Retries left:'') evs)"

text \<open>The number of viewport measurements in a trace.\<close>

definition measurements :: "event list \<Rightarrow> nat" where
  "measurements evs = length (filter (\<lambda>ev. ev = ViewportScript) evs)"

text \<open>
  A list of requested window sizes in which each differs from the one before it (the first from
  \<open>prev\<close>) by nothing or by one step in width, and by nothing or by one step in height.
\<close>

fun nudges :: "int \<Rightarrow> int \<Rightarrow> RectangleSize \<Rightarrow> RectangleSize list \<Rightarrow> bool" where
  "nudges widthStep heightStep prev [] = True"
| "nudges widthStep heightStep prev (sz # sizes) =
     ((s_width sz = s_width prev \<or> s_width sz = s_width prev + widthStep) \<and>
      (s_height sz = s_height prev \<or> s_height sz = s_height prev + heightStep) \<and>
      nudges widthStep heightStep sz sizes)"

text \<open>
  Two browsers to run the sizer on.  The first has no state: it ignores every resize and always
  reports a window of 800 by 600 and a viewport of 784 by 500.  The state of the second is its
  window size: it obeys every resize but always reports a viewport of 1024 by 770.
\<close>

definition stubborn_browser :: "unit WebDriver" where
  "stubborn_browser =
     \<lparr>wd_setSize = (\<lambda>w h b. (Resolved (), b)),
      wd_getSize = (\<lambda>b. (Resolved \<lparr>s_width = 800, s_height = 600\<rparr>, b)),
      wd_setPosition = (\<lambda>x y b. (Resolved (), b)),
      wd_viewportScript = (\<lambda>b. (Resolved (Some 784, Some 500), b))\<rparr>"

definition zoomed_browser :: "RectangleSize WebDriver" where
  "zoomed_browser =
     \<lparr>wd_setSize = (\<lambda>w h b. (Resolved (), \<lparr>s_width = w, s_height = h\<rparr>)),
      wd_getSize = (\<lambda>b. (Resolved b, b)),
      wd_setPosition = (\<lambda>x y b. (Resolved (), b)),
      wd_viewportScript = (\<lambda>b. (Resolved (Some 1024, Some 770), b))\<rparr>"

text \<open>A browser every resize of which settles, and one whose window never has the size \<open>req\<close>.\<close>

definition resizes_settle :: "'b WebDriver \<Rightarrow> bool" where
  "resizes_settle D \<longleftrightarrow> (\<forall>w h b. \<exists>b'. wd_setSize D w h b = (Resolved (), b'))"

definition never_matches :: "'b WebDriver \<Rightarrow> RectangleSize \<Rightarrow> bool" where
  "never_matches D req \<longleftrightarrow>
     (\<forall>b. \<exists>sz b'. wd_getSize D b = (Resolved sz, b') \<and>
                   \<not> (s_width sz = s_width req \<and> s_height sz = s_height req))"

text \<open>
  What one call of \<open>setBrowserSize\<close> adds to the trace: between one and \<open>n\<close> raw resizes, all to
  the required size, no step of the search and no viewport measurement.
\<close>

definition resize_run :: "RectangleSize \<Rightarrow> nat \<Rightarrow> event list \<Rightarrow> bool" where
  "resize_run req n evs \<longleftrightarrow>
     (\<exists>k. 1 \<le> k \<and> k \<le> n \<and> requested evs = replicate k req) \<and>
     search_steps evs = 0 \<and> measurements evs = 0"

text \<open>
  What a run of the stepwise search adds to the trace: at least one step and at most \<open>budget\<close>
  (one when the budget is smaller), requested window sizes that move by single steps from
  \<open>prev\<close>, at most one viewport measurement per step and at most four raw resizes per step.
\<close>

definition search_run :: "int \<Rightarrow> int \<Rightarrow> RectangleSize \<Rightarrow> int \<Rightarrow> event list \<Rightarrow> bool" where
  "search_run widthStep heightStep prev budget evs \<longleftrightarrow>
     1 \<le> search_steps evs \<and> int (search_steps evs) \<le> max 1 budget \<and>
     nudges widthStep heightStep prev (requested evs) \<and>
     measurements evs \<le> search_steps evs \<and>
     length (requested evs) \<le> 4 * search_steps evs"

text \<open>The window sizes that the sizer has logged as measured, in order.\<close>

fun observed :: "event list \<Rightarrow> RectangleSize list" where
  "observed [] = []"
| "observed (LogLine _ sz # evs) = sz # observed evs"
| "observed (_ # evs) = observed evs"

text \<open>Two sizes are the same when their widths and their heights are.\<close>

definition same_size :: "RectangleSize \<Rightarrow> RectangleSize \<Rightarrow> bool" where
  "same_size a b \<longleftrightarrow> s_width a = s_width b \<and> s_height a = s_height b"

text \<open>
  A driver that answers: every resize settles, every measurement of the window gives a size, and
  the viewport script gives two numbers.
\<close>

definition window_measured :: "'b WebDriver \<Rightarrow> bool" where
  "window_measured D \<longleftrightarrow> (\<forall>b. \<exists>sz b'. wd_getSize D b = (Resolved sz, b'))"

definition viewport_measured :: "'b WebDriver \<Rightarrow> bool" where
  "viewport_measured D \<longleftrightarrow> (\<forall>b. \<exists>w h b'. wd_viewportScript D b = (Resolved (Some w, Some h), b'))"

text \<open>
  The raw resizes and the viewport measurements of a trace, in order, and what one attempt of
  the stepwise search leaves among them: \<open>k\<close> raw resizes to the size it asks for, then one
  measurement of the viewport.
\<close>

fun is_move :: "event \<Rightarrow> bool" where
  "is_move (WindowSetSize _) = True"
| "is_move ViewportScript = True"
| "is_move _ = False"

definition attempt_events :: "nat \<times> RectangleSize \<Rightarrow> event list" where
  "attempt_events a = replicate (fst a) (WindowSetSize (snd a)) @ [ViewportScript]"

text \<open>
  A list of window sizes in which each differs from the one before it (the first from \<open>prev\<close>):
  in each axis it is the same or one step further, and it is one step further in at least one.
\<close>

fun nudged :: "int \<Rightarrow> int \<Rightarrow> RectangleSize \<Rightarrow> RectangleSize list \<Rightarrow> bool" where
  "nudged widthStep heightStep prev [] = True"
| "nudged widthStep heightStep prev (sz # sizes) =
     ((s_width sz = s_width prev \<or> s_width sz = s_width prev + widthStep) \<and>
      (s_height sz = s_height prev \<or> s_height sz = s_height prev + heightStep) \<and>
      (s_width sz \<noteq> s_width prev \<or> s_height sz \<noteq> s_height prev) \<and>
      nudged widthStep heightStep sz sizes)"

text \<open>
  A browser that takes a resize only at the third request: its state counts the requests made
  and holds the window size.
\<close>

definition sluggish_browser :: "(nat \<times> RectangleSize) WebDriver" where
  "sluggish_browser =
     \<lparr>wd_setSize = (\<lambda>w h b. (Resolved (),
                       (Suc (fst b), if 2 \<le> fst b then \<lparr>s_width = w, s_height = h\<rparr> else snd b))),
      wd_getSize = (\<lambda>b. (Resolved (snd b), b)),
      wd_setPosition = (\<lambda>x y b. (Resolved (), b)),
      wd_viewportScript = (\<lambda>b. (Resolved (Some (s_width (snd b) - 16), Some (s_height (snd b) - 100)), b))\<rparr>"

text \<open>
  What a call of \<open>setBrowserSize\<close> with at most \<open>n\<close> tries adds to the trace when the driver
  answers, \<open>sizes\<close> being the window sizes measured after each try: one raw resize to the
  required size for each, no step of the search and no measurement of the viewport; every
  measured size but the last differs from the required one, and the last differs from it only
  when all \<open>n\<close> tries were made; each is a size the driver reported.
\<close>

definition resize_attempts ::
  "'b WebDriver \<Rightarrow> RectangleSize \<Rightarrow> nat \<Rightarrow> RectangleSize list \<Rightarrow> event list \<Rightarrow> bool" where
  "resize_attempts D req n sizes evs \<longleftrightarrow>
     observed evs = sizes \<and> requested evs = replicate (length sizes) req \<and>
     filter is_move evs = replicate (length sizes) (WindowSetSize req) \<and>
     search_steps evs = 0 \<and>
     1 \<le> length sizes \<and> length sizes \<le> n \<and>
     (\<forall>sz \<in> set (butlast sizes). \<not> same_size sz req) \<and>
     (\<not> same_size (last sizes) req \<longrightarrow> length sizes = n) \<and>
     (\<forall>sz \<in> set sizes. \<exists>b b'. wd_getSize D b = (Resolved sz, b'))"

text \<open>
  What a run of the stepwise search adds to the trace when the driver answers, \<open>attempts\<close> being
  the number of raw resizes and the window size asked for in each attempt: the raw resizes and
  the viewport measurements of the trace are those of the attempts, in order, each attempt
  ending with one measurement; an attempt makes between one and four raw resizes; the sizes
  asked for move by single steps from \<open>prev\<close>, each differing from the one before it; and there
  is one step of the search for each attempt, and at most one more, which makes no attempt.
\<close>

definition search_attempts ::
  "int \<Rightarrow> int \<Rightarrow> RectangleSize \<Rightarrow> (nat \<times> RectangleSize) list \<Rightarrow> event list \<Rightarrow> bool" where
  "search_attempts widthStep heightStep prev attempts evs \<longleftrightarrow>
     filter is_move evs = concat (map attempt_events attempts) \<and>
     (\<forall>a \<in> set attempts. 1 \<le> fst a \<and> fst a \<le> 4) \<and>
     nudged widthStep heightStep prev (map snd attempts) \<and>
     length attempts \<le> search_steps evs \<and> search_steps evs \<le> Suc (length attempts)"

section \<open>Capture orchestrator\<close>

subsection \<open>Chaining promises over a state\<close>

text \<open>
  An asynchronous step is a function from the state of the world to the way its promise ends and
  the state it leaves.  \<open>then_p m f\<close> is \<open>m.then(f)\<close>: the continuation runs only when \<open>m\<close> is
  fulfilled; a rejection passes through, and so does a promise that never settles.
\<close>

type_synonym ('a, 'w) promise = "'w \<Rightarrow> 'a outcome \<times> 'w"

definition resolve :: "'a \<Rightarrow> ('a, 'w) promise" where
  "resolve x w = (Resolved x, w)"

definition reject :: "error \<Rightarrow> ('a, 'w) promise" where
  "reject e w = (Rejected e, w)"

definition then_p :: "('a, 'w) promise \<Rightarrow> ('a \<Rightarrow> ('b, 'w) promise) \<Rightarrow> ('b, 'w) promise" where
  "then_p m f w =
     (case m w of
        (Resolved x, w') \<Rightarrow> f x w'
      | (Rejected e, w') \<Rightarrow> (Rejected e, w')
      | (Pending, w') \<Rightarrow> (Pending, w'))"

text \<open>\<open>m.then(f, g)\<close>: the second callback handles a rejection of \<open>m\<close>.\<close>

definition then_or :: "('a, 'w) promise \<Rightarrow> ('a \<Rightarrow> ('b, 'w) promise) \<Rightarrow> (error \<Rightarrow> ('b, 'w) promise) \<Rightarrow>
                       ('b, 'w) promise" where
  "then_or m f g w =
     (case m w of
        (Resolved x, w') \<Rightarrow> f x w'
      | (Rejected e, w') \<Rightarrow> g e w'
      | (Pending, w') \<Rightarrow> (Pending, w'))"

text \<open>
  \<open>makePromise(resolve => { ... m.then(... resolve()) })\<close>: a promise whose executor hands
  only \<open>resolve\<close> to the chain \<open>m\<close>.  When \<open>m\<close> is rejected nobody settles the outer promise.
\<close>

definition unwired :: "('a, 'w) promise \<Rightarrow> ('a, 'w) promise" where
  "unwired m w =
     (case m w of
        (Resolved x, w') \<Rightarrow> (Resolved x, w')
      | (Rejected e, w') \<Rightarrow> (Pending, w')
      | (Pending, w') \<Rightarrow> (Pending, w'))"

subsection \<open>The browser page and the collaborators\<close>

text \<open>The calls that a capture makes to its collaborators.\<close>

datatype call =
    GetEntireSize
  | GetDevicePixelRatio
  | SetOverflow "string option"
  | GetIsBodyOverflowHidden
  | SetBodyOverflow "string option"
  | GetState
  | SetPosition Location
  | GetCurrentPosition
  | RestoreState Location
  | TakeScreenshot
  | Cut
  | GetRegionInLocation
  | GetCurrentScrollPosition
  | GetSubRegions Region RectangleSize bool
  | StitchImage
  | Delay int

text \<open>
  The state of the world during a capture: the inline \<open>overflow\<close> style of the document element
  and of the body, the offset the position provider is at, and the calls made so far.  The two
  overflow scripts read and assign the style property; the model keeps the string they assign
  (for a \<open>null\<close> argument the script assigns \<open>undefined\<close>).
\<close>

record world =
  doc_overflow :: string
  body_overflow :: string
  position :: Location
  calls :: "call list"

text \<open>The object \<open>{image, size, position}\<close> recorded for a captured tile.\<close>

record 'buf part =
  part_image :: "'buf option"
  part_size :: RectangleSize
  part_position :: Location

text \<open>
  The collaborators of a capture: the driver, the position provider, the optional cut provider,
  scale provider factory and region provider, and the modules \<open>GeometryUtils\<close> and \<open>ImageUtils\<close>,
  all outside the source files at hand and parameters of the model.  \<open>fault\<close> tells whether a
  call is rejected, and with what, in a given state of the world; the other fields give what a call
  that is not rejected returns.  \<open>achieved\<close> is the offset the position provider really reaches
  when it is asked for one (a browser may clamp).  \<open>scaleRegion region r\<close> stands for
  \<open>GeometryUtils.scaleRegion(region, 1 / r)\<close>.
\<close>

record ('buf, 'bmp) collaborators =
  fault :: "call \<Rightarrow> world \<Rightarrow> error option"
  entireSize :: "world \<Rightarrow> RectangleSize"
  devicePixelRatio :: "world \<Rightarrow> real"
  isBodyOverflowHidden :: "world \<Rightarrow> bool"
  achieved :: "Location \<Rightarrow> world \<Rightarrow> Location"
  screenshotBytes :: "world \<Rightarrow> 'buf"
  cutProvider :: "(('buf, 'bmp) MutableImage \<Rightarrow> ('buf, 'bmp) MutableImage) option"
  scaleProviderFactory :: "(int \<Rightarrow> real) option"
  regionProvider :: "(('buf, 'bmp) MutableImage \<Rightarrow> world \<Rightarrow> Region) option"
  scrollPosition :: "world \<Rightarrow> Location"
  scaleRegion :: "Region \<Rightarrow> real \<Rightarrow> Region"
  geometry_getSubRegions :: "Region \<Rightarrow> RectangleSize \<Rightarrow> bool \<Rightarrow> error + Region list"
  stitchImage :: "RectangleSize \<Rightarrow> 'buf part list \<Rightarrow> 'buf"
  imageUtils :: "('buf, 'bmp) ImageUtils"
  editingDisabled :: bool

text \<open>
  A call to a collaborator: it is recorded, and unless it is rejected it returns its result and
  has its effect on the world.
\<close>

definition external ::
  "('buf, 'bmp) collaborators \<Rightarrow> call \<Rightarrow> (world \<Rightarrow> 'a) \<Rightarrow> (world \<Rightarrow> world) \<Rightarrow> ('a, world) promise" where
  "external E c result effect w =
     (let w1 = w\<lparr>calls := calls w @ [c]\<rparr>
      in case fault E c w of
           Some e \<Rightarrow> (Rejected e, w1)
         | None \<Rightarrow> (Resolved (result w), effect w1))"

text \<open>
  A synchronous call to a collaborator inside an executor or a callback: it is recorded, and
  what it throws rejects the promise.
\<close>

definition throwing :: "call \<Rightarrow> error + 'a \<Rightarrow> ('a, world) promise" where
  "throwing c r w =
     (case r of
        Inl e \<Rightarrow> (Rejected e, w\<lparr>calls := calls w @ [c]\<rparr>)
      | Inr x \<Rightarrow> (Resolved x, w\<lparr>calls := calls w @ [c]\<rparr>))"

text \<open>\<open>GeneralUtils.sleep\<close>.\<close>

definition delay :: "int \<Rightarrow> (unit, world) promise" where
  "delay ms w = (Resolved (), w\<lparr>calls := calls w @ [Delay ms]\<rparr>)"

text \<open>\<open>setOverflow(browser, overflowValue, promiseFactory)\<close>, with its stabilization time.\<close>

definition setOverflow :: "('buf, 'bmp) collaborators \<Rightarrow> string option \<Rightarrow> (string, world) promise" where
  "setOverflow E overflowValue =
     then_p (external E (SetOverflow overflowValue) doc_overflow
               (\<lambda>w. w\<lparr>doc_overflow := (case overflowValue of None \<Rightarrow> ''undefined'' | Some v \<Rightarrow> v)\<rparr>))
       (\<lambda>result. then_p (delay 100) (\<lambda>_. resolve result))"

text \<open>\<open>setBodyOverflow(browser, overflowValue, promiseFactory)\<close>.\<close>

definition setBodyOverflow :: "('buf, 'bmp) collaborators \<Rightarrow> string option \<Rightarrow> (string, world) promise" where
  "setBodyOverflow E overflowValue =
     then_p (external E (SetBodyOverflow overflowValue) body_overflow
               (\<lambda>w. w\<lparr>body_overflow := (case overflowValue of None \<Rightarrow> ''undefined'' | Some v \<Rightarrow> v)\<rparr>))
       (\<lambda>result. then_p (delay 100) (\<lambda>_. resolve result))"

text \<open>The calls to the position provider.\<close>

definition getState :: "('buf, 'bmp) collaborators \<Rightarrow> (Location, world) promise" where
  "getState E = external E GetState position (\<lambda>w. w)"

definition setPosition :: "('buf, 'bmp) collaborators \<Rightarrow> Location \<Rightarrow> (unit, world) promise" where
  "setPosition E location =
     external E (SetPosition location) (\<lambda>_. ()) (\<lambda>w. w\<lparr>position := achieved E location w\<rparr>)"

definition getCurrentPosition :: "('buf, 'bmp) collaborators \<Rightarrow> (Location, world) promise" where
  "getCurrentPosition E = external E GetCurrentPosition position (\<lambda>w. w)"

definition restoreState :: "('buf, 'bmp) collaborators \<Rightarrow> Location \<Rightarrow> (unit, world) promise" where
  "restoreState E state = external E (RestoreState state) (\<lambda>_. ()) (\<lambda>w. w\<lparr>position := state\<rparr>)"

text \<open>An operation of a \<open>MutableImage\<close> run inside a capture: it returns its value and the image.\<close>

definition on_image ::
  "('img \<Rightarrow> 'a outcome \<times> 'img) \<Rightarrow> 'img \<Rightarrow> ('a \<times> 'img, world) promise" where
  "on_image operation img w =
     (case operation img of
        (Resolved x, img') \<Rightarrow> (Resolved (x, img'), w)
      | (Rejected e, img') \<Rightarrow> (Rejected e, w)
      | (Pending, img') \<Rightarrow> (Pending, w))"

text \<open>The synchronous \<open>getSize()\<close> called inside a \<open>then\<close> callback: what it throws rejects the chain.\<close>

definition image_getSize ::
  "('buf, 'bmp) collaborators \<Rightarrow> ('buf, 'bmp) MutableImage \<Rightarrow>
   (RectangleSize \<times> ('buf, 'bmp) MutableImage, world) promise" where
  "image_getSize E img =
     (case getSize (imageUtils E) img of Inl e \<Rightarrow> reject e | Inr r \<Rightarrow> resolve r)"

subsection \<open>Capturing the viewport\<close>

text \<open>The parameters of \<open>getScreenshot\<close> that are plain values.\<close>

record config =
  viewportSize :: RectangleSize
  fullPage :: bool
  hideScrollbars :: "bool option"
  useCssTransition :: bool
  rotationDegrees :: int
  automaticRotation :: bool
  automaticRotationDegrees :: int
  isLandscape :: bool
  waitBeforeScreenshots :: int
  checkFrameOrElement :: bool

text \<open>
  Saving a debug screenshot, when asked for; the file name, which the source builds from the
  clock, is left out.
\<close>

definition debug_save ::
  "('buf, 'bmp) collaborators \<Rightarrow> bool \<Rightarrow> ('buf, 'bmp) MutableImage \<Rightarrow>
   (('buf, 'bmp) MutableImage, world) promise" where
  "debug_save E saveDebugScreenshots img =
     (if saveDebugScreenshots
      then then_p (on_image (saveImage (imageUtils E) (editingDisabled E) ''screenshot'') img)
             (\<lambda>(_, img'). resolve img')
      else resolve img)"

text \<open>
  \<open>_captureViewport(...)\<close>.  \<open>regionInScreenshot\<close> is \<open>None\<close> for a \<open>null\<close> or missing argument.
\<close>

definition captureViewport ::
  "('buf, 'bmp) collaborators \<Rightarrow> config \<Rightarrow> Region option \<Rightarrow> bool \<Rightarrow>
   (('buf, 'bmp) MutableImage, world) promise" where
  "captureViewport E cfg regionInScreenshot saveDebugScreenshots =
     then_p (delay (waitBeforeScreenshots cfg)) (\<lambda>_.
     then_p (external E TakeScreenshot (screenshotBytes E) (\<lambda>w. w)) (\<lambda>screenshot64.
     then_p (debug_save E saveDebugScreenshots (MutableImage_new screenshot64)) (\<lambda>mutableImage.
     then_p (case cutProvider E of
               Some cutProvider' \<Rightarrow> external E Cut (\<lambda>_. cutProvider' mutableImage) (\<lambda>w. w)
             | None \<Rightarrow> resolve mutableImage) (\<lambda>mutableImage.
     then_p (image_getSize E mutableImage) (\<lambda>(imageSize, mutableImage).
       (let rotationDegrees' =
              (if isLandscape cfg \<and> automaticRotation cfg \<and> s_height imageSize > s_width imageSize
               then automaticRotationDegrees cfg else rotationDegrees cfg);
            scaleRatio = (case scaleProviderFactory E of
                            Some factory \<Rightarrow> factory (s_width imageSize)
                          | None \<Rightarrow> 1)
        in
     then_p (case regionInScreenshot of
               Some region \<Rightarrow>
                 then_p (on_image (cropImage (imageUtils E) (editingDisabled E)
                                     (scaleRegion E region scaleRatio)) mutableImage)
                   (\<lambda>(_, img'). resolve img')
             | None \<Rightarrow> resolve mutableImage) (\<lambda>mutableImage.
     then_p (debug_save E saveDebugScreenshots mutableImage) (\<lambda>mutableImage.
     then_p (if scaleRatio \<noteq> 1
             then then_p (on_image (scaleImage (imageUtils E) (editingDisabled E) scaleRatio) mutableImage)
                    (\<lambda>(_, img'). resolve img')
             else resolve mutableImage) (\<lambda>mutableImage.
     then_p (debug_save E saveDebugScreenshots mutableImage) (\<lambda>mutableImage.
     then_p (if rotationDegrees' \<noteq> 0
             then then_p (on_image (rotateImage (imageUtils E) (editingDisabled E) rotationDegrees') mutableImage)
                    (\<lambda>(_, img'). resolve img')
             else resolve mutableImage) (\<lambda>mutableImage.
     then_p (image_getSize E mutableImage) (\<lambda>(imageSize, mutableImage).
     then_p (if s_width imageSize \<le> s_width (viewportSize cfg) \<and>
                s_height imageSize \<le> s_height (viewportSize cfg)
             then then_or (external E GetCurrentScrollPosition (scrollPosition E) (\<lambda>w. w))
                    (\<lambda>scrollPosition. then_p (on_image (setCoordinates scrollPosition) mutableImage)
                                          (\<lambda>(_, img'). resolve img'))
                    (\<lambda>_. then_p (on_image (setCoordinates \<lparr>l_x = 0, l_y = 0\<rparr>) mutableImage)
                            (\<lambda>(_, img'). resolve img'))
             else resolve mutableImage) (\<lambda>mutableImage.
     resolve mutableImage)))))))))))))"

subsection \<open>Tiles\<close>

text \<open>
  \<open>_processPart(part, parts, imageObj, ...)\<close>, run once the promise of the part before it has
  been fulfilled.  The array \<open>parts\<close> it pushes to is returned.  The chain that scrolls and
  captures has no rejection handler.
\<close>

definition processPart ::
  "('buf, 'bmp) collaborators \<Rightarrow> config \<Rightarrow> Region \<Rightarrow> 'buf part list \<Rightarrow> 'buf imageObject \<Rightarrow>
   Region option \<Rightarrow> bool \<Rightarrow> ('buf part list, world) promise" where
  "processPart E cfg part parts imageObj regionInScreenshot saveDebugScreenshots =
     (if r_left part = 0 \<and> r_top part = 0
      then resolve (parts @ [\<lparr>part_image = io_imageBuffer imageObj,
                               part_size = \<lparr>s_width = io_width imageObj, s_height = io_height imageObj\<rparr>,
                               part_position = \<lparr>l_x = 0, l_y = 0\<rparr>\<rparr>])
      else
        (let partPosition = \<lparr>l_x = r_left part, l_y = r_top part\<rparr>
         in unwired
              (then_p (setPosition E partPosition) (\<lambda>_.
               then_p (getCurrentPosition E) (\<lambda>currentPosition.
               then_p (captureViewport E cfg regionInScreenshot saveDebugScreenshots) (\<lambda>partImage.
               then_p (on_image (asObject (imageUtils E) (editingDisabled E)) partImage) (\<lambda>(partObj, _).
               resolve (parts @ [\<lparr>part_image = io_imageBuffer partObj,
                                   part_size = \<lparr>s_width = io_width partObj, s_height = io_height partObj\<rparr>,
                                   part_position = \<lparr>l_x = l_x currentPosition,
                                                    l_y = l_y currentPosition\<rparr>\<rparr>]))))))))"

text \<open>The \<open>forEach\<close> over the tiles, which chains one \<open>_processPart\<close> after the other.\<close>

fun processParts ::
  "('buf, 'bmp) collaborators \<Rightarrow> config \<Rightarrow> 'buf imageObject \<Rightarrow> Region option \<Rightarrow> bool \<Rightarrow>
   Region list \<Rightarrow> 'buf part list \<Rightarrow> ('buf part list, world) promise" where
  "processParts E cfg imageObj regionInScreenshot saveDebugScreenshots [] parts = resolve parts"
| "processParts E cfg imageObj regionInScreenshot saveDebugScreenshots (part # screenshotParts) parts =
     then_p (processPart E cfg part parts imageObj regionInScreenshot saveDebugScreenshots)
       (processParts E cfg imageObj regionInScreenshot saveDebugScreenshots screenshotParts)"

text \<open>
  The callback of \<open>getScreenshot\<close> that decides on tiling, tiles and stitches.  It is given the
  image and the image object of the capture made before it, and resolves to the screenshot to go
  on with.  An exception thrown by \<open>GeometryUtils.getSubRegions\<close> inside the executor rejects
  the promise; the chain of tiles and the stitching have no rejection handler.
\<close>

definition tilingStage ::
  "('buf, 'bmp) collaborators \<Rightarrow> config \<Rightarrow> RectangleSize \<Rightarrow> Region option \<Rightarrow> bool \<Rightarrow>
   ('buf, 'bmp) MutableImage \<Rightarrow> 'buf imageObject \<Rightarrow> (('buf, 'bmp) MutableImage, world) promise" where
  "tilingStage E cfg entirePageSize regionInScreenshot saveDebugScreenshots screenshot imageObject =
     (let MIN_SCREENSHOT_PART_HEIGHT = 10; MAX_SCROLLBAR_SIZE = 50
      in if \<not> fullPage cfg \<and> \<not> checkFrameOrElement cfg then resolve screenshot
         else if io_width imageObject \<ge> s_width entirePageSize \<and>
                 io_height imageObject \<ge> s_height entirePageSize then resolve screenshot
         else
           (let screenshotPartSize =
                  \<lparr>s_width = io_width imageObject,
                   s_height = max (io_height imageObject - MAX_SCROLLBAR_SIZE) MIN_SCREENSHOT_PART_HEIGHT\<rparr>;
                container =
                  \<lparr>r_left = 0, r_top = 0, r_width = s_width entirePageSize,
                   r_height = s_height entirePageSize, r_coordinatesType = SCREENSHOT_AS_IS\<rparr>
            in then_p (throwing (GetSubRegions container screenshotPartSize False)
                         (geometry_getSubRegions E container screenshotPartSize False))
                 (\<lambda>screenshotParts.
                    unwired
                      (then_p (processParts E cfg imageObject
                                 (if checkFrameOrElement cfg then regionInScreenshot else None)
                                 saveDebugScreenshots screenshotParts []) (\<lambda>parts.
                       then_p (external E StitchImage (\<lambda>_. stitchImage E entirePageSize parts) (\<lambda>w. w))
                         (\<lambda>stitchedBuffer. resolve (MutableImage_new stitchedBuffer)))))))"

subsection \<open>The full capture\<close>

text \<open>Step 3 of \<open>getScreenshot\<close>: hide the scrollbars; it resolves to the two saved styles.\<close>

definition hideScrollbarsStep ::
  "('buf, 'bmp) collaborators \<Rightarrow> config \<Rightarrow> bool \<Rightarrow> (string option \<times> string option, world) promise" where
  "hideScrollbarsStep E cfg hideScrollbars' =
     (if hideScrollbars'
      then then_p (setOverflow E (Some ''hidden'')) (\<lambda>originalVal.
             if useCssTransition cfg
             then then_p (external E GetIsBodyOverflowHidden (isBodyOverflowHidden E) (\<lambda>w. w))
                    (\<lambda>isBodyOverflowHidden'.
                       if isBodyOverflowHidden'
                       then then_p (setBodyOverflow E (Some ''initial''))
                              (\<lambda>originalBodyVal. resolve (Some originalVal, Some originalBodyVal))
                       else resolve (Some originalVal, None))
             else resolve (Some originalVal, None))
      else resolve (None, None))"

text \<open>
  Step 4: for a full page, save the state of the position provider and scroll to the origin; it
  resolves to the saved state.
\<close>

definition scrollToOriginStep :: "('buf, 'bmp) collaborators \<Rightarrow> config \<Rightarrow> (Location option, world) promise" where
  "scrollToOriginStep E cfg =
     (if fullPage cfg
      then then_p (getState E) (\<lambda>state.
           then_p (setPosition E \<lparr>l_x = 0, l_y = 0\<rparr>) (\<lambda>_.
           then_p (getCurrentPosition E) (\<lambda>location.
             if l_x location \<noteq> 0 \<or> l_y location \<noteq> 0
             then reject (Failure ''Could not scroll to the x/y corner of the screen'')
             else resolve (Some state))))
      else resolve None)"

text \<open>
  \<open>getScreenshot(...)\<close>.  \<open>saveDebugScreenshots\<close> is false for a missing argument.  The value a
  local variable holds while it is still \<open>undefined\<close> is \<open>None\<close>.
\<close>

definition getScreenshot ::
  "('buf, 'bmp) collaborators \<Rightarrow> config \<Rightarrow> bool \<Rightarrow> (('buf, 'bmp) MutableImage, world) promise" where
  "getScreenshot E cfg saveDebugScreenshots =
     (let hideScrollbars' = (case hideScrollbars cfg of None \<Rightarrow> useCssTransition cfg | Some h \<Rightarrow> h)
      in
     then_p (then_or (external E GetEntireSize (entireSize E) (\<lambda>w. w))
               (\<lambda>pageSize. resolve pageSize)
               (\<lambda>_. resolve (viewportSize cfg))) (\<lambda>entirePageSize.
     then_p (then_or (external E GetDevicePixelRatio (devicePixelRatio E) (\<lambda>w. w))
               (\<lambda>ratio. resolve ratio)
               (\<lambda>_. resolve 1)) (\<lambda>pixelRatio.
     then_p (hideScrollbarsStep E cfg hideScrollbars') (\<lambda>(originalOverflow, originalBodyOverflow).
     then_p (scrollToOriginStep E cfg) (\<lambda>originalPosition.
     then_p (case regionProvider E of
               Some getRegionInLocation \<Rightarrow>
                 then_p (captureViewport E cfg None False) (\<lambda>image'.
                 then_p (external E GetRegionInLocation (getRegionInLocation image') (\<lambda>w. w))
                   (\<lambda>region. resolve (Some region)))
             | None \<Rightarrow> resolve None) (\<lambda>regionInScreenshot.
     then_p (captureViewport E cfg (if checkFrameOrElement cfg then regionInScreenshot else None)
               saveDebugScreenshots) (\<lambda>screenshot.
     then_p (on_image (asObject (imageUtils E) (editingDisabled E)) screenshot) (\<lambda>(imageObject, screenshot).
     then_p (tilingStage E cfg entirePageSize regionInScreenshot saveDebugScreenshots
               screenshot imageObject) (\<lambda>screenshot.
     then_p (if hideScrollbars'
             then then_p (setOverflow E originalOverflow) (\<lambda>_. resolve ())
             else resolve ()) (\<lambda>_.
     then_p (case originalBodyOverflow of
               Some v \<Rightarrow> if v \<noteq> '''' then then_p (setBodyOverflow E (Some v)) (\<lambda>_. resolve ())
                         else resolve ()
             | None \<Rightarrow> resolve ()) (\<lambda>_.
     then_p (if fullPage cfg
             then (case originalPosition of
                     Some state \<Rightarrow> then_p (restoreState E state) (\<lambda>_. resolve ())
                   | None \<Rightarrow> resolve ())
             else resolve ()) (\<lambda>_.
     then_p (if \<not> checkFrameOrElement cfg
             then (case regionInScreenshot of
                     Some region \<Rightarrow>
                       then_p (on_image (cropImage (imageUtils E) (editingDisabled E) region) screenshot)
                         (\<lambda>(_, img'). resolve img')
                   | None \<Rightarrow> resolve screenshot)
             else resolve screenshot) (\<lambda>screenshot.
     resolve screenshot)))))))))))))"

text \<open>
  The capture in three stages.  \<open>captured\<close> holds the local variables of \<open>getScreenshot\<close> that the
  steps after the capture of the viewport read.  \<open>originCapture\<close> is the steps up to and including
  step #5, which captures the viewport (for a full page, scrolled to the origin); it resolves to
  the variables.  \<open>restoreStage\<close> is the steps after the tiling callback: the overflow styles and
  the scroll state are put back and the screenshot is cropped to the region.  Between the two
  runs \<open>tilingStage\<close>; that \<open>getScreenshot\<close> is the three in a row is proved below
  (\<open>getScreenshot_stages\<close>).
\<close>

record ('buf, 'bmp) captured =
  c_entirePageSize :: RectangleSize
  c_originalOverflow :: "string option"
  c_originalBodyOverflow :: "string option"
  c_originalPosition :: "Location option"
  c_regionInScreenshot :: "Region option"
  c_imageObject :: "'buf imageObject"
  c_screenshot :: "('buf, 'bmp) MutableImage"

definition originCapture ::
  "('buf, 'bmp) collaborators \<Rightarrow> config \<Rightarrow> bool \<Rightarrow> (('buf, 'bmp) captured, world) promise" where
  "originCapture E cfg saveDebugScreenshots =
     (let hideScrollbars' = (case hideScrollbars cfg of None \<Rightarrow> useCssTransition cfg | Some h \<Rightarrow> h)
      in
     then_p (then_or (external E GetEntireSize (entireSize E) (\<lambda>w. w))
               (\<lambda>pageSize. resolve pageSize)
               (\<lambda>_. resolve (viewportSize cfg))) (\<lambda>entirePageSize.
     then_p (then_or (external E GetDevicePixelRatio (devicePixelRatio E) (\<lambda>w. w))
               (\<lambda>ratio. resolve ratio)
               (\<lambda>_. resolve 1)) (\<lambda>pixelRatio.
     then_p (hideScrollbarsStep E cfg hideScrollbars') (\<lambda>(originalOverflow, originalBodyOverflow).
     then_p (scrollToOriginStep E cfg) (\<lambda>originalPosition.
     then_p (case regionProvider E of
               Some getRegionInLocation \<Rightarrow>
                 then_p (captureViewport E cfg None False) (\<lambda>image'.
                 then_p (external E GetRegionInLocation (getRegionInLocation image') (\<lambda>w. w))
                   (\<lambda>region. resolve (Some region)))
             | None \<Rightarrow> resolve None) (\<lambda>regionInScreenshot.
     then_p (captureViewport E cfg (if checkFrameOrElement cfg then regionInScreenshot else None)
               saveDebugScreenshots) (\<lambda>screenshot.
     then_p (on_image (asObject (imageUtils E) (editingDisabled E)) screenshot) (\<lambda>(imageObject, screenshot).
     resolve \<lparr>c_entirePageSize = entirePageSize, c_originalOverflow = originalOverflow,
              c_originalBodyOverflow = originalBodyOverflow, c_originalPosition = originalPosition,
              c_regionInScreenshot = regionInScreenshot, c_imageObject = imageObject,
              c_screenshot = screenshot\<rparr>))))))))"

definition restoreStage ::
  "('buf, 'bmp) collaborators \<Rightarrow> config \<Rightarrow> ('buf, 'bmp) captured \<Rightarrow> ('buf, 'bmp) MutableImage \<Rightarrow>
   (('buf, 'bmp) MutableImage, world) promise" where
  "restoreStage E cfg v screenshot =
     (let hideScrollbars' = (case hideScrollbars cfg of None \<Rightarrow> useCssTransition cfg | Some h \<Rightarrow> h)
      in
     then_p (if hideScrollbars'
             then then_p (setOverflow E (c_originalOverflow v)) (\<lambda>_. resolve ())
             else resolve ()) (\<lambda>_.
     then_p (case c_originalBodyOverflow v of
               Some v \<Rightarrow> if v \<noteq> '''' then then_p (setBodyOverflow E (Some v)) (\<lambda>_. resolve ())
                         else resolve ()
             | None \<Rightarrow> resolve ()) (\<lambda>_.
     then_p (if fullPage cfg
             then (case c_originalPosition v of
                     Some state \<Rightarrow> then_p (restoreState E state) (\<lambda>_. resolve ())
                   | None \<Rightarrow> resolve ())
             else resolve ()) (\<lambda>_.
     then_p (if \<not> checkFrameOrElement cfg
             then (case c_regionInScreenshot v of
                     Some region \<Rightarrow>
                       then_p (on_image (cropImage (imageUtils E) (editingDisabled E) region) screenshot)
                         (\<lambda>(_, img'). resolve img')
                   | None \<Rightarrow> resolve screenshot)
             else resolve screenshot) (\<lambda>screenshot.
     resolve screenshot)))))"

subsection \<open>Notions used to state the capture properties\<close>

text \<open>A step keeps an observation \<open>f\<close> of the world when, however it ends, \<open>f\<close> is what it was.\<close>

definition keeps :: "(world \<Rightarrow> 'x) \<Rightarrow> ('a, world) promise \<Rightarrow> bool" where
  "keeps f m \<longleftrightarrow> (\<forall>w. f (snd (m w)) = f w)"

text \<open>The two overflow styles, and the styles together with the offset of the position provider.\<close>

definition styles :: "world \<Rightarrow> string \<times> string" where
  "styles w = (doc_overflow w, body_overflow w)"

definition page_state :: "world \<Rightarrow> string \<times> string \<times> Location" where
  "page_state w = (doc_overflow w, body_overflow w, position w)"

text \<open>The calls that belong to the tiling logic: computing the tiles and stitching them.\<close>

fun is_tiling :: "call \<Rightarrow> bool" where
  "is_tiling (GetSubRegions _ _ _) = True"
| "is_tiling StitchImage = True"
| "is_tiling _ = False"

definition tiling_calls :: "world \<Rightarrow> call list" where
  "tiling_calls w = filter is_tiling (calls w)"

text \<open>
  Whether a capture started in the world \<open>w\<close> changes the overflow of the body.  It does when the
  scrollbars are to be hidden, with CSS transition, and the script \<open>JS_GET_IS_BODY_OVERFLOW_HIDDEN\<close>
  answers that the overflow of the body is hidden; the script is run once the page size and the
  pixel ratio have been asked for and the overflow of the document has been set to \<open>hidden\<close>.
\<close>

definition bodyOverflowChanged :: "('buf, 'bmp) collaborators \<Rightarrow> config \<Rightarrow> world \<Rightarrow> bool" where
  "bodyOverflowChanged E cfg w \<longleftrightarrow>
     (case hideScrollbars cfg of None \<Rightarrow> useCssTransition cfg | Some h \<Rightarrow> h) \<and>
     useCssTransition cfg \<and>
     isBodyOverflowHidden E
       (w\<lparr>doc_overflow := ''hidden'',
          calls := calls w @ [GetEntireSize, GetDevicePixelRatio, SetOverflow (Some ''hidden''), Delay 100]\<rparr>)"

text \<open>
  Collaborators to run a capture on.  An encoded buffer and a bitmap are both given by the size
  of the image they hold.  The page is 1000 by 2000 and the viewport 1000 by 800, so the
  position provider \<open>clamping_provider\<close> cannot scroll further down than 1200; the position
  provider \<open>stuck_provider\<close> cannot scroll further up than 5.
\<close>

definition sized_ImageUtils :: "(int \<times> int, int \<times> int) ImageUtils" where
  "sized_ImageUtils =
     \<lparr>iu_parseImage = (\<lambda>b. case b of Some x \<Rightarrow> Resolved x | None \<Rightarrow> Rejected (Failure ''no buffer'')),
      iu_packImage = (\<lambda>b. case b of Some x \<Rightarrow> Resolved x | None \<Rightarrow> Rejected (Failure ''no bitmap'')),
      iu_scaleImage = (\<lambda>b r. case b of Some x \<Rightarrow> Resolved x | None \<Rightarrow> Rejected (Failure ''no bitmap'')),
      iu_cropImage = (\<lambda>b region. Resolved (r_width region, r_height region)),
      iu_rotateImage = (\<lambda>b d. case b of Some (w, h) \<Rightarrow> Resolved (h, w)
                                | None \<Rightarrow> Rejected (Failure ''no bitmap'')),
      iu_getImageSizeFromBuffer =
        (\<lambda>b. case b of Some (w, h) \<Rightarrow> Inr \<lparr>s_width = w, s_height = h\<rparr>
                      | None \<Rightarrow> Inl (Failure ''no buffer'')),
      iu_saveImage = (\<lambda>_ _. Resolved ()),
      bmp_width = fst, bmp_height = snd\<rparr>"

definition clamping_provider :: "Location \<Rightarrow> world \<Rightarrow> Location" where
  "clamping_provider location w = \<lparr>l_x = 0, l_y = max 0 (min (l_y location) 1200)\<rparr>"

definition stuck_provider :: "Location \<Rightarrow> world \<Rightarrow> Location" where
  "stuck_provider location w = \<lparr>l_x = 0, l_y = max 5 (min (l_y location) 1200)\<rparr>"

definition test_collaborators ::
  "(Location \<Rightarrow> world \<Rightarrow> Location) \<Rightarrow> (int \<times> int, int \<times> int) collaborators" where
  "test_collaborators provider =
     \<lparr>fault = (\<lambda>_ _. None),
      entireSize = (\<lambda>_. \<lparr>s_width = 1000, s_height = 2000\<rparr>),
      devicePixelRatio = (\<lambda>_. 1),
      isBodyOverflowHidden = (\<lambda>_. False),
      achieved = provider,
      screenshotBytes = (\<lambda>_. (1000, 800)),
      cutProvider = None,
      scaleProviderFactory = None,
      regionProvider = None,
      scrollPosition = position,
      scaleRegion = (\<lambda>region _. region),
      geometry_getSubRegions =
        (\<lambda>region sz isFixedSize.
           case getSubRegions region sz isFixedSize of
             Some r \<Rightarrow> r
           | None \<Rightarrow> Inl (Failure ''does not return'')),
      stitchImage = (\<lambda>sz _. (s_width sz, s_height sz)),
      imageUtils = sized_ImageUtils,
      editingDisabled = False\<rparr>"

definition test_config :: config where
  "test_config =
     \<lparr>viewportSize = \<lparr>s_width = 1000, s_height = 800\<rparr>,
      fullPage = True, hideScrollbars = Some True, useCssTransition = False,
      rotationDegrees = 0, automaticRotation = False, automaticRotationDegrees = 0,
      isLandscape = False, waitBeforeScreenshots = 0, checkFrameOrElement = False\<rparr>"

definition test_world :: world where
  "test_world =
     \<lparr>doc_overflow = ''scroll'', body_overflow = ''auto'', position = \<lparr>l_x = 0, l_y = 300\<rparr>, calls = []\<rparr>"

text \<open>
  Variants of these: a page of 1000 by 800, which the viewport shows whole; a page whose body
  hides its overflow through a stylesheet, captured with CSS transition; and a stitcher that
  fails.
\<close>

definition small_page_collaborators :: "(int \<times> int, int \<times> int) collaborators" where
  "small_page_collaborators =
     (test_collaborators clamping_provider)\<lparr>entireSize := (\<lambda>_. \<lparr>s_width = 1000, s_height = 800\<rparr>)\<rparr>"

definition css_collaborators :: "(int \<times> int, int \<times> int) collaborators" where
  "css_collaborators = (test_collaborators clamping_provider)\<lparr>isBodyOverflowHidden := (\<lambda>_. True)\<rparr>"

definition css_config :: config where
  "css_config = test_config\<lparr>useCssTransition := True\<rparr>"

definition unstitched_collaborators :: "(int \<times> int, int \<times> int) collaborators" where
  "unstitched_collaborators =
     (test_collaborators clamping_provider)
       \<lparr>fault := (\<lambda>c _. if c = StitchImage then Some (Failure ''cannot stitch'') else None)\<rparr>"

section \<open>Region tiling: proofs\<close>

subsection \<open>Counting tiles\<close>

lemma tile_count_less_iff:
  assumes "0 < step"
  shows "j < tile_count extent step \<longleftrightarrow> int j * step < extent"
proof -
  have "int j < (extent + step - 1) div step \<longleftrightarrow> int j * step < extent"
  proof
    assume "int j < (extent + step - 1) div step"
    then have "int j + 1 \<le> (extent + step - 1) div step" by simp
    then have "(int j + 1) * step \<le> ((extent + step - 1) div step) * step"
      using assms by (simp add: mult_right_mono)
    also have "\<dots> \<le> extent + step - 1"
      using assms by (metis div_mult_mod_eq le_add_same_cancel1 pos_mod_sign)
    finally show "int j * step < extent" by (simp add: algebra_simps)
  next
    assume "int j * step < extent"
    then have "(int j + 1) * step \<le> extent + step - 1" by (simp add: algebra_simps)
    then have "((int j + 1) * step) div step \<le> (extent + step - 1) div step"
      using assms zdiv_mono1 by blast
    then show "int j < (extent + step - 1) div step" using assms by simp
  qed
  then show ?thesis unfolding tile_count_def by auto
qed

lemma tile_count_step:
  assumes "0 < step" "0 < extent"
  shows "tile_count extent step = Suc (tile_count (extent - step) step)"
proof -
  have "(extent + step - 1) div step = (extent - step + step - 1) div step + 1"
    using assms by (metis add.commute diff_add_cancel div_add_self2 less_irrefl add_diff_eq)
  moreover have "0 \<le> (extent - step + step - 1) div step"
    using assms by (simp add: pos_imp_zdiv_nonneg_iff)
  ultimately show ?thesis unfolding tile_count_def by simp
qed

lemma tile_count_zero: "0 < step \<Longrightarrow> extent \<le> 0 \<Longrightarrow> tile_count extent step = 0"
  using tile_count_less_iff[of step 0 extent] by simp

lemma Region_new_ok:
  "0 \<le> w \<Longrightarrow> 0 \<le> h \<Longrightarrow>
   Region_new l t w h ct = Inr \<lparr>r_left = l, r_top = t, r_width = w, r_height = h, r_coordinatesType = ct\<rparr>"
  by (simp add: Region_new_def greaterThanOrEqualToZero_def)

lemma varying_cols_run:
  assumes "0 < w" "ct \<le> cb"
  shows "tile_count (right - cl) w = n \<Longrightarrow>
         varying_cols w right ct cb cl acc =
           Some (Inr (acc @ map (varying_row_tile w right ct cb cl) [0..<n]))"
proof (induction n arbitrary: cl acc)
  case 0
  then have "\<not> cl < right"
    using tile_count_less_iff[OF assms(1), of 0 "right - cl"] by simp
  then show ?case by (simp add: varying_cols.simps)
next
  case (Suc n)
  then have lt: "cl < right"
    using tile_count_less_iff[OF assms(1), of 0 "right - cl"] by simp
  then have cnt: "tile_count (right - (cl + w)) w = n"
    using tile_count_step[OF assms(1), of "right - cl"] Suc.prems by (simp add: algebra_simps)
  have new: "Region_new cl ct (min w (right - cl)) (cb - ct) SCREENSHOT_AS_IS =
             Inr (varying_row_tile w right ct cb cl 0)"
    using assms lt by (simp add: Region_new_ok varying_row_tile_def)
  have shift: "varying_row_tile w right ct cb (cl + w) j = varying_row_tile w right ct cb cl (Suc j)" for j
    by (simp add: varying_row_tile_def algebra_simps)
  have width: "(if right < cl + w then right else cl + w) - cl = min w (right - cl)"
    by (simp add: min_def)
  have "varying_cols w right ct cb cl acc =
        varying_cols w right ct cb (cl + w) (acc @ [varying_row_tile w right ct cb cl 0])"
    using lt by (subst varying_cols.simps) (simp add: Let_def width new)
  also have "\<dots> = Some (Inr ((acc @ [varying_row_tile w right ct cb cl 0]) @
                      map (varying_row_tile w right ct cb (cl + w)) [0..<n]))"
    by (rule Suc.IH[OF cnt])
  also have "(acc @ [varying_row_tile w right ct cb cl 0]) @
               map (varying_row_tile w right ct cb (cl + w)) [0..<n] =
             acc @ map (varying_row_tile w right ct cb cl) [0..<Suc n]"
    by (simp add: map_upt_Suc shift del: upt_Suc)
  finally show ?case .
qed

lemma varying_rows_run:
  assumes "0 < w" "0 < h"
  shows "tile_count (bottom - ct) h = n \<Longrightarrow>
         varying_rows w h left right bottom ct acc =
           Some (Inr (acc @ concat (map (\<lambda>i. map (varying_row_tile w right (ct + int i * h)
                                   (min (ct + int i * h + h) bottom) left)
                                   [0..<tile_count (right - left) w]) [0..<n])))"
proof (induction n arbitrary: ct acc)
  case 0
  then have "\<not> ct < bottom"
    using tile_count_less_iff[OF assms(2), of 0 "bottom - ct"] by simp
  then show ?case by (simp add: varying_rows.simps)
next
  case (Suc n)
  let ?row = "\<lambda>c i. map (varying_row_tile w right (c + int i * h) (min (c + int i * h + h) bottom) left)
                        [0..<tile_count (right - left) w]"
  from Suc.prems have lt: "ct < bottom"
    using tile_count_less_iff[OF assms(2), of 0 "bottom - ct"] by simp
  then have cnt: "tile_count (bottom - (ct + h)) h = n"
    using tile_count_step[OF assms(2), of "bottom - ct"] Suc.prems by (simp add: algebra_simps)
  have cb: "(if bottom < ct + h then bottom else ct + h) = min (ct + h) bottom"
    by (simp add: min_def)
  have le: "ct \<le> min (ct + h) bottom" using lt assms by simp
  have cols: "varying_cols w right ct (min (ct + h) bottom) left acc = Some (Inr (acc @ ?row ct 0))"
    using varying_cols_run[OF assms(1) le refl, of right left acc] by simp
  have shift: "?row (ct + h) i = ?row ct (Suc i)" for i
    by (simp add: algebra_simps)
  have "varying_rows w h left right bottom ct acc =
        varying_rows w h left right bottom (ct + h) (acc @ ?row ct 0)"
    using lt by (subst varying_rows.simps) (simp add: Let_def cb cols)
  also have "\<dots> = Some (Inr ((acc @ ?row ct 0) @ concat (map (?row (ct + h)) [0..<n])))"
    by (rule Suc.IH[OF cnt])
  also have "(acc @ ?row ct 0) @ concat (map (?row (ct + h)) [0..<n]) =
             acc @ concat (map (?row ct) [0..<Suc n])"
    by (simp only: map_upt_Suc shift concat.simps append_assoc)
  finally show ?case .
qed

lemma varying_row_tile_grid:
  "varying_row_tile (s_width S) (r_left R + r_width R) (r_top R + int i * s_height S)
     (min (r_top R + int i * s_height S + s_height S) (r_top R + r_height R)) (r_left R) =
   varying_tile R S i"
  by (rule ext) (simp add: varying_row_tile_def varying_tile_def min_def)

lemma getSubRegionsWithVaryingSize_grid:
  assumes "0 < s_width S" "0 < s_height S"
  shows "getSubRegionsWithVaryingSize R S = Some (Inr (varying_grid R S))"
  using assms
  by (simp add: getSubRegionsWithVaryingSize_def greaterThanZero_def Let_def
      varying_rows_run[OF assms refl] varying_row_tile_grid varying_grid_def)

lemma sorted_wrt_map_upt:
  "(\<And>j j'. j < j' \<Longrightarrow> j' < m \<Longrightarrow> P (g j) (g j')) \<Longrightarrow> sorted_wrt P (map g [0..<m])"
  by (simp add: sorted_wrt_map sorted_wrt_iff_nth_less)

lemma sorted_wrt_concat_map_upt:
  assumes "\<And>i. i < n \<Longrightarrow> sorted_wrt P (f i)"
    and "\<And>i i' x y. i < i' \<Longrightarrow> i' < n \<Longrightarrow> x \<in> set (f i) \<Longrightarrow> y \<in> set (f i') \<Longrightarrow> P x y"
  shows "sorted_wrt P (concat (map f [0..<n]))"
  using assms
proof (induction n)
  case 0
  then show ?case by simp
next
  case (Suc n)
  have "sorted_wrt P (concat (map f [0..<n]))"
    by (rule Suc.IH) (auto intro: Suc.prems)
  moreover have "sorted_wrt P (f n)" by (simp add: Suc.prems)
  moreover have "\<forall>x\<in>set (concat (map f [0..<n])). \<forall>y\<in>set (f n). P x y"
    using Suc.prems(2) by auto
  ultimately show ?case by (simp add: sorted_wrt_append)
qed

lemma step_mono:
  assumes "0 < (w::int)" "j < j'"
  shows "int j * w + w \<le> int j' * w"
proof -
  have "int j + 1 \<le> int j'" using assms(2) by simp
  then have "(int j + 1) * w \<le> int j' * w" using assms(1) by (simp add: mult_right_mono)
  then show ?thesis by (simp add: algebra_simps)
qed

lemma div_cell:
  assumes "0 < (w::int)" "0 \<le> d"
  shows "int (nat (d div w)) * w \<le> d \<and> d < int (nat (d div w)) * w + w"
proof -
  have q: "0 \<le> d div w" using assms by (simp add: pos_imp_zdiv_nonneg_iff)
  have "d = (d div w) * w + d mod w" by simp
  moreover have "0 \<le> d mod w" "d mod w < w" using assms by simp_all
  ultimately have "(d div w) * w \<le> d \<and> d < (d div w) * w + w" by linarith
  then show ?thesis using q by simp
qed

lemma varying_grid_mem:
  "t \<in> set (varying_grid R S) \<longleftrightarrow>
     (\<exists>i j. i < tile_count (r_height R) (s_height S) \<and> j < tile_count (r_width R) (s_width S) \<and>
            t = varying_tile R S i j)"
  by (force simp: varying_grid_def)

lemma varying_grid_covers:
  assumes w: "0 < s_width S" and h: "0 < s_height S"
  shows "covers R x y \<longleftrightarrow> (\<exists>t\<in>set (varying_grid R S). covers t x y)"
proof
  assume c: "covers R x y"
  define j where "j = nat ((x - r_left R) div s_width S)"
  define i where "i = nat ((y - r_top R) div s_height S)"
  have dx: "0 \<le> x - r_left R" and dy: "0 \<le> y - r_top R"
    using c by (simp_all add: covers_def)
  have cx: "int j * s_width S \<le> x - r_left R \<and> x - r_left R < int j * s_width S + s_width S"
    unfolding j_def by (rule div_cell[OF w dx])
  have cy: "int i * s_height S \<le> y - r_top R \<and> y - r_top R < int i * s_height S + s_height S"
    unfolding i_def by (rule div_cell[OF h dy])
  have "int j * s_width S < r_width R" "int i * s_height S < r_height R"
    using c cx cy by (simp_all add: covers_def)
  then have "j < tile_count (r_width R) (s_width S)" "i < tile_count (r_height R) (s_height S)"
    by (simp_all add: tile_count_less_iff w h)
  then have "varying_tile R S i j \<in> set (varying_grid R S)"
    unfolding varying_grid_mem by blast
  moreover have "covers (varying_tile R S i j) x y"
    using c cx cy by (auto simp: covers_def varying_tile_def min_def)
  ultimately show "\<exists>t\<in>set (varying_grid R S). covers t x y" by blast
next
  assume "\<exists>t\<in>set (varying_grid R S). covers t x y"
  then obtain i j where "covers (varying_tile R S i j) x y"
    by (auto simp: varying_grid_mem)
  moreover have "0 \<le> int j * s_width S" "0 \<le> int i * s_height S"
    using w h by simp_all
  ultimately show "covers R x y"
    by (auto simp: covers_def varying_tile_def min_def split: if_splits)
qed

lemma varying_grid_sizes:
  assumes w: "0 < s_width S" and h: "0 < s_height S" and t: "t \<in> set (varying_grid R S)"
  shows "0 < r_width t \<and> r_width t \<le> s_width S \<and> 0 < r_height t \<and> r_height t \<le> s_height S \<and>
         (r_width t < s_width S \<longrightarrow> r_left t + r_width t = r_left R + r_width R) \<and>
         (r_height t < s_height S \<longrightarrow> r_top t + r_height t = r_top R + r_height R)"
proof -
  from t obtain i j where i: "i < tile_count (r_height R) (s_height S)"
    and j: "j < tile_count (r_width R) (s_width S)" and eq: "t = varying_tile R S i j"
    unfolding varying_grid_mem by blast
  have "int j * s_width S < r_width R" "int i * s_height S < r_height R"
    using i j by (simp_all add: tile_count_less_iff w h)
  then show ?thesis using w h unfolding eq by (simp add: varying_tile_def min_def)
qed

lemma varying_grid_sorted:
  assumes w: "0 < s_width S" and h: "0 < s_height S"
  shows "sorted_wrt (\<lambda>a b. row_major_before a b \<and> (\<forall>x y. \<not> (covers a x y \<and> covers b x y)))
           (varying_grid R S)"
  unfolding varying_grid_def
proof (rule sorted_wrt_concat_map_upt)
  fix i
  show "sorted_wrt (\<lambda>a b. row_major_before a b \<and> (\<forall>x y. \<not> (covers a x y \<and> covers b x y)))
          (map (varying_tile R S i) [0..<tile_count (r_width R) (s_width S)])"
  proof (rule sorted_wrt_map_upt)
    fix j j' :: nat
    assume "j < j'"
    with step_mono[OF w this]
    show "row_major_before (varying_tile R S i j) (varying_tile R S i j') \<and>
          (\<forall>x y. \<not> (covers (varying_tile R S i j) x y \<and> covers (varying_tile R S i j') x y))"
      using w by (auto simp: row_major_before_def covers_def varying_tile_def)
  qed
next
  fix i i' :: nat and a b
  assume "i < i'"
    and "a \<in> set (map (varying_tile R S i) [0..<tile_count (r_width R) (s_width S)])"
    and "b \<in> set (map (varying_tile R S i') [0..<tile_count (r_width R) (s_width S)])"
  then obtain j j' where a: "a = varying_tile R S i j" and b: "b = varying_tile R S i' j'"
    by auto
  from step_mono[OF h \<open>i < i'\<close>] \<open>i < i'\<close>
  show "row_major_before a b \<and> (\<forall>x y. \<not> (covers a x y \<and> covers b x y))"
    using h unfolding a b by (auto simp: row_major_before_def covers_def varying_tile_def)
qed

subsection \<open>Claim C1: varying-size tiling partitions the container\<close>

text \<open>
  C1.  For every container region \<open>R\<close> and every tile size \<open>S\<close> with positive width and height,
  \<open>getSubRegions\<close> with \<open>isFixedSize = false\<close> returns, without raising and after finitely many
  steps, the tiles of the grid \<open>varying_grid R S\<close>: they come in row-major order (left to right,
  top to bottom), every pixel of \<open>R\<close> lies in some tile and every pixel of a tile lies in \<open>R\<close>
  (the union of the tiles is exactly \<open>R\<close>), no pixel lies in two tiles (pairwise intersections
  are empty), every tile is non-degenerate and at most as large as \<open>S\<close>, and a tile narrower than
  \<open>S\<close> ends on the right edge of \<open>R\<close> (last column), a tile lower than \<open>S\<close> on its bottom edge
  (last row).  This holds in particular for a non-degenerate \<open>R\<close> with \<open>S \<le> R\<close> in both
  dimensions.
\<close>

theorem C1_varying_tiling_partitions_region:
  assumes "0 < s_width S" and "0 < s_height S"
  shows "\<exists>tiles. getSubRegions R S False = Some (Inr tiles) \<and>
           tiles = varying_grid R S \<and>
           (\<forall>a b. a < b \<longrightarrow> b < length tiles \<longrightarrow> row_major_before (tiles ! a) (tiles ! b)) \<and>
           (\<forall>x y. covers R x y \<longleftrightarrow> (\<exists>t\<in>set tiles. covers t x y)) \<and>
           (\<forall>a b x y. a < b \<longrightarrow> b < length tiles \<longrightarrow>
                      \<not> (covers (tiles ! a) x y \<and> covers (tiles ! b) x y)) \<and>
           (\<forall>t\<in>set tiles.
              0 < r_width t \<and> r_width t \<le> s_width S \<and> 0 < r_height t \<and> r_height t \<le> s_height S \<and>
              (r_width t < s_width S \<longrightarrow> r_left t + r_width t = r_left R + r_width R) \<and>
              (r_height t < s_height S \<longrightarrow> r_top t + r_height t = r_top R + r_height R))"
proof -
  have run: "getSubRegions R S False = Some (Inr (varying_grid R S))"
    by (simp add: getSubRegions_def getSubRegionsWithVaryingSize_grid[OF assms])
  have ord: "\<forall>a b. a < b \<longrightarrow> b < length (varying_grid R S) \<longrightarrow>
               row_major_before (varying_grid R S ! a) (varying_grid R S ! b) \<and>
               (\<forall>x y. \<not> (covers (varying_grid R S ! a) x y \<and> covers (varying_grid R S ! b) x y))"
    using varying_grid_sorted[OF assms, of R] by (simp add: sorted_wrt_iff_nth_less)
  show ?thesis
    using run ord varying_grid_covers[OF assms, of R] varying_grid_sizes[OF assms, of _ R]
    by blast
qed

theorem C1_varying_tiling_partitions_region_witness:
  "0 < s_width \<lparr>s_width = 2, s_height = 2\<rparr> \<and> 0 < s_height \<lparr>s_width = 2, s_height = 2\<rparr> \<and>
   getSubRegions \<lparr>r_left = 0, r_top = 0, r_width = 5, r_height = 3, r_coordinatesType = SCREENSHOT_AS_IS\<rparr>
     \<lparr>s_width = 2, s_height = 2\<rparr> False =
   Some (Inr [\<lparr>r_left = 0, r_top = 0, r_width = 2, r_height = 2, r_coordinatesType = SCREENSHOT_AS_IS\<rparr>,
              \<lparr>r_left = 2, r_top = 0, r_width = 2, r_height = 2, r_coordinatesType = SCREENSHOT_AS_IS\<rparr>,
              \<lparr>r_left = 4, r_top = 0, r_width = 1, r_height = 2, r_coordinatesType = SCREENSHOT_AS_IS\<rparr>,
              \<lparr>r_left = 0, r_top = 2, r_width = 2, r_height = 1, r_coordinatesType = SCREENSHOT_AS_IS\<rparr>,
              \<lparr>r_left = 2, r_top = 2, r_width = 2, r_height = 1, r_coordinatesType = SCREENSHOT_AS_IS\<rparr>,
              \<lparr>r_left = 4, r_top = 2, r_width = 1, r_height = 1, r_coordinatesType = SCREENSHOT_AS_IS\<rparr>])"
proof -
  let ?S = "\<lparr>s_width = 2, s_height = 2\<rparr>"
  let ?R = "\<lparr>r_left = 0, r_top = 0, r_width = 5, r_height = 3, r_coordinatesType = SCREENSHOT_AS_IS\<rparr>"
  have w: "0 < s_width ?S" and h: "0 < s_height ?S" by simp_all
  from C1_varying_tiling_partitions_region[OF w h, of ?R]
  obtain tiles where "getSubRegions ?R ?S False = Some (Inr tiles)" and "tiles = varying_grid ?R ?S"
    by (elim exE conjE)
  moreover have "varying_grid ?R ?S =
      [\<lparr>r_left = 0, r_top = 0, r_width = 2, r_height = 2, r_coordinatesType = SCREENSHOT_AS_IS\<rparr>,
       \<lparr>r_left = 2, r_top = 0, r_width = 2, r_height = 2, r_coordinatesType = SCREENSHOT_AS_IS\<rparr>,
       \<lparr>r_left = 4, r_top = 0, r_width = 1, r_height = 2, r_coordinatesType = SCREENSHOT_AS_IS\<rparr>,
       \<lparr>r_left = 0, r_top = 2, r_width = 2, r_height = 1, r_coordinatesType = SCREENSHOT_AS_IS\<rparr>,
       \<lparr>r_left = 2, r_top = 2, r_width = 2, r_height = 1, r_coordinatesType = SCREENSHOT_AS_IS\<rparr>,
       \<lparr>r_left = 4, r_top = 2, r_width = 1, r_height = 1, r_coordinatesType = SCREENSHOT_AS_IS\<rparr>]"
    by (simp add: varying_grid_def tile_count_def varying_tile_def upt_rec)
  ultimately show ?thesis by simp
qed

subsection \<open>Fixed-size tiling: what the loops compute\<close>

lemma fixed_cols_done: "right < cl \<Longrightarrow> fixed_cols w h right ct cl acc = Some (Inr acc)"
  by (simp add: fixed_cols.simps)

lemma fixed_cols_run:
  assumes "0 < w" "0 \<le> h"
  shows "tile_count (right + 1 - cl) w = n \<Longrightarrow>
         fixed_cols w h right ct cl acc =
           Some (Inr (acc @ map (fixed_row_tile w h right ct cl) [0..<n]))"
proof (induction n arbitrary: cl acc)
  case 0
  then have "\<not> cl \<le> right"
    using tile_count_less_iff[OF assms(1), of 0 "right + 1 - cl"] by simp
  then show ?case by (simp add: fixed_cols.simps)
next
  case (Suc n)
  then have le: "cl \<le> right"
    using tile_count_less_iff[OF assms(1), of 0 "right + 1 - cl"] by simp
  have cnt: "tile_count (right + 1 - (cl + w)) w = n"
    using tile_count_step[OF assms(1), of "right + 1 - cl"] Suc.prems le by (simp add: algebra_simps)
  show ?case
  proof (cases "right < cl + w")
    case True
    then have n0: "n = 0" using cnt tile_count_zero[OF assms(1), of "right + 1 - (cl + w)"] by simp
    have new: "Region_new (right - w + 1) ct w h SCREENSHOT_AS_IS =
               Inr (fixed_row_tile w h right ct cl 0)"
      using assms True by (simp add: Region_new_ok fixed_row_tile_def min_def)
    have "fixed_cols w h right ct cl acc =
          fixed_cols w h right ct (right - w + 1 + w) (acc @ [fixed_row_tile w h right ct cl 0])"
      using le True by (subst fixed_cols.simps) (simp add: Let_def new)
    also have "\<dots> = Some (Inr (acc @ [fixed_row_tile w h right ct cl 0]))"
      by (rule fixed_cols_done) simp
    finally show ?thesis by (simp add: n0)
  next
    case False
    have new: "Region_new cl ct w h SCREENSHOT_AS_IS = Inr (fixed_row_tile w h right ct cl 0)"
      using assms False by (simp add: Region_new_ok fixed_row_tile_def min_def)
    have shift: "fixed_row_tile w h right ct (cl + w) j = fixed_row_tile w h right ct cl (Suc j)" for j
      by (simp add: fixed_row_tile_def algebra_simps)
    have "fixed_cols w h right ct cl acc =
          fixed_cols w h right ct (cl + w) (acc @ [fixed_row_tile w h right ct cl 0])"
      using le False by (subst fixed_cols.simps) (simp add: Let_def new)
    also have "\<dots> = Some (Inr ((acc @ [fixed_row_tile w h right ct cl 0]) @
                        map (fixed_row_tile w h right ct (cl + w)) [0..<n]))"
      by (rule Suc.IH[OF cnt])
    also have "(acc @ [fixed_row_tile w h right ct cl 0]) @
                 map (fixed_row_tile w h right ct (cl + w)) [0..<n] =
               acc @ map (fixed_row_tile w h right ct cl) [0..<Suc n]"
      by (simp add: map_upt_Suc shift del: upt_Suc)
    finally show ?thesis .
  qed
qed

lemma fixed_cols_total:
  assumes "0 \<le> h" "0 < w \<or> right < cl"
  shows "fixed_cols w h right ct cl acc =
           Some (Inr (acc @ map (fixed_row_tile w h right ct cl)
                             [0..<(if right < cl then 0 else tile_count (right + 1 - cl) w)]))"
proof (cases "right < cl")
  case True
  then show ?thesis by (simp add: fixed_cols_done)
next
  case False
  then show ?thesis using assms fixed_cols_run[where w=w and h=h and right=right and cl=cl and ct=ct and acc=acc, OF _ assms(1) refl]
    by simp
qed

lemma fixed_rows_done: "bottom < ct \<Longrightarrow> fixed_rows w h left right bottom ct acc = Some (Inr acc)"
  by (simp add: fixed_rows.simps)

lemma fixed_rows_run:
  assumes "0 < h" "0 < w \<or> right < left"
  shows "tile_count (bottom + 1 - ct) h = n \<Longrightarrow>
         fixed_rows w h left right bottom ct acc =
           Some (Inr (acc @ concat (map (\<lambda>i. map (fixed_row_tile w h right
                                   (min (ct + int i * h) (bottom - h + 1)) left)
                                   [0..<(if right < left then 0 else tile_count (right + 1 - left) w)])
                               [0..<n])))"
proof (induction n arbitrary: ct acc)
  case 0
  then have "\<not> ct \<le> bottom"
    using tile_count_less_iff[OF assms(1), of 0 "bottom + 1 - ct"] by simp
  then show ?case by (simp add: fixed_rows.simps)
next
  case (Suc n)
  let ?nc = "if right < left then 0 else tile_count (right + 1 - left) w"
  let ?row = "\<lambda>c i. map (fixed_row_tile w h right (min (c + int i * h) (bottom - h + 1)) left) [0..<?nc]"
  from Suc.prems have le: "ct \<le> bottom"
    using tile_count_less_iff[OF assms(1), of 0 "bottom + 1 - ct"] by simp
  have cnt: "tile_count (bottom + 1 - (ct + h)) h = n"
    using tile_count_step[OF assms(1), of "bottom + 1 - ct"] Suc.prems le by (simp add: algebra_simps)
  have h0: "0 \<le> h" using assms by simp
  show ?case
  proof (cases "bottom < ct + h")
    case True
    then have n0: "n = 0" using cnt tile_count_zero[OF assms(1), of "bottom + 1 - (ct + h)"] by simp
    have top: "min (ct + int 0 * h) (bottom - h + 1) = bottom - h + 1" using True by simp
    have cols: "fixed_cols w h right (bottom - h + 1) left acc = Some (Inr (acc @ ?row ct 0))"
      unfolding top by (rule fixed_cols_total[OF h0 assms(2)])
    have "fixed_rows w h left right bottom ct acc =
          fixed_rows w h left right bottom (bottom - h + 1 + h) (acc @ ?row ct 0)"
      using le True by (subst fixed_rows.simps) (simp add: Let_def cols)
    also have "\<dots> = Some (Inr (acc @ ?row ct 0))"
      by (rule fixed_rows_done) simp
    finally show ?thesis by (simp add: n0)
  next
    case False
    have top: "min (ct + int 0 * h) (bottom - h + 1) = ct" using False by simp
    have cols: "fixed_cols w h right ct left acc = Some (Inr (acc @ ?row ct 0))"
      unfolding top by (rule fixed_cols_total[OF h0 assms(2)])
    have shift: "?row (ct + h) i = ?row ct (Suc i)" for i
      by (simp add: algebra_simps)
    have "fixed_rows w h left right bottom ct acc =
          fixed_rows w h left right bottom (ct + h) (acc @ ?row ct 0)"
      using le False by (subst fixed_rows.simps) (simp add: Let_def cols)
    also have "\<dots> = Some (Inr ((acc @ ?row ct 0) @ concat (map (?row (ct + h)) [0..<n])))"
      by (rule Suc.IH[OF cnt])
    also have "(acc @ ?row ct 0) @ concat (map (?row (ct + h)) [0..<n]) =
               acc @ concat (map (?row ct) [0..<Suc n])"
      by (simp only: map_upt_Suc shift concat.simps append_assoc)
    finally show ?thesis .
  qed
qed

lemma tile_count_degenerate: "tile_count 0 0 = 0"
  by (simp add: tile_count_def)

lemma fixed_row_tile_grid:
  "fixed_row_tile (min (s_width S) (r_width R)) (min (s_height S) (r_height R))
     (r_left R + r_width R - 1)
     (min (r_top R + int i * min (s_height S) (r_height R))
          (r_top R + r_height R - 1 - min (s_height S) (r_height R) + 1)) (r_left R) =
   fixed_tile R S i"
  by (rule ext) (simp add: fixed_row_tile_def fixed_tile_def Let_def algebra_simps)

lemma getSubRegionsWithFixedSize_single:
  assumes "0 < s_width S" "0 < s_height S" "0 \<le> r_width R" "0 \<le> r_height R"
    and "r_width R \<le> s_width S" "r_height R \<le> s_height S"
  shows "getSubRegionsWithFixedSize R S = Some (Inr [R])"
  using assms
  by (simp add: getSubRegionsWithFixedSize_def greaterThanZero_def Let_def fromRegion_def Region_new_ok)

lemma getSubRegionsWithFixedSize_grid:
  assumes "0 < s_width S" "0 < s_height S" "0 \<le> r_width R" "0 \<le> r_height R"
    and "\<not> (r_width R \<le> s_width S \<and> r_height R \<le> s_height S)"
  shows "getSubRegionsWithFixedSize R S = Some (Inr (fixed_grid R S))"
proof -
  let ?w = "min (s_width S) (r_width R)" and ?h = "min (s_height S) (r_height R)"
  have norm: "(if r_width R < s_width S then r_width R else s_width S) = ?w"
       "(if r_height R < s_height S then r_height R else s_height S) = ?h"
    by (simp_all add: min_def)
  have ne: "\<not> (?w = r_width R \<and> ?h = r_height R)"
    using assms(5) by (auto simp: min_def)
  have start: "getSubRegionsWithFixedSize R S =
        fixed_rows ?w ?h (r_left R) (r_left R + r_width R - 1) (r_top R + r_height R - 1) (r_top R) []"
    using assms(1,2) ne by (auto simp add: getSubRegionsWithFixedSize_def greaterThanZero_def Let_def norm)
  show ?thesis
  proof (cases "r_height R = 0")
    case True
    then have "fixed_grid R S = []"
      using assms(2) by (simp add: fixed_grid_def tile_count_degenerate)
    moreover have "fixed_rows ?w ?h (r_left R) (r_left R + r_width R - 1) (r_top R + r_height R - 1) (r_top R) []
                   = Some (Inr [])"
      using True by (intro fixed_rows_done) simp
    ultimately show ?thesis using start by simp
  next
    case False
    then have h: "0 < ?h" using assms by simp
    have w: "0 < ?w \<or> r_left R + r_width R - 1 < r_left R" using assms by (auto simp: min_def)
    have nc: "(if r_left R + r_width R - 1 < r_left R then 0
               else tile_count (r_left R + r_width R - 1 + 1 - r_left R) ?w) = tile_count (r_width R) ?w"
      using assms(1,3) by (cases "r_width R = 0") (auto simp: tile_count_degenerate min_def)
    have nr: "tile_count (r_top R + r_height R - 1 + 1 - r_top R) ?h = tile_count (r_height R) ?h"
      by simp
    show ?thesis
      unfolding start fixed_rows_run[OF h w nr] nc fixed_row_tile_grid fixed_grid_def Let_def
      by simp
  qed
qed

lemma fixed_grid_mem:
  "t \<in> set (fixed_grid R S) \<longleftrightarrow>
     (\<exists>i j. i < tile_count (r_height R) (min (s_height S) (r_height R)) \<and>
            j < tile_count (r_width R) (min (s_width S) (r_width R)) \<and>
            t = fixed_tile R S i j)"
  by (force simp: fixed_grid_def Let_def)

lemma cell_in_fixed:
  assumes "0 < (w::int)" "w \<le> W" "jw \<le> d" "d < jw + w" "d < W"
  shows "l + min jw (W - w) \<le> l + d \<and> l + d < l + min jw (W - w) + w"
  using assms by (auto simp: min_def)

lemma fixed_in_extent:
  assumes "0 < (w::int)" "w \<le> W" "0 \<le> jw" "l + min jw (W - w) \<le> x" "x < l + min jw (W - w) + w"
  shows "l \<le> x \<and> x < l + W"
  using assms by (auto simp: min_def split: if_splits)

lemma fixed_tile_simps:
  "r_left (fixed_tile R S i j) =
     r_left R + min (int j * min (s_width S) (r_width R)) (r_width R - min (s_width S) (r_width R))"
  "r_top (fixed_tile R S i j) =
     r_top R + min (int i * min (s_height S) (r_height R)) (r_height R - min (s_height S) (r_height R))"
  "r_width (fixed_tile R S i j) = min (s_width S) (r_width R)"
  "r_height (fixed_tile R S i j) = min (s_height S) (r_height R)"
  by (simp_all add: fixed_tile_def Let_def min_add_distrib_right[symmetric] algebra_simps)

lemma fixed_grid_covers:
  assumes w: "0 < s_width S" and h: "0 < s_height S"
  shows "covers R x y \<longleftrightarrow> (\<exists>t\<in>set (fixed_grid R S). covers t x y)"
proof
  define w' where "w' = min (s_width S) (r_width R)"
  define h' where "h' = min (s_height S) (r_height R)"
  assume c: "covers R x y"
  then have pw: "0 < w'" and ph: "0 < h'" using w h by (auto simp: covers_def w'_def h'_def)
  have lw: "w' \<le> r_width R" and lh: "h' \<le> r_height R" by (simp_all add: w'_def h'_def)
  define j where "j = nat ((x - r_left R) div w')"
  define i where "i = nat ((y - r_top R) div h')"
  have dx: "0 \<le> x - r_left R" and dy: "0 \<le> y - r_top R"
    using c by (simp_all add: covers_def)
  have cx: "int j * w' \<le> x - r_left R \<and> x - r_left R < int j * w' + w'"
    unfolding j_def by (rule div_cell[OF pw dx])
  have cy: "int i * h' \<le> y - r_top R \<and> y - r_top R < int i * h' + h'"
    unfolding i_def by (rule div_cell[OF ph dy])
  have ex: "x - r_left R < r_width R" and ey: "y - r_top R < r_height R"
    using c by (simp_all add: covers_def)
  have "int j * w' < r_width R" "int i * h' < r_height R"
    using ex ey cx cy by simp_all
  then have "j < tile_count (r_width R) w'" "i < tile_count (r_height R) h'"
    using pw ph by (simp_all add: tile_count_less_iff)
  then have "fixed_tile R S i j \<in> set (fixed_grid R S)"
    unfolding fixed_grid_mem w'_def h'_def by blast
  moreover have "covers (fixed_tile R S i j) x y"
    using cell_in_fixed[OF pw lw conjunct1[OF cx] conjunct2[OF cx] ex, of "r_left R"]
          cell_in_fixed[OF ph lh conjunct1[OF cy] conjunct2[OF cy] ey, of "r_top R"]
    by (simp add: covers_def fixed_tile_simps w'_def[symmetric] h'_def[symmetric])
  ultimately show "\<exists>t\<in>set (fixed_grid R S). covers t x y" by blast
next
  define w' where "w' = min (s_width S) (r_width R)"
  define h' where "h' = min (s_height S) (r_height R)"
  assume "\<exists>t\<in>set (fixed_grid R S). covers t x y"
  then obtain i j where c: "covers (fixed_tile R S i j) x y"
    by (auto simp: fixed_grid_mem)
  then have c': "r_left R + min (int j * w') (r_width R - w') \<le> x"
       "x < r_left R + min (int j * w') (r_width R - w') + w'"
       "r_top R + min (int i * h') (r_height R - h') \<le> y"
       "y < r_top R + min (int i * h') (r_height R - h') + h'"
    by (simp_all add: covers_def fixed_tile_simps w'_def h'_def)
  then have pw: "0 < w'" and ph: "0 < h'" by linarith+
  have lw: "w' \<le> r_width R" and lh: "h' \<le> r_height R" by (simp_all add: w'_def h'_def)
  have "0 \<le> int j * w'" "0 \<le> int i * h'" using pw ph by simp_all
  from fixed_in_extent[OF pw lw this(1) c'(1,2)] fixed_in_extent[OF ph lh this(2) c'(3,4)]
  show "covers R x y" by (simp add: covers_def)
qed

lemma fixed_offset_mono:
  assumes "0 < (w::int)" "j < j'" "int j' * w < W"
  shows "min (int j * w) (W - w) < min (int j' * w) (W - w)"
  using step_mono[OF assms(1,2)] assms by (simp add: min_def)

lemma fixed_count_pos:
  assumes "0 < s" "0 \<le> W" "j < tile_count W (min s W)"
  shows "0 < min s W \<and> int j * min s W < W"
proof -
  have "W \<noteq> 0" using assms by (auto simp: tile_count_degenerate min_def)
  then have "0 < min s W" using assms(1,2) by simp
  then show ?thesis using assms(3) by (simp add: tile_count_less_iff)
qed

lemma fixed_tile_before_col:
  assumes "0 < s_width S" "0 \<le> r_width R" "j < j'"
    and "j' < tile_count (r_width R) (min (s_width S) (r_width R))"
  shows "row_major_before (fixed_tile R S i j) (fixed_tile R S i j')"
proof -
  define w' where "w' = min (s_width S) (r_width R)"
  have "0 < w' \<and> int j' * w' < r_width R"
    unfolding w'_def by (rule fixed_count_pos[OF assms(1,2,4)])
  then have "min (int j * w') (r_width R - w') < min (int j' * w') (r_width R - w')"
    using fixed_offset_mono[OF _ assms(3)] by blast
  then show ?thesis
    unfolding row_major_before_def fixed_tile_simps w'_def by linarith
qed

lemma fixed_tile_before_row:
  assumes "0 < s_height S" "0 \<le> r_height R" "i < i'"
    and "i' < tile_count (r_height R) (min (s_height S) (r_height R))"
  shows "row_major_before (fixed_tile R S i j) (fixed_tile R S i' j')"
proof -
  define h' where "h' = min (s_height S) (r_height R)"
  have "0 < h' \<and> int i' * h' < r_height R"
    unfolding h'_def by (rule fixed_count_pos[OF assms(1,2,4)])
  then have "min (int i * h') (r_height R - h') < min (int i' * h') (r_height R - h')"
    using fixed_offset_mono[OF _ assms(3)] by blast
  then show ?thesis
    unfolding row_major_before_def fixed_tile_simps h'_def by linarith
qed

lemma fixed_grid_sorted:
  assumes "0 < s_width S" "0 < s_height S" "0 \<le> r_width R" "0 \<le> r_height R"
  shows "sorted_wrt row_major_before (fixed_grid R S)"
  unfolding fixed_grid_def Let_def
proof (rule sorted_wrt_concat_map_upt)
  fix i
  show "sorted_wrt row_major_before
          (map (fixed_tile R S i) [0..<tile_count (r_width R) (min (s_width S) (r_width R))])"
    by (rule sorted_wrt_map_upt) (rule fixed_tile_before_col[OF assms(1,3)])
next
  fix i i' :: nat and a b
  assume "i < i'" and i': "i' < tile_count (r_height R) (min (s_height S) (r_height R))"
    and "a \<in> set (map (fixed_tile R S i) [0..<tile_count (r_width R) (min (s_width S) (r_width R))])"
    and "b \<in> set (map (fixed_tile R S i') [0..<tile_count (r_width R) (min (s_width S) (r_width R))])"
  then obtain j j' where a: "a = fixed_tile R S i j" and b: "b = fixed_tile R S i' j'"
    by auto
  show "row_major_before a b"
    unfolding a b by (rule fixed_tile_before_row[OF assms(2,4) \<open>i < i'\<close> i'])
qed

lemma fixed_grid_sizes:
  "t \<in> set (fixed_grid R S) \<Longrightarrow>
   r_width t = min (s_width S) (r_width R) \<and> r_height t = min (s_height S) (r_height R)"
  by (auto simp: fixed_grid_mem fixed_tile_simps)

subsection \<open>Claim C2: fixed-size tiling\<close>

text \<open>
  The claim as stated fails: a requested tile size that exceeds the container in one dimension is
  first cut down to the container ("Normalizing"), so the tiles do not have the requested size.
  A 10 by 10 container tiled with 20 by 5 tiles gives two tiles of size 10 by 5.
\<close>

theorem C2_fixed_tiling_exact_size_counterexample:
  "getSubRegions \<lparr>r_left = 0, r_top = 0, r_width = 10, r_height = 10, r_coordinatesType = SCREENSHOT_AS_IS\<rparr>
     \<lparr>s_width = 20, s_height = 5\<rparr> True =
   Some (Inr [\<lparr>r_left = 0, r_top = 0, r_width = 10, r_height = 5, r_coordinatesType = SCREENSHOT_AS_IS\<rparr>,
              \<lparr>r_left = 0, r_top = 5, r_width = 10, r_height = 5, r_coordinatesType = SCREENSHOT_AS_IS\<rparr>]) \<and>
   r_width \<lparr>r_left = 0, r_top = 0, r_width = 10, r_height = 5, r_coordinatesType = SCREENSHOT_AS_IS\<rparr> \<noteq> s_width \<lparr>s_width = 20, s_height = 5\<rparr>"
  by (simp add: getSubRegions_def getSubRegionsWithFixedSize_def greaterThanZero_def Let_def
      fixed_rows.simps fixed_cols.simps Region_new_def greaterThanOrEqualToZero_def)

text \<open>
  C2, amended.  For every well-formed container region \<open>R\<close> (width and height not negative) and
  every tile size \<open>S\<close> with positive width and height, \<open>getSubRegions\<close> with
  \<open>isFixedSize = true\<close> returns, without raising and after finitely many steps, tiles that all
  have the size of \<open>S\<close> cut down to \<open>R\<close>, that is \<open>min\<close> of the two in each dimension, which is
  exactly \<open>S\<close> whenever \<open>S \<le> R\<close>.  If \<open>S \<ge> R\<close> in both dimensions the result is the single tile
  \<open>R\<close>.  Otherwise the result is the grid \<open>fixed_grid R S\<close> in row-major order, in which a tile
  starts at the earlier of the next step and the position that makes it end on the far edge of
  \<open>R\<close> (so the last column and the last row are shifted back over their neighbours), and the
  union of the tiles is exactly \<open>R\<close>.
\<close>

theorem C2_fixed_tiling_normalised_size:
  assumes "0 < s_width S" and "0 < s_height S" and "0 \<le> r_width R" and "0 \<le> r_height R"
  shows "\<exists>tiles. getSubRegions R S True = Some (Inr tiles) \<and>
           (\<forall>t\<in>set tiles. r_width t = min (s_width S) (r_width R) \<and>
                           r_height t = min (s_height S) (r_height R)) \<and>
           (r_width R \<le> s_width S \<and> r_height R \<le> s_height S \<longrightarrow> tiles = [R]) \<and>
           (\<not> (r_width R \<le> s_width S \<and> r_height R \<le> s_height S) \<longrightarrow>
              tiles = fixed_grid R S \<and>
              (\<forall>a b. a < b \<longrightarrow> b < length tiles \<longrightarrow> row_major_before (tiles ! a) (tiles ! b)) \<and>
              (\<forall>x y. covers R x y \<longleftrightarrow> (\<exists>t\<in>set tiles. covers t x y)))"
proof (cases "r_width R \<le> s_width S \<and> r_height R \<le> s_height S")
  case True
  then have "getSubRegions R S True = Some (Inr [R])"
    using assms by (simp add: getSubRegions_def getSubRegionsWithFixedSize_single)
  then show ?thesis using True by (simp add: min_def)
next
  case False
  have run: "getSubRegions R S True = Some (Inr (fixed_grid R S))"
    using False by (simp add: getSubRegions_def getSubRegionsWithFixedSize_grid[OF assms])
  have ord: "\<forall>a b. a < b \<longrightarrow> b < length (fixed_grid R S) \<longrightarrow>
               row_major_before (fixed_grid R S ! a) (fixed_grid R S ! b)"
    using fixed_grid_sorted[OF assms] by (simp add: sorted_wrt_iff_nth_less)
  show ?thesis
    using run ord False fixed_grid_covers[OF assms(1,2), of R] fixed_grid_sizes[of _ R S]
    by blast
qed

theorem C2_fixed_tiling_normalised_size_witness:
  "0 < s_width \<lparr>s_width = 2, s_height = 2\<rparr> \<and> 0 < s_height \<lparr>s_width = 2, s_height = 2\<rparr> \<and>
   0 \<le> r_width \<lparr>r_left = 0, r_top = 0, r_width = 5, r_height = 3, r_coordinatesType = SCREENSHOT_AS_IS\<rparr> \<and>
   0 \<le> r_height \<lparr>r_left = 0, r_top = 0, r_width = 5, r_height = 3, r_coordinatesType = SCREENSHOT_AS_IS\<rparr> \<and>
   getSubRegions \<lparr>r_left = 0, r_top = 0, r_width = 5, r_height = 3, r_coordinatesType = SCREENSHOT_AS_IS\<rparr>
     \<lparr>s_width = 2, s_height = 2\<rparr> True =
   Some (Inr [\<lparr>r_left = 0, r_top = 0, r_width = 2, r_height = 2, r_coordinatesType = SCREENSHOT_AS_IS\<rparr>,
              \<lparr>r_left = 2, r_top = 0, r_width = 2, r_height = 2, r_coordinatesType = SCREENSHOT_AS_IS\<rparr>,
              \<lparr>r_left = 3, r_top = 0, r_width = 2, r_height = 2, r_coordinatesType = SCREENSHOT_AS_IS\<rparr>,
              \<lparr>r_left = 0, r_top = 1, r_width = 2, r_height = 2, r_coordinatesType = SCREENSHOT_AS_IS\<rparr>,
              \<lparr>r_left = 2, r_top = 1, r_width = 2, r_height = 2, r_coordinatesType = SCREENSHOT_AS_IS\<rparr>,
              \<lparr>r_left = 3, r_top = 1, r_width = 2, r_height = 2, r_coordinatesType = SCREENSHOT_AS_IS\<rparr>])"
proof -
  let ?S = "\<lparr>s_width = 2, s_height = 2\<rparr>"
  let ?R = "\<lparr>r_left = 0, r_top = 0, r_width = 5, r_height = 3, r_coordinatesType = SCREENSHOT_AS_IS\<rparr>"
  have w: "0 < s_width ?S" and h: "0 < s_height ?S"
    and rw: "0 \<le> r_width ?R" and rh: "0 \<le> r_height ?R" by simp_all
  have big: "\<not> (r_width ?R \<le> s_width ?S \<and> r_height ?R \<le> s_height ?S)" by simp
  from C2_fixed_tiling_normalised_size[OF w h rw rh]
  obtain tiles where t: "getSubRegions ?R ?S True = Some (Inr tiles)"
    and g: "\<not> (r_width ?R \<le> s_width ?S \<and> r_height ?R \<le> s_height ?S) \<longrightarrow>
            tiles = fixed_grid ?R ?S \<and>
            (\<forall>a b. a < b \<longrightarrow> b < length tiles \<longrightarrow> row_major_before (tiles ! a) (tiles ! b)) \<and>
            (\<forall>x y. covers ?R x y \<longleftrightarrow> (\<exists>t\<in>set tiles. covers t x y))"
    by (elim exE conjE)
  from g big have "tiles = fixed_grid ?R ?S" by (rule mp[THEN conjunct1])
  moreover have "fixed_grid ?R ?S =
      [\<lparr>r_left = 0, r_top = 0, r_width = 2, r_height = 2, r_coordinatesType = SCREENSHOT_AS_IS\<rparr>,
       \<lparr>r_left = 2, r_top = 0, r_width = 2, r_height = 2, r_coordinatesType = SCREENSHOT_AS_IS\<rparr>,
       \<lparr>r_left = 3, r_top = 0, r_width = 2, r_height = 2, r_coordinatesType = SCREENSHOT_AS_IS\<rparr>,
       \<lparr>r_left = 0, r_top = 1, r_width = 2, r_height = 2, r_coordinatesType = SCREENSHOT_AS_IS\<rparr>,
       \<lparr>r_left = 2, r_top = 1, r_width = 2, r_height = 2, r_coordinatesType = SCREENSHOT_AS_IS\<rparr>,
       \<lparr>r_left = 3, r_top = 1, r_width = 2, r_height = 2, r_coordinatesType = SCREENSHOT_AS_IS\<rparr>]"
    by (simp add: fixed_grid_def tile_count_def fixed_tile_def Let_def upt_rec)
  ultimately show ?thesis using t by simp
qed

subsection \<open>Claim C9: a non-positive tile size fails fast\<close>

text \<open>
  C9.  For every call to \<open>getSubRegions\<close>, under either tiling policy, with a tile size whose
  width or height is not greater than zero, the call raises an argument error: it returns
  neither a list of tiles nor a special-cased output, and it does not enter the loops.
\<close>

theorem C9_non_positive_tile_size_fails_fast:
  assumes "s_width S \<le> 0 \<or> s_height S \<le> 0"
  shows "\<exists>paramName. getSubRegions R S isFixedSize = Some (Inl (IllegalArgument paramName))"
  using assms
  by (auto simp: getSubRegions_def getSubRegionsWithFixedSize_def getSubRegionsWithVaryingSize_def
      greaterThanZero_def Let_def)

theorem C9_non_positive_tile_size_fails_fast_witness:
  "(s_width \<lparr>s_width = 0, s_height = 2\<rparr> \<le> 0 \<or> s_height \<lparr>s_width = 0, s_height = 2\<rparr> \<le> 0) \<and>
   (\<exists>paramName.
      getSubRegions \<lparr>r_left = 0, r_top = 0, r_width = 5, r_height = 3, r_coordinatesType = SCREENSHOT_AS_IS\<rparr>
        \<lparr>s_width = 0, s_height = 2\<rparr> True = Some (Inl (IllegalArgument paramName)))"
proof -
  have "s_width \<lparr>s_width = 0, s_height = 2\<rparr> \<le> 0 \<or> s_height \<lparr>s_width = 0, s_height = 2\<rparr> \<le> 0"
    by simp
  from this C9_non_positive_tile_size_fails_fast[OF this] show ?thesis by (rule conjI)
qed

section \<open>Image buffer: proofs\<close>

subsection \<open>Claim C7: scaling by one and rotating by zero do nothing\<close>

text \<open>
  C7.  For every image, whatever the decoder and whether or not editing is disabled,
  \<open>scaleImage\<close> with ratio 1 and \<open>rotateImage\<close> with 0 degrees resolve and leave the image as it
  was: the encoded buffer is the same, and so is every other field, among them the flag
  \<open>isParsed\<close> and the count of decoder calls, so no decode has been triggered.  The buffer that
  \<open>getImageBuffer\<close> then delivers is the one it would have delivered before.
\<close>

theorem C7_scale_one_rotate_zero_are_noops:
  "scaleImage U disabled 1 img = (Resolved Undefined, img) \<and>
   rotateImage U disabled 0 img = (Resolved This, img) \<and>
   mi_imageBuffer (snd (scaleImage U disabled 1 img)) = mi_imageBuffer img \<and>
   mi_imageBuffer (snd (rotateImage U disabled 0 img)) = mi_imageBuffer img \<and>
   mi_decodes (snd (scaleImage U disabled 1 img)) = mi_decodes img \<and>
   mi_decodes (snd (rotateImage U disabled 0 img)) = mi_decodes img \<and>
   getImageBuffer U disabled (snd (scaleImage U disabled 1 img)) = getImageBuffer U disabled img \<and>
   getImageBuffer U disabled (snd (rotateImage U disabled 0 img)) = getImageBuffer U disabled img"
  by (simp add: scaleImage_def rotateImage_def)

theorem C7_scale_one_rotate_zero_are_noops_witness:
  "scaleImage failing_ImageUtils False 1 (MutableImage_new [137, 80, 78, 71]) =
     (Resolved Undefined, MutableImage_new [137, 80, 78, 71]) \<and>
   rotateImage failing_ImageUtils False 0 (MutableImage_new [137, 80, 78, 71]) =
     (Resolved This, MutableImage_new [137, 80, 78, 71])"
  using C7_scale_one_rotate_zero_are_noops[of failing_ImageUtils False "MutableImage_new [137, 80, 78, 71]"]
  by (elim conjE) (rule conjI)

subsection \<open>Claim C10: with editing disabled the pixel operations do nothing\<close>

lemma parseImage_disabled: "parseImage U True img = (Resolved (), img)"
  by (simp add: parseImage_def)

text \<open>
  With editing disabled no operation ever sets \<open>isParsed\<close>: the constructor clears it and every
  operation of the class keeps it clear, so the hypothesis of the claim's theorem holds for every
  image the program can hold in that mode.
\<close>

lemma disabled_constructor_unparsed: "\<not> mi_isParsed (MutableImage_new image')"
  by (simp add: MutableImage_new_def)

lemma disabled_keeps_unparsed:
  assumes "\<not> mi_isParsed img"
  shows "\<not> mi_isParsed (snd (parseImage U True img))"
    and "\<not> mi_isParsed (snd (packImage U True img))"
    and "\<not> mi_isParsed (snd (cropImage U True region img))"
    and "\<not> mi_isParsed (snd (scaleImage U True scaleRatio img))"
    and "\<not> mi_isParsed (snd (rotateImage U True degrees img))"
    and "\<not> mi_isParsed (snd (setCoordinates coordinates img))"
    and "\<not> mi_isParsed (snd (asObject U True img))"
    and "\<not> mi_isParsed (snd (getImageBuffer U True img))"
    and "\<not> mi_isParsed (snd (saveImage U True filename img))"
    and "retrieveImageSize U img = Inr img' \<Longrightarrow> \<not> mi_isParsed img'"
  using assms
  by (auto simp: parseImage_def packImage_def cropImage_def scaleImage_def rotateImage_def
      setCoordinates_def asObject_def getImageBuffer_def saveImage_def retrieveImageSize_def
      split: sum.splits if_splits)

text \<open>
  C10.  When image editing is disabled (the module constant \<open>disabled\<close> is true), \<open>cropImage\<close>,
  \<open>scaleImage\<close> and \<open>rotateImage\<close> on an image that has not been parsed resolve, whatever the
  decoder would do with the buffer, and leave the image as it was: the buffer, the flag
  \<open>isParsed\<close>, the size fields and the count of decoder calls are unchanged, so the parse is
  skipped, no decode failure is raised, and \<open>getSize\<close> reports what it reported before.
\<close>

theorem C10_disabled_pixel_operations_are_noops:
  assumes "disabled" and "\<not> mi_isParsed img"
  shows "cropImage U disabled region img = (Resolved This, img) \<and>
         scaleImage U disabled scaleRatio img =
           (Resolved (if scaleRatio = 1 then Undefined else This), img) \<and>
         rotateImage U disabled degrees img = (Resolved This, img) \<and>
         getSize U (snd (cropImage U disabled region img)) = getSize U img \<and>
         getSize U (snd (scaleImage U disabled scaleRatio img)) = getSize U img \<and>
         getSize U (snd (rotateImage U disabled degrees img)) = getSize U img"
  using assms by (simp add: cropImage_def scaleImage_def rotateImage_def parseImage_def)

theorem C10_disabled_pixel_operations_are_noops_witness:
  "True \<and> \<not> mi_isParsed (MutableImage_new [0, 1, 2] :: (nat list, int \<times> int) MutableImage) \<and>
   cropImage failing_ImageUtils True
     \<lparr>r_left = 0, r_top = 0, r_width = 10, r_height = 10, r_coordinatesType = SCREENSHOT_AS_IS\<rparr>
     (MutableImage_new [0, 1, 2]) = (Resolved This, MutableImage_new [0, 1, 2]) \<and>
   scaleImage failing_ImageUtils True (1 / 2) (MutableImage_new [0, 1, 2]) =
     (Resolved This, MutableImage_new [0, 1, 2]) \<and>
   rotateImage failing_ImageUtils True 90 (MutableImage_new [0, 1, 2]) =
     (Resolved This, MutableImage_new [0, 1, 2])"
proof -
  have u: "\<not> mi_isParsed (MutableImage_new [0, 1, 2] :: (nat list, int \<times> int) MutableImage)"
    by (rule disabled_constructor_unparsed)
  from C10_disabled_pixel_operations_are_noops[OF TrueI u, of failing_ImageUtils _ "1 / 2" 90] u
  show ?thesis by simp
qed


section \<open>Viewport sizer: proofs\<close>

lemma requested_append: "requested (xs @ ys) = requested xs @ requested ys"
  by (induction xs rule: requested.induct) simp_all

lemma search_steps_append: "search_steps (xs @ ys) = search_steps xs + search_steps ys"
  by (simp add: search_steps_def)

lemma observed_append: "observed (xs @ ys) = observed xs @ observed ys"
  by (induction xs rule: observed.induct) simp_all

lemma measurements_append: "measurements (xs @ ys) = measurements xs + measurements ys"
  by (simp add: measurements_def)

lemma window_setSize_trace:
  "window_setSize D req s = (r, s') \<Longrightarrow> trace s' = trace s @ [WindowSetSize req]"
  by (auto simp: window_setSize_def emit_def split: prod.splits)

lemma window_getSize_trace:
  "window_getSize D s = (r, s') \<Longrightarrow> trace s' = trace s @ [WindowGetSize]"
  by (auto simp: window_getSize_def emit_def split: prod.splits)

lemma window_setPosition_trace:
  "window_setPosition D x y s = (r, s') \<Longrightarrow> trace s' = trace s @ [WindowSetPosition x y]"
  by (auto simp: window_setPosition_def emit_def split: prod.splits)

lemma getViewportSize_trace:
  "getViewportSize D s = (r, s') \<Longrightarrow> trace s' = trace s @ [ViewportScript]"
  by (auto simp: getViewportSize_def emit_def Let_def split: prod.splits outcome.splits option.splits)

lemma setBrowserSize_retrying_trace:
  "setBrowserSize_retrying D req n s = (r, s') \<Longrightarrow>
   \<exists>evs. trace s' = trace s @ evs \<and> resize_run req (Suc n) evs \<and>
         (\<forall>e. r = Rejected e \<longrightarrow> requested evs = replicate (Suc n) req)"
proof (induction D req n s arbitrary: r s' rule: setBrowserSize_retrying.induct)
  case (1 D requiredSize retries s)
  obtain r1 s1 where c1: "window_setSize D requiredSize (emit (Verbose ''Trying to set browser size to:'') s) = (r1, s1)"
    by (cases "window_setSize D requiredSize (emit (Verbose ''Trying to set browser size to:'') s)")
  have t1: "trace s1 = trace s @ [Verbose ''Trying to set browser size to:'', WindowSetSize requiredSize]"
    using window_setSize_trace[OF c1] by (simp add: emit_def)
  obtain r3 s3 where c3: "window_getSize D (emit (Sleep 1000) s1) = (r3, s3)"
    by (cases "window_getSize D (emit (Sleep 1000) s1)")
  have t3: "trace s3 = trace s @ [Verbose ''Trying to set browser size to:'', WindowSetSize requiredSize,
                                 Sleep 1000, WindowGetSize]"
    using window_getSize_trace[OF c3] t1 by (simp add: emit_def)
  have sl: "(Resolved (), emit (Sleep 1000) s1) = sleep 1000 s1"
    by (simp add: sleep_def)
  let ?s4 = "\<lambda>sz. emit (LogLine ''Current browser size:'' sz) s3"
  have t4: "trace (?s4 sz) = trace s @ [Verbose ''Trying to set browser size to:'', WindowSetSize requiredSize,
                                  Sleep 1000, WindowGetSize, LogLine ''Current browser size:'' sz]" for sz
    using t3 by (simp add: emit_def)
  have one: "resize_run requiredSize (Suc retries) [Verbose ''Trying to set browser size to:'', WindowSetSize requiredSize]"
       "resize_run requiredSize (Suc retries) [Verbose ''Trying to set browser size to:'', WindowSetSize requiredSize,
                                 Sleep 1000, WindowGetSize]"
       "\<And>sz. resize_run requiredSize (Suc retries) [Verbose ''Trying to set browser size to:'', WindowSetSize requiredSize,
                                  Sleep 1000, WindowGetSize, LogLine ''Current browser size:'' sz]"
    by (auto simp: resize_run_def search_steps_def measurements_def intro!: exI[of _ 1])
  show ?case
  proof (cases r1)
    case (Resolved u)
    show ?thesis
    proof (cases r3)
      case res3: (Resolved currentSize)
      show ?thesis
      proof (cases "s_width currentSize = s_width requiredSize \<and> s_height currentSize = s_height requiredSize")
        case True
        then have "r = Resolved ()" "s' = ?s4 currentSize"
          using "1.prems" c1 c3 Resolved res3 by (simp_all add: sleep_def Let_def)
        then show ?thesis using t4 one(3) by auto
      next
        case False
        show ?thesis
        proof (cases retries)
          case 0
          then have "r = Rejected (Failure ''Failed to set browser size: retries is out.'')" "s' = ?s4 currentSize"
            using "1.prems" c1 c3 Resolved res3 False by (simp_all add: sleep_def Let_def)
          then show ?thesis using t4 one(3) 0 by (auto simp: resize_run_def)
        next
          case (Suc retries')
          then have rec: "setBrowserSize_retrying D requiredSize retries' (?s4 currentSize) = (r, s')"
            using "1.prems" c1 c3 Resolved res3 False by (simp add: sleep_def Let_def)
          have "\<exists>evs. trace s' = trace (?s4 currentSize) @ evs \<and> resize_run requiredSize (Suc retries') evs \<and>
                  (\<forall>e. r = Rejected e \<longrightarrow> requested evs = replicate (Suc retries') requiredSize)"
            by (rule "1.IH"[OF c1[symmetric] Resolved sl refl c3[symmetric] res3 refl False Suc rec])
          then obtain evs k where e: "trace s' = trace (?s4 currentSize) @ evs"
            and k: "1 \<le> k" "k \<le> Suc retries'" "requested evs = replicate k requiredSize"
            and z: "search_steps evs = 0" "measurements evs = 0"
            and rj: "\<forall>e. r = Rejected e \<longrightarrow> requested evs = replicate (Suc retries') requiredSize"
            by (auto simp: resize_run_def)
          let ?all = "[Verbose ''Trying to set browser size to:'', WindowSetSize requiredSize,
                       Sleep 1000, WindowGetSize, LogLine ''Current browser size:'' currentSize] @ evs"
          have "trace s' = trace s @ ?all" using e t4 by simp
          moreover have "requested ?all = replicate (Suc k) requiredSize" using k by simp
          moreover have "search_steps ?all = 0" "measurements ?all = 0"
            using z by (simp_all add: search_steps_def measurements_def)
          moreover have "\<forall>e. r = Rejected e \<longrightarrow> requested ?all = replicate (Suc retries) requiredSize"
            using rj Suc by simp
          ultimately show ?thesis using k Suc unfolding resize_run_def
            by (intro exI[of _ ?all] conjI exI[of _ "Suc k"]) simp_all
        qed
      qed
    next
      case (Rejected e)
      then have "r = Pending" "s' = s3"
        using "1.prems" c1 c3 Resolved by (simp_all add: sleep_def)
      then show ?thesis using t3 one(2) by auto
    next
      case Pending
      then have "r = Pending" "s' = s3"
        using "1.prems" c1 c3 Resolved by (simp_all add: sleep_def)
      then show ?thesis using t3 one(2) by auto
    qed
  next
    case (Rejected e)
    then have "r = Pending" "s' = s1" using "1.prems" c1 by simp_all
    then show ?thesis using t1 one(1) by auto
  next
    case Pending
    then have "r = Pending" "s' = s1" using "1.prems" c1 by simp_all
    then show ?thesis using t1 one(1) by auto
  qed
qed

lemma setBrowserSize_retrying_never_matches:
  assumes "resizes_settle D" "never_matches D req"
  shows "\<exists>s'. setBrowserSize_retrying D req n s =
               (Rejected (Failure ''Failed to set browser size: retries is out.''), s')"
proof (induction n arbitrary: s)
  case 0
  obtain b1 where b1: "wd_setSize D (s_width req) (s_height req) (browser s) = (Resolved (), b1)"
    using assms(1) unfolding resizes_settle_def by blast
  obtain sz b2 where b2: "wd_getSize D b1 = (Resolved sz, b2)"
    and ne: "\<not> (s_width sz = s_width req \<and> s_height sz = s_height req)"
    using assms(2) unfolding never_matches_def by blast
  show ?case
    using b1 b2 ne by (simp add: window_setSize_def window_getSize_def sleep_def emit_def Let_def)
next
  case (Suc n)
  obtain b1 where b1: "wd_setSize D (s_width req) (s_height req) (browser s) = (Resolved (), b1)"
    using assms(1) unfolding resizes_settle_def by blast
  obtain sz b2 where b2: "wd_getSize D b1 = (Resolved sz, b2)"
    and ne: "\<not> (s_width sz = s_width req \<and> s_height sz = s_height req)"
    using assms(2) unfolding never_matches_def by blast
  show ?case
    using b1 b2 ne Suc.IH
    by (simp add: window_setSize_def window_getSize_def sleep_def emit_def Let_def
        del: setBrowserSize_retrying.simps
        add: setBrowserSize_retrying.simps[of D req "Suc n"])
qed

lemma setBrowserSize_trace:
  "setBrowserSize D req s = (r, s') \<Longrightarrow>
   \<exists>evs. trace s' = trace s @ evs \<and> resize_run req 4 evs \<and> (\<forall>e. r \<noteq> Rejected e)"
proof -
  assume a: "setBrowserSize D req s = (r, s')"
  obtain r0 s0 where c: "setBrowserSize_retrying D req 3 s = (r0, s0)"
    by (cases "setBrowserSize_retrying D req 3 s")
  from setBrowserSize_retrying_trace[OF c]
  obtain evs where "trace s0 = trace s @ evs" "resize_run req 4 evs"
    by (auto simp: numeral_eq_Suc)
  moreover have "s' = s0" "\<forall>e. r \<noteq> Rejected e"
    using a c by (auto simp: setBrowserSize_def split: outcome.splits)
  ultimately show ?thesis by blast
qed

lemma resize_try:
  assumes "wd_setSize D (s_width req) (s_height req) (browser s) = (Resolved (), b1)"
    and "wd_getSize D b1 = (Resolved sz, b2)"
  shows "setBrowserSize_retrying D req n s =
           (let s4 = \<lparr>browser = b2,
                      trace = trace s @ [Verbose ''Trying to set browser size to:'', WindowSetSize req,
                                         Sleep 1000, WindowGetSize, LogLine ''Current browser size:'' sz]\<rparr>
            in if same_size sz req then (Resolved (), s4)
               else (case n of
                       0 \<Rightarrow> (Rejected (Failure ''Failed to set browser size: retries is out.''), s4)
                     | Suc n' \<Rightarrow> setBrowserSize_retrying D req n' s4))"
proof (cases s)
  case (fields b evs)
  show ?thesis
    using assms unfolding fields
    by (subst setBrowserSize_retrying.simps, cases n)
       (simp_all add: window_setSize_def window_getSize_def sleep_def emit_def Let_def same_size_def
          del: setBrowserSize_retrying.simps)
qed

lemma resize_attempts_one:
  assumes "wd_getSize D b1 = (Resolved sz, b2)" "1 \<le> n" "same_size sz req \<or> n = 1"
  shows "resize_attempts D req n [sz]
           [Verbose ''Trying to set browser size to:'', WindowSetSize req,
            Sleep 1000, WindowGetSize, LogLine ''Current browser size:'' sz]"
  using assms by (auto simp: resize_attempts_def search_steps_def)

lemma resize_attempts_more:
  assumes "wd_getSize D b1 = (Resolved sz, b2)" "\<not> same_size sz req"
    and "resize_attempts D req n sizes evs"
  shows "resize_attempts D req (Suc n) (sz # sizes)
           ([Verbose ''Trying to set browser size to:'', WindowSetSize req,
             Sleep 1000, WindowGetSize, LogLine ''Current browser size:'' sz] @ evs)"
proof -
  from assms(3) have ne: "sizes \<noteq> []" by (auto simp: resize_attempts_def)
  then show ?thesis
    using assms by (auto simp: resize_attempts_def search_steps_def)
qed

lemma setBrowserSize_retrying_answered:
  assumes "resizes_settle D" "window_measured D"
  shows "\<exists>s' evs sizes.
           setBrowserSize_retrying D req n s =
             (if same_size (last sizes) req then Resolved ()
              else Rejected (Failure ''Failed to set browser size: retries is out.''), s') \<and>
           trace s' = trace s @ evs \<and> resize_attempts D req (Suc n) sizes evs"
proof (induction n arbitrary: s)
  case 0
  obtain b1 where b1: "wd_setSize D (s_width req) (s_height req) (browser s) = (Resolved (), b1)"
    using assms(1) unfolding resizes_settle_def by blast
  obtain sz b2 where b2: "wd_getSize D b1 = (Resolved sz, b2)"
    using assms(2) unfolding window_measured_def by blast
  show ?case
    using resize_attempts_one[OF b2, of 1 req]
    by (subst resize_try[OF b1 b2])
       (auto simp: Let_def intro!: exI[of _ "[sz]"])
next
  case (Suc n)
  obtain b1 where b1: "wd_setSize D (s_width req) (s_height req) (browser s) = (Resolved (), b1)"
    using assms(1) unfolding resizes_settle_def by blast
  obtain sz b2 where b2: "wd_getSize D b1 = (Resolved sz, b2)"
    using assms(2) unfolding window_measured_def by blast
  let ?pre = "[Verbose ''Trying to set browser size to:'', WindowSetSize req,
               Sleep 1000, WindowGetSize, LogLine ''Current browser size:'' sz]"
  let ?s4 = "\<lparr>browser = b2, trace = trace s @ ?pre\<rparr>"
  show ?case
  proof (cases "same_size sz req")
    case True
    then show ?thesis
      using resize_attempts_one[OF b2, of "Suc (Suc n)" req]
      by (subst resize_try[OF b1 b2])
         (auto simp: Let_def intro!: exI[of _ "[sz]"])
  next
    case False
    from Suc.IH[of ?s4] obtain s' evs sizes where
      run: "setBrowserSize_retrying D req n ?s4 =
             (if same_size (last sizes) req then Resolved ()
              else Rejected (Failure ''Failed to set browser size: retries is out.''), s')"
      and t: "trace s' = trace ?s4 @ evs" and ra: "resize_attempts D req (Suc n) sizes evs"
      by blast
    from ra have ne: "sizes \<noteq> []" by (auto simp: resize_attempts_def)
    have "setBrowserSize_retrying D req (Suc n) s =
             (if same_size (last (sz # sizes)) req then Resolved ()
              else Rejected (Failure ''Failed to set browser size: retries is out.''), s')"
      using False run ne by (subst resize_try[OF b1 b2]) (simp add: Let_def)
    moreover have "trace s' = trace s @ (?pre @ evs)" using t by simp
    moreover have "resize_attempts D req (Suc (Suc n)) (sz # sizes) (?pre @ evs)"
      by (rule resize_attempts_more[OF b2 False ra])
    ultimately show ?thesis by blast
  qed
qed

lemma setBrowserSize_answered:
  assumes "resizes_settle D" "window_measured D"
  shows "\<exists>s' evs sizes.
           setBrowserSize D req s = (Resolved (same_size (last sizes) req), s') \<and>
           trace s' = trace s @ evs \<and> resize_attempts D req 4 sizes evs"
proof -
  from setBrowserSize_retrying_answered[OF assms, of req 3 s]
  obtain s' evs sizes where
    "setBrowserSize_retrying D req 3 s =
       (if same_size (last sizes) req then Resolved ()
        else Rejected (Failure ''Failed to set browser size: retries is out.''), s')"
    "trace s' = trace s @ evs" "resize_attempts D req 4 sizes evs"
    by (auto simp: numeral_eq_Suc)
  then show ?thesis
    by (intro exI[of _ s'] exI[of _ evs] exI[of _ sizes]) (simp add: setBrowserSize_def)
qed

subsection \<open>Claim C6: a resize is retried three times, then given up without a crash\<close>

lemmas sizer_defs =
  setViewportSize_def zoomWorkaround_def setWindowSize.simps setBrowserSizeByViewportSize_def
  setBrowserSize_def getViewportSize_def window_setSize_def window_getSize_def
  window_setPosition_def sleep_def emit_def Let_def

text \<open>
  C6, as stated, fails where it says that the sizer reports the failure.  \<open>setBrowserSize\<close>
  resolves to \<open>false\<close>, but no caller reads that value: \<open>setViewportSize\<close> goes on to measure the
  viewport.  Against a browser that honours no resize (its window is always 800 by 600 and its
  viewport 784 by 500), asked for a viewport of 787 by 500, the sizer makes 24 raw resizes, none
  of which gives the window the size asked for, and resolves.
\<close>

theorem C6_sizer_resolves_though_no_resize_is_honoured_counterexample:
  "fst (setViewportSize stubborn_browser \<lparr>s_width = 787, s_height = 500\<rparr> \<lparr>browser = (), trace = []\<rparr>)
     = Resolved () \<and>
   requested (trace (snd (setViewportSize stubborn_browser \<lparr>s_width = 787, s_height = 500\<rparr>
                            \<lparr>browser = (), trace = []\<rparr>)))
     = replicate 8 \<lparr>s_width = 803, s_height = 600\<rparr> @ replicate 4 \<lparr>s_width = 801, s_height = 600\<rparr> @
       replicate 4 \<lparr>s_width = 802, s_height = 600\<rparr> @ replicate 4 \<lparr>s_width = 803, s_height = 600\<rparr> @
       replicate 4 \<lparr>s_width = 804, s_height = 600\<rparr> \<and>
   observed (trace (snd (setViewportSize stubborn_browser \<lparr>s_width = 787, s_height = 500\<rparr>
                           \<lparr>browser = (), trace = []\<rparr>)))
     = replicate 24 \<lparr>s_width = 800, s_height = 600\<rparr>"
  by (simp add: sizer_defs stubborn_browser_def numeral_eq_Suc)

text \<open>
  C6, amended.  Every resize-and-remeasure request goes through \<open>setBrowserSize\<close>.  Whatever the
  browser does, the promise of \<open>setBrowserSize\<close> is never rejected, and the request issues between
  one and four raw resizes, all to the required size: the first try and at most three retries.
  When the driver answers, a try is followed by another exactly when the window size measured
  after the settle delay differs from the required one and fewer than four tries were made; the
  promise resolves to \<open>true\<close> when the size measured last is the required one, and to \<open>false\<close>
  otherwise, which happens only after four tries: the resize is given up and the failure is the
  value of the promise, not a thrown error.  In particular, when the measured window size never
  equals the required one, all four resizes are issued and the promise resolves to \<open>false\<close>.
\<close>

theorem C6_resize_retried_three_times:
  "(\<forall>e. fst (setBrowserSize D req s) \<noteq> Rejected e) \<and>
   (\<exists>evs k. trace (snd (setBrowserSize D req s)) = trace s @ evs \<and>
            1 \<le> k \<and> k \<le> 4 \<and> requested evs = replicate k req) \<and>
   (resizes_settle D \<and> window_measured D \<longrightarrow>
      (\<exists>evs sizes.
         trace (snd (setBrowserSize D req s)) = trace s @ evs \<and>
         observed evs = sizes \<and> requested evs = replicate (length sizes) req \<and>
         1 \<le> length sizes \<and> length sizes \<le> 4 \<and>
         (\<forall>sz \<in> set (butlast sizes). \<not> same_size sz req) \<and>
         (\<forall>sz \<in> set sizes. \<exists>b b'. wd_getSize D b = (Resolved sz, b')) \<and>
         fst (setBrowserSize D req s) = Resolved (same_size (last sizes) req) \<and>
         (\<not> same_size (last sizes) req \<longrightarrow> length sizes = 4))) \<and>
   (resizes_settle D \<and> never_matches D req \<longrightarrow>
      fst (setBrowserSize D req s) = Resolved False \<and>
      (\<exists>evs. trace (snd (setBrowserSize D req s)) = trace s @ evs \<and>
             requested evs = replicate 4 req))"
proof -
  obtain r s' where c: "setBrowserSize D req s = (r, s')"
    by (cases "setBrowserSize D req s")
  from setBrowserSize_trace[OF c]
  have 1: "\<forall>e. r \<noteq> Rejected e"
    and 2: "\<exists>evs k. trace s' = trace s @ evs \<and> 1 \<le> k \<and> k \<le> 4 \<and> requested evs = replicate k req"
    by (auto simp: resize_run_def)
  have 3: "\<exists>evs sizes.
         trace (snd (setBrowserSize D req s)) = trace s @ evs \<and>
         observed evs = sizes \<and> requested evs = replicate (length sizes) req \<and>
         1 \<le> length sizes \<and> length sizes \<le> 4 \<and>
         (\<forall>sz \<in> set (butlast sizes). \<not> same_size sz req) \<and>
         (\<forall>sz \<in> set sizes. \<exists>b b'. wd_getSize D b = (Resolved sz, b')) \<and>
         fst (setBrowserSize D req s) = Resolved (same_size (last sizes) req) \<and>
         (\<not> same_size (last sizes) req \<longrightarrow> length sizes = 4)"
    if h: "resizes_settle D" "window_measured D"
  proof -
    from setBrowserSize_answered[OF h, of req s]
    obtain s1 evs sizes where "setBrowserSize D req s = (Resolved (same_size (last sizes) req), s1)"
      "trace s1 = trace s @ evs" "resize_attempts D req 4 sizes evs"
      by blast
    then show ?thesis
      unfolding resize_attempts_def
      by (intro exI[of _ evs] exI[of _ sizes]) simp
  qed
  have 4: "fst (setBrowserSize D req s) = Resolved False \<and>
           (\<exists>evs. trace (snd (setBrowserSize D req s)) = trace s @ evs \<and>
                  requested evs = replicate 4 req)"
    if h: "resizes_settle D" "never_matches D req"
  proof -
    from setBrowserSize_retrying_never_matches[OF h, of 3 s]
    obtain s0 where c0: "setBrowserSize_retrying D req 3 s =
                          (Rejected (Failure ''Failed to set browser size: retries is out.''), s0)"
      by blast
    from setBrowserSize_retrying_trace[OF c0]
    obtain evs where "trace s0 = trace s @ evs" "requested evs = replicate 4 req"
      by (auto simp: numeral_eq_Suc)
    then show ?thesis using c0 by (auto simp: setBrowserSize_def)
  qed
  show ?thesis using 1 2 3 4 c by simp
qed

lemma sluggish_run:
  "setBrowserSize sluggish_browser \<lparr>s_width = 1024, s_height = 768\<rparr>
     \<lparr>browser = (0, \<lparr>s_width = 800, s_height = 600\<rparr>), trace = []\<rparr> =
   (Resolved True,
    \<lparr>browser = (3, \<lparr>s_width = 1024, s_height = 768\<rparr>),
     trace = [Verbose ''Trying to set browser size to:'',
              WindowSetSize \<lparr>s_width = 1024, s_height = 768\<rparr>, Sleep 1000, WindowGetSize,
              LogLine ''Current browser size:'' \<lparr>s_width = 800, s_height = 600\<rparr>,
              Verbose ''Trying to set browser size to:'',
              WindowSetSize \<lparr>s_width = 1024, s_height = 768\<rparr>, Sleep 1000, WindowGetSize,
              LogLine ''Current browser size:'' \<lparr>s_width = 800, s_height = 600\<rparr>,
              Verbose ''Trying to set browser size to:'',
              WindowSetSize \<lparr>s_width = 1024, s_height = 768\<rparr>, Sleep 1000, WindowGetSize,
              LogLine ''Current browser size:'' \<lparr>s_width = 1024, s_height = 768\<rparr>]\<rparr>)"
  by (simp add: sizer_defs sluggish_browser_def numeral_eq_Suc)

theorem C6_resize_retried_three_times_witness:
  "resizes_settle sluggish_browser \<and> window_measured sluggish_browser \<and>
   fst (setBrowserSize sluggish_browser \<lparr>s_width = 1024, s_height = 768\<rparr>
          \<lparr>browser = (0, \<lparr>s_width = 800, s_height = 600\<rparr>), trace = []\<rparr>) = Resolved True \<and>
   observed (trace (snd (setBrowserSize sluggish_browser \<lparr>s_width = 1024, s_height = 768\<rparr>
                           \<lparr>browser = (0, \<lparr>s_width = 800, s_height = 600\<rparr>), trace = []\<rparr>)))
     = [\<lparr>s_width = 800, s_height = 600\<rparr>, \<lparr>s_width = 800, s_height = 600\<rparr>,
        \<lparr>s_width = 1024, s_height = 768\<rparr>] \<and>
   requested (trace (snd (setBrowserSize sluggish_browser \<lparr>s_width = 1024, s_height = 768\<rparr>
                            \<lparr>browser = (0, \<lparr>s_width = 800, s_height = 600\<rparr>), trace = []\<rparr>)))
     = [\<lparr>s_width = 1024, s_height = 768\<rparr>, \<lparr>s_width = 1024, s_height = 768\<rparr>,
        \<lparr>s_width = 1024, s_height = 768\<rparr>] \<and>
   resizes_settle stubborn_browser \<and> window_measured stubborn_browser \<and>
   never_matches stubborn_browser \<lparr>s_width = 1024, s_height = 768\<rparr> \<and>
   fst (setBrowserSize stubborn_browser \<lparr>s_width = 1024, s_height = 768\<rparr> \<lparr>browser = (), trace = []\<rparr>)
     = Resolved False \<and>
   requested (trace (snd (setBrowserSize stubborn_browser \<lparr>s_width = 1024, s_height = 768\<rparr>
                            \<lparr>browser = (), trace = []\<rparr>)))
     = [\<lparr>s_width = 1024, s_height = 768\<rparr>, \<lparr>s_width = 1024, s_height = 768\<rparr>,
        \<lparr>s_width = 1024, s_height = 768\<rparr>, \<lparr>s_width = 1024, s_height = 768\<rparr>]"
proof -
  let ?req = "\<lparr>s_width = 1024, s_height = 768\<rparr>"
  let ?s0 = "\<lparr>browser = (0::nat, \<lparr>s_width = 800, s_height = 600\<rparr>), trace = []\<rparr>"
  have answers: "resizes_settle sluggish_browser \<and> window_measured sluggish_browser"
    by (simp add: resizes_settle_def window_measured_def sluggish_browser_def)
  have "\<exists>evs sizes.
         trace (snd (setBrowserSize sluggish_browser ?req ?s0)) = trace ?s0 @ evs \<and>
         observed evs = sizes \<and> requested evs = replicate (length sizes) ?req \<and>
         1 \<le> length sizes \<and> length sizes \<le> 4 \<and>
         (\<forall>sz \<in> set (butlast sizes). \<not> same_size sz ?req) \<and>
         (\<forall>sz \<in> set sizes. \<exists>b b'. wd_getSize sluggish_browser b = (Resolved sz, b')) \<and>
         fst (setBrowserSize sluggish_browser ?req ?s0) = Resolved (same_size (last sizes) ?req) \<and>
         (\<not> same_size (last sizes) ?req \<longrightarrow> length sizes = 4)"
    by (rule C6_resize_retried_three_times
              [where D = sluggish_browser and req = ?req and s = ?s0,
               THEN conjunct2, THEN conjunct2, THEN conjunct1, THEN mp, OF answers])
  then obtain evs sizes where
    t: "trace (snd (setBrowserSize sluggish_browser ?req ?s0)) = trace ?s0 @ evs"
    and o: "observed evs = sizes" and q: "requested evs = replicate (length sizes) ?req"
    and f: "fst (setBrowserSize sluggish_browser ?req ?s0) = Resolved (same_size (last sizes) ?req)"
    by (elim exE conjE)
  have sizes: "sizes = [\<lparr>s_width = 800, s_height = 600\<rparr>, \<lparr>s_width = 800, s_height = 600\<rparr>, ?req]"
    using t o by (auto simp: sluggish_run)
  have sluggish: "fst (setBrowserSize sluggish_browser ?req ?s0) = Resolved True"
    "observed (trace (snd (setBrowserSize sluggish_browser ?req ?s0)))
       = [\<lparr>s_width = 800, s_height = 600\<rparr>, \<lparr>s_width = 800, s_height = 600\<rparr>, ?req]"
    "requested (trace (snd (setBrowserSize sluggish_browser ?req ?s0))) = [?req, ?req, ?req]"
    using f t o q unfolding sizes by (simp_all add: same_size_def)
  have h: "resizes_settle stubborn_browser \<and> never_matches stubborn_browser ?req"
    by (simp add: resizes_settle_def never_matches_def stubborn_browser_def)
  have wm: "window_measured stubborn_browser"
    by (simp add: window_measured_def stubborn_browser_def)
  have "fst (setBrowserSize stubborn_browser ?req \<lparr>browser = (), trace = []\<rparr>) = Resolved False \<and>
        (\<exists>evs. trace (snd (setBrowserSize stubborn_browser ?req \<lparr>browser = (), trace = []\<rparr>))
                  = trace \<lparr>browser = (), trace = []\<rparr> @ evs \<and>
               requested evs = replicate 4 ?req)"
    by (rule C6_resize_retried_three_times
              [where D = stubborn_browser and req = ?req and s = "\<lparr>browser = (), trace = []\<rparr>",
               THEN conjunct2, THEN conjunct2, THEN conjunct2, THEN mp, OF h])
  then have stubborn: "fst (setBrowserSize stubborn_browser ?req \<lparr>browser = (), trace = []\<rparr>) = Resolved False"
    "requested (trace (snd (setBrowserSize stubborn_browser ?req \<lparr>browser = (), trace = []\<rparr>)))
       = [?req, ?req, ?req, ?req]"
    by (auto simp: numeral_eq_Suc)
  show ?thesis using answers sluggish h wm stubborn by simp
qed

lemma nudges_same: "nudges ws hs r rest \<Longrightarrow> nudges ws hs r (replicate m r @ rest)"
  by (induction m) simp_all

lemma nudges_replicate:
  assumes "1 \<le> k"
    and "s_width r = s_width prev \<or> s_width r = s_width prev + ws"
    and "s_height r = s_height prev \<or> s_height r = s_height prev + hs"
    and "nudges ws hs r rest"
  shows "nudges ws hs prev (replicate k r @ rest)"
proof -
  obtain m where "k = Suc m" using assms(1) by (cases k) auto
  then show ?thesis using assms(2-4) by (simp add: nudges_same)
qed

lemma search_run_step:
  assumes e1: "resize_run xc 4 e1"
    and st: "s_width xc = s_width prev \<or> s_width xc = s_width prev + ws"
            "s_height xc = s_height prev \<or> s_height xc = s_height prev + hs"
    and mid: "requested mid = []" "search_steps mid = 0" "measurements mid \<le> 1"
    and rest: "rest = [] \<or> (search_run ws hs xc (rl - 1) rest \<and> 0 < rl - 1)"
  shows "search_run ws hs prev rl (Verbose ''Retries left:'' # e1 @ mid @ rest)"
proof -
  from e1 obtain k where k: "1 \<le> k" "k \<le> 4" "requested e1 = replicate k xc"
    and z: "search_steps e1 = 0" "measurements e1 = 0"
    by (auto simp: resize_run_def)
  have hd: "search_steps (Verbose ''Retries left:'' # e1 @ mid @ rest) = Suc (search_steps rest)"
           "measurements (Verbose ''Retries left:'' # e1 @ mid @ rest) = measurements mid + measurements rest"
           "requested (Verbose ''Retries left:'' # e1 @ mid @ rest) = replicate k xc @ requested rest"
    using z mid k by (simp_all add: search_steps_def measurements_def requested_append)
  from rest show ?thesis
  proof
    assume "rest = []"
    then show ?thesis
      unfolding search_run_def hd using k st mid
      by (simp add: search_steps_def measurements_def nudges_replicate[where rest="[]", simplified])
  next
    assume r: "search_run ws hs xc (rl - 1) rest \<and> 0 < rl - 1"
    then have n: "nudges ws hs prev (replicate k xc @ requested rest)"
      using nudges_replicate[OF k(1) st] by (simp add: search_run_def)
    show ?thesis
      using r k mid n unfolding search_run_def hd
      by (auto simp: max_def split: if_splits)
  qed
qed

lemma setWindowSize_trace:
  "setWindowSize D requiredSize actualViewportSize browserSize widthDiff widthStep heightDiff heightStep
     currWidthChange currHeightChange retriesLeft lastRequiredBrowserSize s = (r, s') \<Longrightarrow>
   \<exists>evs. trace s' = trace s @ evs \<and>
         search_run widthStep heightStep
           \<lparr>s_width = s_width browserSize + currWidthChange,
            s_height = s_height browserSize + currHeightChange\<rparr> retriesLeft evs"
proof (induction D requiredSize actualViewportSize browserSize widthDiff widthStep heightDiff heightStep
     currWidthChange currHeightChange retriesLeft lastRequiredBrowserSize s arbitrary: r s'
     rule: setWindowSize.induct)
  case (1 D requiredSize actualViewportSize browserSize widthDiff widthStep heightDiff heightStep
     currWidthChange currHeightChange retriesLeft lastRequiredBrowserSize s)
  let ?x = "emit (Verbose ''Retries left:'') s"
  let ?xa = "(if \<bar>currWidthChange\<bar> \<le> \<bar>widthDiff\<bar> \<and>
             s_width actualViewportSize \<noteq> s_width requiredSize
          then currWidthChange + widthStep else currWidthChange)"
  let ?xb = "(if \<bar>currHeightChange\<bar> \<le> \<bar>heightDiff\<bar> \<and>
             s_height actualViewportSize \<noteq> s_height requiredSize
          then currHeightChange + heightStep else currHeightChange)"
  let ?xc = "\<lparr>s_width = s_width browserSize + ?xa, s_height = s_height browserSize + ?xb\<rparr>"
  let ?prev = "\<lparr>s_width = s_width browserSize + currWidthChange,
                s_height = s_height browserSize + currHeightChange\<rparr>"
  let ?stall = "(case lastRequiredBrowserSize of None \<Rightarrow> False
            | Some lastSize \<Rightarrow> s_width ?xc = s_width lastSize \<and> s_height ?xc = s_height lastSize)"
  have st: "s_width ?xc = s_width ?prev \<or> s_width ?xc = s_width ?prev + widthStep"
           "s_height ?xc = s_height ?prev \<or> s_height ?xc = s_height ?prev + heightStep"
    by simp_all
  have tx: "trace ?x = trace s @ [Verbose ''Retries left:'']" by (simp add: emit_def)
  obtain xd y where c1: "setBrowserSize D ?xc ?x = (xd, y)" by (cases "setBrowserSize D ?xc ?x")
  from setBrowserSize_trace[OF c1] obtain e1 where ty: "trace y = trace ?x @ e1"
    and e1: "resize_run ?xc 4 e1" and nr: "\<forall>e. xd \<noteq> Rejected e" by blast
  obtain xe ya where c2: "getViewportSize D y = (xe, ya)" by (cases "getViewportSize D y")
  have tya: "trace ya = trace y @ [ViewportScript]" by (rule getViewportSize_trace[OF c2])
  let ?xf = "emit (Verbose ''Current viewport size:'') ya"
  have txf: "trace ?xf = trace s @ Verbose ''Retries left:'' # e1 @ [ViewportScript, Verbose ''Current viewport size:''] @ []"
    by (simp add: emit_def tya ty tx)
  let ?P = "\<lambda>evs. search_run widthStep heightStep ?prev retriesLeft evs"
  show ?case
  proof (cases ?stall)
    case True
    with "1.prems" have "trace s' = trace s @ [Verbose ''Retries left:'',
                 Verbose ''Browser size is as required but viewport size does not match!'',
                 Verbose ''Browser size: , Viewport size: '',
                 Verbose ''Stopping viewport size attempts.'']"
      by (subst (asm) setWindowSize.simps) (auto simp: Let_def emit_def)
    moreover have "?P [Verbose ''Retries left:'',
                 Verbose ''Browser size is as required but viewport size does not match!'',
                 Verbose ''Browser size: , Viewport size: '',
                 Verbose ''Stopping viewport size attempts.'']"
      by (simp add: search_run_def search_steps_def measurements_def)
    ultimately show "\<exists>evs. trace s' = trace s @ evs \<and> ?P evs" by blast
  next
    case False
    have short: "trace s' = trace s @ Verbose ''Retries left:'' # e1 @ mid @ []
                 \<Longrightarrow> requested mid = [] \<Longrightarrow> search_steps mid = 0 \<Longrightarrow> measurements mid \<le> 1
                 \<Longrightarrow> \<exists>evs. trace s' = trace s @ evs \<and> ?P evs" for mid
      using search_run_step[OF e1 st, of mid "[]" retriesLeft] by blast
    show "\<exists>evs. trace s' = trace s @ evs \<and> ?P evs"
    proof (cases xd)
      case (Resolved x1)
      show ?thesis
      proof (cases xe)
        case res: (Resolved x1a)
        show ?thesis
        proof (cases "s_width x1a = s_width requiredSize \<and> s_height x1a = s_height requiredSize")
          case True
          from "1.prems" False c1 c2 Resolved res True have "s' = ?xf"
            by (subst (asm) setWindowSize.simps) (auto simp: Let_def)
          then show ?thesis
            using short[of "[ViewportScript, Verbose ''Current viewport size:'']"] txf
            by (simp add: search_steps_def measurements_def)
        next
          case ne: False
          show ?thesis
          proof (cases "(\<bar>?xa\<bar> \<le> \<bar>widthDiff\<bar> \<or> \<bar>?xb\<bar> \<le> \<bar>heightDiff\<bar>) \<and> 0 < retriesLeft - 1")
            case True
            from "1.prems" False c1 c2 Resolved res ne True
            have rec: "setWindowSize D requiredSize x1a browserSize
                         widthDiff widthStep heightDiff heightStep ?xa ?xb (retriesLeft - 1) (Some ?xc) ?xf
                       = (r, s')"
              by (subst (asm) setWindowSize.simps) (auto simp: Let_def)
            have "\<exists>evs. trace s' = trace ?xf @ evs \<and>
                    search_run widthStep heightStep
                      \<lparr>s_width = s_width browserSize + ?xa, s_height = s_height browserSize + ?xb\<rparr>
                      (retriesLeft - 1) evs"
              by (rule "1.IH"[OF refl refl refl refl False c1[symmetric] Resolved
                    c2[symmetric] res refl ne True rec])
            then obtain evs2 where t2: "trace s' = trace ?xf @ evs2"
              and r2: "search_run widthStep heightStep ?xc (retriesLeft - 1) evs2"
              by auto
            have "trace s' = trace s @ Verbose ''Retries left:'' # e1 @
                     [ViewportScript, Verbose ''Current viewport size:''] @ evs2"
              using t2 txf by simp
            moreover have "?P (Verbose ''Retries left:'' # e1 @
                     [ViewportScript, Verbose ''Current viewport size:''] @ evs2)"
              using r2 True
              by (intro search_run_step[OF e1 st]) (simp_all add: search_steps_def measurements_def)
            ultimately show ?thesis by blast
          next
            case nc: False
            from "1.prems" False c1 c2 Resolved res ne nc have "s' = ?xf"
              by (subst (asm) setWindowSize.simps) (auto simp: Let_def)
            then show ?thesis
              using short[of "[ViewportScript, Verbose ''Current viewport size:'']"] txf
              by (simp add: search_steps_def measurements_def)
          qed
        qed
      next
        case (Rejected e)
        from "1.prems" False c1 c2 Resolved Rejected have "s' = ya"
          by (subst (asm) setWindowSize.simps) (auto simp: Let_def)
        then show ?thesis
          using short[of "[ViewportScript]"] tya ty tx by (simp add: search_steps_def measurements_def)
      next
        case Pending
        from "1.prems" False c1 c2 Resolved Pending have "s' = ya"
          by (subst (asm) setWindowSize.simps) (auto simp: Let_def)
        then show ?thesis
          using short[of "[ViewportScript]"] tya ty tx by (simp add: search_steps_def measurements_def)
      qed
    next
      case (Rejected e)
      then show ?thesis using nr by simp
    next
      case Pending
      from "1.prems" False c1 Pending have "s' = y"
        by (subst (asm) setWindowSize.simps) (auto simp: Let_def)
      then show ?thesis
        using short[of "[]"] ty tx by (simp add: search_steps_def measurements_def)
    qed
  qed
qed

lemma getViewportSize_answered:
  assumes "viewport_measured D"
  shows "\<exists>vp s'. getViewportSize D s = (Resolved vp, s') \<and> trace s' = trace s @ [ViewportScript]"
proof -
  obtain w h b' where "wd_viewportScript D (browser s) = (Resolved (Some w, Some h), b')"
    using assms unfolding viewport_measured_def by blast
  then show ?thesis by (simp add: getViewportSize_def emit_def Let_def)
qed

lemma search_attempts_step:
  assumes e1: "resize_attempts D xc 4 sizes e1"
    and st: "s_width xc = s_width prev \<or> s_width xc = s_width prev + ws"
            "s_height xc = s_height prev \<or> s_height xc = s_height prev + hs"
            "s_width xc \<noteq> s_width prev \<or> s_height xc \<noteq> s_height prev"
    and rest: "search_attempts ws hs xc attempts rest"
  shows "search_attempts ws hs prev ((length sizes, xc) # attempts)
           (Verbose ''Retries left:'' # e1 @ [ViewportScript, Verbose ''Current viewport size:''] @ rest)"
  using assms
  by (auto simp: search_attempts_def resize_attempts_def attempt_events_def search_steps_def)

lemma search_attempts_none: "search_attempts ws hs prev [] []"
  by (simp add: search_attempts_def search_steps_def)

lemma setWindowSize_attempts:
  "resizes_settle D \<Longrightarrow> window_measured D \<Longrightarrow> viewport_measured D \<Longrightarrow>
   widthStep \<noteq> 0 \<Longrightarrow> heightStep \<noteq> 0 \<Longrightarrow>
   (case lastRequiredBrowserSize of
      None \<Rightarrow> currWidthChange = 0 \<and> currHeightChange = 0 \<and> \<not> same_size actualViewportSize requiredSize
    | Some lastSize \<Rightarrow> lastSize = \<lparr>s_width = s_width browserSize + currWidthChange,
                                   s_height = s_height browserSize + currHeightChange\<rparr>) \<Longrightarrow>
   setWindowSize D requiredSize actualViewportSize browserSize widthDiff widthStep heightDiff heightStep
     currWidthChange currHeightChange retriesLeft lastRequiredBrowserSize s = (r, s') \<Longrightarrow>
   \<exists>evs attempts. trace s' = trace s @ evs \<and>
         search_attempts widthStep heightStep
           \<lparr>s_width = s_width browserSize + currWidthChange,
            s_height = s_height browserSize + currHeightChange\<rparr> attempts evs \<and>
         r \<noteq> Pending \<and> (lastRequiredBrowserSize = None \<longrightarrow> attempts \<noteq> [])"
proof (induction D requiredSize actualViewportSize browserSize widthDiff widthStep heightDiff heightStep
     currWidthChange currHeightChange retriesLeft lastRequiredBrowserSize s arbitrary: r s'
     rule: setWindowSize.induct)
  case (1 D requiredSize actualViewportSize browserSize widthDiff widthStep heightDiff heightStep
     currWidthChange currHeightChange retriesLeft lastRequiredBrowserSize s)
  note h1 = "1.prems"(1) and h2 = "1.prems"(2) and h3 = "1.prems"(3)
    and ws = "1.prems"(4) and hs = "1.prems"(5) and pre = "1.prems"(6) and run = "1.prems"(7)
  let ?x = "emit (Verbose ''Retries left:'') s"
  let ?xa = "(if \<bar>currWidthChange\<bar> \<le> \<bar>widthDiff\<bar> \<and>
             s_width actualViewportSize \<noteq> s_width requiredSize
          then currWidthChange + widthStep else currWidthChange)"
  let ?xb = "(if \<bar>currHeightChange\<bar> \<le> \<bar>heightDiff\<bar> \<and>
             s_height actualViewportSize \<noteq> s_height requiredSize
          then currHeightChange + heightStep else currHeightChange)"
  let ?xc = "\<lparr>s_width = s_width browserSize + ?xa, s_height = s_height browserSize + ?xb\<rparr>"
  let ?prev = "\<lparr>s_width = s_width browserSize + currWidthChange,
                s_height = s_height browserSize + currHeightChange\<rparr>"
  let ?stall = "(case lastRequiredBrowserSize of None \<Rightarrow> False
            | Some lastSize \<Rightarrow> s_width ?xc = s_width lastSize \<and> s_height ?xc = s_height lastSize)"
  let ?P = "\<lambda>attempts evs. search_attempts widthStep heightStep ?prev attempts evs"
  have tx: "trace ?x = trace s @ [Verbose ''Retries left:'']" by (simp add: emit_def)
  show ?case
  proof (cases ?stall)
    case True
    then obtain lastSize where l: "lastRequiredBrowserSize = Some lastSize"
      by (cases lastRequiredBrowserSize) auto
    from run True have "r = Resolved ()" "trace s' = trace s @ [Verbose ''Retries left:'',
                 Verbose ''Browser size is as required but viewport size does not match!'',
                 Verbose ''Browser size: , Viewport size: '',
                 Verbose ''Stopping viewport size attempts.'']"
      by (subst (asm) setWindowSize.simps, auto simp: Let_def emit_def)+
    moreover have "?P [] [Verbose ''Retries left:'',
                 Verbose ''Browser size is as required but viewport size does not match!'',
                 Verbose ''Browser size: , Viewport size: '',
                 Verbose ''Stopping viewport size attempts.'']"
      by (simp add: search_attempts_def search_steps_def)
    ultimately show ?thesis using l by blast
  next
    case False
    have st: "s_width ?xc = s_width ?prev \<or> s_width ?xc = s_width ?prev + widthStep"
             "s_height ?xc = s_height ?prev \<or> s_height ?xc = s_height ?prev + heightStep"
      by simp_all
    have moved: "s_width ?xc \<noteq> s_width ?prev \<or> s_height ?xc \<noteq> s_height ?prev"
    proof (cases lastRequiredBrowserSize)
      case None
      then show ?thesis using pre ws hs by (auto simp: same_size_def)
    next
      case (Some lastSize)
      then show ?thesis using pre False by auto
    qed
    obtain y e1 sizes where c1: "setBrowserSize D ?xc ?x = (Resolved (same_size (last sizes) ?xc), y)"
      and ty: "trace y = trace ?x @ e1" and e1: "resize_attempts D ?xc 4 sizes e1"
      using setBrowserSize_answered[OF h1 h2, of ?xc ?x] by blast
    obtain vp ya where c2: "getViewportSize D y = (Resolved vp, ya)"
      and tya: "trace ya = trace y @ [ViewportScript]"
      using getViewportSize_answered[OF h3, of y] by blast
    let ?xf = "emit (Verbose ''Current viewport size:'') ya"
    have txf: "trace ?xf = trace s @ Verbose ''Retries left:'' # e1 @
                 [ViewportScript, Verbose ''Current viewport size:''] @ []"
      by (simp add: emit_def tya ty tx)
    have one: "?P [(length sizes, ?xc)]
                 (Verbose ''Retries left:'' # e1 @ [ViewportScript, Verbose ''Current viewport size:''] @ [])"
      by (rule search_attempts_step[OF e1 st moved search_attempts_none])
    show ?thesis
    proof (cases "s_width vp = s_width requiredSize \<and> s_height vp = s_height requiredSize")
      case True
      from run False c1 c2 True have "r = Resolved ()" "s' = ?xf"
        by (subst (asm) setWindowSize.simps, auto simp: Let_def)+
      then show ?thesis using one txf by blast
    next
      case ne: False
      show ?thesis
      proof (cases "(\<bar>?xa\<bar> \<le> \<bar>widthDiff\<bar> \<or> \<bar>?xb\<bar> \<le> \<bar>heightDiff\<bar>) \<and> 0 < retriesLeft - 1")
        case True
        from run False c1 c2 ne True
        have rec: "setWindowSize D requiredSize vp browserSize
                     widthDiff widthStep heightDiff heightStep ?xa ?xb (retriesLeft - 1) (Some ?xc) ?xf
                   = (r, s')"
          by (subst (asm) setWindowSize.simps) (auto simp: Let_def)
        have pre': "(case Some ?xc of
                       None \<Rightarrow> ?xa = 0 \<and> ?xb = 0 \<and> \<not> same_size vp requiredSize
                     | Some lastSize \<Rightarrow> lastSize = \<lparr>s_width = s_width browserSize + ?xa,
                                                    s_height = s_height browserSize + ?xb\<rparr>)"
          by simp
        have "\<exists>evs attempts. trace s' = trace ?xf @ evs \<and>
                search_attempts widthStep heightStep
                  \<lparr>s_width = s_width browserSize + ?xa, s_height = s_height browserSize + ?xb\<rparr>
                  attempts evs \<and>
                r \<noteq> Pending \<and> (Some ?xc = None \<longrightarrow> attempts \<noteq> [])"
          by (rule "1.IH"[OF refl refl refl refl False c1[symmetric] refl
                c2[symmetric] refl refl ne True h1 h2 h3 ws hs pre' rec])
        then obtain evs2 attempts2 where t2: "trace s' = trace ?xf @ evs2"
          and r2: "search_attempts widthStep heightStep ?xc attempts2 evs2" and np: "r \<noteq> Pending"
          by auto
        have "trace s' = trace s @ Verbose ''Retries left:'' # e1 @
                 [ViewportScript, Verbose ''Current viewport size:''] @ evs2"
          using t2 txf by simp
        moreover have "?P ((length sizes, ?xc) # attempts2) (Verbose ''Retries left:'' # e1 @
                 [ViewportScript, Verbose ''Current viewport size:''] @ evs2)"
          by (rule search_attempts_step[OF e1 st moved r2])
        ultimately show ?thesis using np by blast
      next
        case nc: False
        from run False c1 c2 ne nc have "r = Rejected (Failure ''Failed to set window size!'')" "s' = ?xf"
          by (subst (asm) setWindowSize.simps, auto simp: Let_def)+
        then show ?thesis using one txf by blast
      qed
    qed
  qed
qed

subsection \<open>Claim C5: the stepwise search of the zoom workaround\<close>

text \<open>
  The claim as stated fails in its bound: when the viewport is off in one axis only, the product
  \<open>|widthDiff| \<times> |heightDiff| \<times> 2\<close> is zero, but the code takes a difference of zero for one
  when it computes the budget, and the search runs.  With a viewport two pixels too high and of
  the right width, against a browser that never changes its viewport, the search takes four
  steps; its three attempts each ask for a window one pixel lower and of the same width, and
  the fourth step, which would ask for the same size again, stops the search.
\<close>

theorem C5_zoom_search_budget_counterexample:
  "search_steps (trace (snd (zoomWorkaround zoomed_browser \<lparr>s_width = 1024, s_height = 768\<rparr>
       \<lparr>s_width = 1024, s_height = 770\<rparr> \<lparr>s_width = 1040, s_height = 868\<rparr>
       \<lparr>browser = \<lparr>s_width = 1040, s_height = 868\<rparr>, trace = []\<rparr>))) = 4 \<and>
   \<not> (4 \<le> \<bar>s_width \<lparr>s_width = 1024, s_height = 770\<rparr> - s_width \<lparr>s_width = 1024, s_height = 768\<rparr>\<bar> *
            \<bar>s_height \<lparr>s_width = 1024, s_height = 770\<rparr> - s_height \<lparr>s_width = 1024, s_height = 768\<rparr>\<bar> * (2::int)) \<and>
   requested (trace (snd (zoomWorkaround zoomed_browser \<lparr>s_width = 1024, s_height = 768\<rparr>
       \<lparr>s_width = 1024, s_height = 770\<rparr> \<lparr>s_width = 1040, s_height = 868\<rparr>
       \<lparr>browser = \<lparr>s_width = 1040, s_height = 868\<rparr>, trace = []\<rparr>))) =
     [\<lparr>s_width = 1040, s_height = 867\<rparr>, \<lparr>s_width = 1040, s_height = 866\<rparr>,
      \<lparr>s_width = 1040, s_height = 865\<rparr>]"
  by (simp add: zoomWorkaround_def setWindowSize.simps setBrowserSize_def getViewportSize_def
      window_setSize_def window_getSize_def sleep_def emit_def zoomed_browser_def Let_def
      search_steps_def numeral_eq_Suc)

text \<open>
  C5, amended.  The stepwise search is entered only from the last callback of \<open>setViewportSize\<close>,
  and only when the remaining viewport discrepancy is at most 3 px in each axis: otherwise that
  callback rejects at once and leaves no trace.  Whatever the browser does, the search takes at
  most \<open>max(1, |widthDiff|) \<times> max(1, |heightDiff|) \<times> 2\<close> steps and then terminates; the sizes
  it asks for move by at most one pixel in each axis from one to the next, each step issues at
  most four raw resizes (its retries) and is followed by at most one measurement of the
  viewport.  When the driver answers and the viewport is not the required one, the search
  settles (it resolves or is rejected) and is a sequence of at least one attempt and at most as
  many as the budget: each attempt asks for a window size that differs from the size asked for
  before it (from the measured window size, for the first) by one pixel in width, in height or in
  both, towards smaller in an axis where the viewport was measured too large on entry and
  towards larger otherwise; it makes between one and four raw resizes to that size and then one
  measurement of the viewport.  There is one step for each attempt and at most one more, which
  stops the search without an attempt.
\<close>

theorem C5_zoom_search_bounded:
  "(\<not> (\<bar>s_width actual - s_width req\<bar> \<le> 3 \<and> \<bar>s_height actual - s_height req\<bar> \<le> 3) \<longrightarrow>
      zoomWorkaround D req actual bsize s = (Rejected (Failure ''Failed to set viewport size!''), s)) \<and>
   (\<exists>evs. trace (snd (zoomWorkaround D req actual bsize s)) = trace s @ evs \<and>
          int (search_steps evs) \<le>
            \<bar>(if s_width actual - s_width req = 0 then 1 else s_width actual - s_width req) *
             (if s_height actual - s_height req = 0 then 1 else s_height actual - s_height req)\<bar> * 2 \<and>
          nudges (if s_width actual - s_width req > 0 then - 1 else 1)
                 (if s_height actual - s_height req > 0 then - 1 else 1) bsize (requested evs) \<and>
          measurements evs \<le> search_steps evs \<and>
          length (requested evs) \<le> 4 * search_steps evs) \<and>
   (resizes_settle D \<and> window_measured D \<and> viewport_measured D \<and>
    \<bar>s_width actual - s_width req\<bar> \<le> 3 \<and> \<bar>s_height actual - s_height req\<bar> \<le> 3 \<and>
    \<not> same_size actual req \<longrightarrow>
      fst (zoomWorkaround D req actual bsize s) \<noteq> Pending \<and>
      (\<exists>evs attempts.
         trace (snd (zoomWorkaround D req actual bsize s)) = trace s @ evs \<and>
         filter is_move evs = concat (map attempt_events attempts) \<and>
         attempts \<noteq> [] \<and>
         int (length attempts) \<le>
           \<bar>(if s_width actual - s_width req = 0 then 1 else s_width actual - s_width req) *
            (if s_height actual - s_height req = 0 then 1 else s_height actual - s_height req)\<bar> * 2 \<and>
         (\<forall>a \<in> set attempts. 1 \<le> fst a \<and> fst a \<le> 4) \<and>
         nudged (if s_width actual - s_width req > 0 then - 1 else 1)
                (if s_height actual - s_height req > 0 then - 1 else 1) bsize (map snd attempts) \<and>
         length attempts \<le> search_steps evs \<and> search_steps evs \<le> Suc (length attempts)))"
proof (cases "\<bar>s_width actual - s_width req\<bar> \<le> 3 \<and> \<bar>s_height actual - s_height req\<bar> \<le> 3")
  case False
  then have "zoomWorkaround D req actual bsize s = (Rejected (Failure ''Failed to set viewport size!''), s)"
    by (auto simp: zoomWorkaround_def Let_def)
  then show ?thesis using False by (auto simp: search_steps_def measurements_def)
next
  case True
  let ?wd = "s_width actual - s_width req" and ?hd = "s_height actual - s_height req"
  let ?ws = "if ?wd > 0 then - 1 else (1::int)" and ?hs = "if ?hd > 0 then - 1 else (1::int)"
  let ?budget = "\<bar>(if ?wd = 0 then 1 else ?wd) * (if ?hd = 0 then 1 else ?hd)\<bar> * 2"
  let ?s0 = "emit (Verbose ''Trying workaround for zoom...'') s"
  obtain r1 s1 where c: "setWindowSize D req actual bsize ?wd ?ws ?hd ?hs 0 0 ?budget None ?s0 = (r1, s1)"
    by (cases "setWindowSize D req actual bsize ?wd ?ws ?hd ?hs 0 0 ?budget None ?s0")
  have eta: "\<lparr>s_width = s_width bsize + 0, s_height = s_height bsize + 0\<rparr> = bsize"
    by (cases bsize) simp
  from setWindowSize_trace[OF c] obtain evs where t: "trace s1 = trace ?s0 @ evs"
    and run: "search_run ?ws ?hs bsize ?budget evs"
    unfolding eta by blast
  have "(if ?wd = 0 then 1 else ?wd) * (if ?hd = 0 then 1 else ?hd) \<noteq> 0" by simp
  then have "1 \<le> \<bar>(if ?wd = 0 then 1 else ?wd) * (if ?hd = 0 then 1 else ?hd)\<bar>" by linarith
  then have b1: "1 \<le> ?budget" by linarith
  have Z: "zoomWorkaround D req actual bsize s =
             (case r1 of Resolved _ \<Rightarrow> Resolved ()
              | Rejected err \<Rightarrow> Rejected (Failure ''Failed to set viewport size: zoom workaround failed.'')
              | Pending \<Rightarrow> Pending, s1)"
    using True c by (auto simp: zoomWorkaround_def Let_def split: outcome.splits)
  then have snd_eq: "snd (zoomWorkaround D req actual bsize s) = s1" by simp
  let ?evs = "Verbose ''Trying workaround for zoom...'' # evs"
  have tr: "trace s1 = trace s @ ?evs"
    using t by (simp add: emit_def)
  have steps: "int (search_steps ?evs) \<le> ?budget"
    using run b1 by (simp add: search_run_def search_steps_def max_def)
  have old: "nudges ?ws ?hs bsize (requested ?evs)" "measurements ?evs \<le> search_steps ?evs"
    "length (requested ?evs) \<le> 4 * search_steps ?evs"
    using run b1 by (simp_all add: search_run_def search_steps_def measurements_def max_def)
  have new: "fst (zoomWorkaround D req actual bsize s) \<noteq> Pending \<and>
      (\<exists>evs attempts.
         trace (snd (zoomWorkaround D req actual bsize s)) = trace s @ evs \<and>
         filter is_move evs = concat (map attempt_events attempts) \<and>
         attempts \<noteq> [] \<and> int (length attempts) \<le> ?budget \<and>
         (\<forall>a \<in> set attempts. 1 \<le> fst a \<and> fst a \<le> 4) \<and>
         nudged ?ws ?hs bsize (map snd attempts) \<and>
         length attempts \<le> search_steps evs \<and> search_steps evs \<le> Suc (length attempts))"
    if h: "resizes_settle D" "window_measured D" "viewport_measured D" "\<not> same_size actual req"
  proof -
    have pre: "(case None of
                  None \<Rightarrow> (0::int) = 0 \<and> (0::int) = 0 \<and> \<not> same_size actual req
                | Some lastSize \<Rightarrow> lastSize = \<lparr>s_width = s_width bsize + 0, s_height = s_height bsize + 0\<rparr>)"
      using h(4) by simp
    have nz: "?ws \<noteq> 0" "?hs \<noteq> 0" by simp_all
    from setWindowSize_attempts[OF h(1-3) nz pre c]
    obtain evs2 attempts where t2: "trace s1 = trace ?s0 @ evs2"
      and sa: "search_attempts ?ws ?hs bsize attempts evs2" and np: "r1 \<noteq> Pending"
      and ne: "attempts \<noteq> []"
      unfolding eta by blast
    have same: "evs2 = evs" using t t2 by simp
    have "fst (zoomWorkaround D req actual bsize s) \<noteq> Pending"
      using np unfolding Z by (cases r1) simp_all
    moreover have "filter is_move ?evs = concat (map attempt_events attempts)"
      "\<forall>a \<in> set attempts. 1 \<le> fst a \<and> fst a \<le> 4"
      "nudged ?ws ?hs bsize (map snd attempts)"
      "length attempts \<le> search_steps ?evs" "search_steps ?evs \<le> Suc (length attempts)"
      using sa unfolding same by (simp_all add: search_attempts_def search_steps_def)
    moreover from this(4) steps have "int (length attempts) \<le> ?budget" by linarith
    ultimately show ?thesis using tr ne unfolding snd_eq by blast
  qed
  have conj2: "\<exists>evs. trace (snd (zoomWorkaround D req actual bsize s)) = trace s @ evs \<and>
          int (search_steps evs) \<le> ?budget \<and> nudges ?ws ?hs bsize (requested evs) \<and>
          measurements evs \<le> search_steps evs \<and> length (requested evs) \<le> 4 * search_steps evs"
    using tr steps old unfolding snd_eq by blast
  show ?thesis using True conj2 new by blast
qed

lemma zoomed_run:
  "zoomWorkaround zoomed_browser \<lparr>s_width = 1024, s_height = 768\<rparr> \<lparr>s_width = 1024, s_height = 770\<rparr>
     \<lparr>s_width = 1040, s_height = 868\<rparr> \<lparr>browser = \<lparr>s_width = 1040, s_height = 868\<rparr>, trace = []\<rparr> =
   (Resolved (),
    \<lparr>browser = \<lparr>s_width = 1040, s_height = 865\<rparr>,
     trace = [Verbose ''Trying workaround for zoom...'',
              Verbose ''Retries left:'', Verbose ''Trying to set browser size to:'',
              WindowSetSize \<lparr>s_width = 1040, s_height = 867\<rparr>, Sleep 1000, WindowGetSize,
              LogLine ''Current browser size:'' \<lparr>s_width = 1040, s_height = 867\<rparr>,
              ViewportScript, Verbose ''Current viewport size:'',
              Verbose ''Retries left:'', Verbose ''Trying to set browser size to:'',
              WindowSetSize \<lparr>s_width = 1040, s_height = 866\<rparr>, Sleep 1000, WindowGetSize,
              LogLine ''Current browser size:'' \<lparr>s_width = 1040, s_height = 866\<rparr>,
              ViewportScript, Verbose ''Current viewport size:'',
              Verbose ''Retries left:'', Verbose ''Trying to set browser size to:'',
              WindowSetSize \<lparr>s_width = 1040, s_height = 865\<rparr>, Sleep 1000, WindowGetSize,
              LogLine ''Current browser size:'' \<lparr>s_width = 1040, s_height = 865\<rparr>,
              ViewportScript, Verbose ''Current viewport size:'',
              Verbose ''Retries left:'',
              Verbose ''Browser size is as required but viewport size does not match!'',
              Verbose ''Browser size: , Viewport size: '',
              Verbose ''Stopping viewport size attempts.'']\<rparr>)"
  by (simp add: sizer_defs zoomed_browser_def numeral_eq_Suc)

theorem C5_zoom_search_bounded_witness:
  "\<not> (\<bar>s_width \<lparr>s_width = 1024, s_height = 780\<rparr> - s_width \<lparr>s_width = 1024, s_height = 768\<rparr>\<bar> \<le> 3 \<and>
      \<bar>s_height \<lparr>s_width = 1024, s_height = 780\<rparr> - s_height \<lparr>s_width = 1024, s_height = 768\<rparr>\<bar> \<le> 3) \<and>
   zoomWorkaround zoomed_browser \<lparr>s_width = 1024, s_height = 768\<rparr> \<lparr>s_width = 1024, s_height = 780\<rparr>
       \<lparr>s_width = 1040, s_height = 868\<rparr> \<lparr>browser = \<lparr>s_width = 1040, s_height = 868\<rparr>, trace = []\<rparr> =
     (Rejected (Failure ''Failed to set viewport size!''),
      \<lparr>browser = \<lparr>s_width = 1040, s_height = 868\<rparr>, trace = []\<rparr>) \<and>
   int (search_steps (trace (snd (zoomWorkaround zoomed_browser \<lparr>s_width = 1024, s_height = 768\<rparr>
       \<lparr>s_width = 1024, s_height = 770\<rparr> \<lparr>s_width = 1040, s_height = 868\<rparr>
       \<lparr>browser = \<lparr>s_width = 1040, s_height = 868\<rparr>, trace = []\<rparr>)))) \<le> 4 \<and>
   resizes_settle zoomed_browser \<and> window_measured zoomed_browser \<and> viewport_measured zoomed_browser \<and>
   same_size \<lparr>s_width = 1024, s_height = 770\<rparr> \<lparr>s_width = 1024, s_height = 768\<rparr> = False \<and>
   fst (zoomWorkaround zoomed_browser \<lparr>s_width = 1024, s_height = 768\<rparr> \<lparr>s_width = 1024, s_height = 770\<rparr>
       \<lparr>s_width = 1040, s_height = 868\<rparr> \<lparr>browser = \<lparr>s_width = 1040, s_height = 868\<rparr>, trace = []\<rparr>)
     = Resolved () \<and>
   filter is_move (trace (snd (zoomWorkaround zoomed_browser \<lparr>s_width = 1024, s_height = 768\<rparr>
       \<lparr>s_width = 1024, s_height = 770\<rparr> \<lparr>s_width = 1040, s_height = 868\<rparr>
       \<lparr>browser = \<lparr>s_width = 1040, s_height = 868\<rparr>, trace = []\<rparr>))) =
     attempt_events (1, \<lparr>s_width = 1040, s_height = 867\<rparr>) @
     attempt_events (1, \<lparr>s_width = 1040, s_height = 866\<rparr>) @
     attempt_events (1, \<lparr>s_width = 1040, s_height = 865\<rparr>)"
proof -
  let ?req = "\<lparr>s_width = 1024, s_height = 768\<rparr>"
  let ?act = "\<lparr>s_width = 1024, s_height = 770\<rparr>"
  let ?b0 = "\<lparr>s_width = 1040, s_height = 868\<rparr>"
  let ?s0 = "\<lparr>browser = ?b0, trace = []\<rparr>"
  have far: "\<not> (\<bar>s_width \<lparr>s_width = 1024, s_height = 780\<rparr> - s_width ?req\<bar> \<le> 3 \<and>
                 \<bar>s_height \<lparr>s_width = 1024, s_height = 780\<rparr> - s_height ?req\<bar> \<le> 3)"
    by simp
  have 1: "zoomWorkaround zoomed_browser ?req \<lparr>s_width = 1024, s_height = 780\<rparr> ?b0 ?s0 =
             (Rejected (Failure ''Failed to set viewport size!''), ?s0)"
    using far C5_zoom_search_bounded[of "\<lparr>s_width = 1024, s_height = 780\<rparr>" ?req zoomed_browser ?b0 ?s0]
    by (rule mp[OF conjunct1, rotated])
  from C5_zoom_search_bounded[of ?act ?req zoomed_browser ?b0 ?s0, THEN conjunct2, THEN conjunct1]
  obtain evs where "trace (snd (zoomWorkaround zoomed_browser ?req ?act ?b0 ?s0)) = trace ?s0 @ evs"
    and "int (search_steps evs) \<le>
            \<bar>(if s_width ?act - s_width ?req = 0 then 1 else s_width ?act - s_width ?req) *
             (if s_height ?act - s_height ?req = 0 then 1 else s_height ?act - s_height ?req)\<bar> * 2"
    by (elim conjE exE)
  then have 2: "int (search_steps (trace (snd (zoomWorkaround zoomed_browser ?req ?act ?b0 ?s0)))) \<le> 4"
    by simp
  have answers: "resizes_settle zoomed_browser" "window_measured zoomed_browser"
    "viewport_measured zoomed_browser"
    by (simp_all add: resizes_settle_def window_measured_def viewport_measured_def zoomed_browser_def)
  have near: "\<bar>s_width ?act - s_width ?req\<bar> \<le> 3 \<and> \<bar>s_height ?act - s_height ?req\<bar> \<le> 3"
    "\<not> same_size ?act ?req"
    by (simp_all add: same_size_def)
  have "fst (zoomWorkaround zoomed_browser ?req ?act ?b0 ?s0) \<noteq> Pending \<and>
      (\<exists>evs attempts.
         trace (snd (zoomWorkaround zoomed_browser ?req ?act ?b0 ?s0)) = trace ?s0 @ evs \<and>
         filter is_move evs = concat (map attempt_events attempts) \<and>
         attempts \<noteq> [] \<and>
         int (length attempts) \<le>
           \<bar>(if s_width ?act - s_width ?req = 0 then 1 else s_width ?act - s_width ?req) *
            (if s_height ?act - s_height ?req = 0 then 1 else s_height ?act - s_height ?req)\<bar> * 2 \<and>
         (\<forall>a \<in> set attempts. 1 \<le> fst a \<and> fst a \<le> 4) \<and>
         nudged (if s_width ?act - s_width ?req > 0 then - 1 else 1)
                (if s_height ?act - s_height ?req > 0 then - 1 else 1) ?b0 (map snd attempts) \<and>
         length attempts \<le> search_steps evs \<and> search_steps evs \<le> Suc (length attempts))"
    using answers near
    by (intro C5_zoom_search_bounded[of ?act ?req zoomed_browser ?b0 ?s0,
                THEN conjunct2, THEN conjunct2, THEN mp] conjI) simp_all
  then have 3: "fst (zoomWorkaround zoomed_browser ?req ?act ?b0 ?s0) \<noteq> Pending" by (rule conjunct1)
  have 4: "fst (zoomWorkaround zoomed_browser ?req ?act ?b0 ?s0) = Resolved ()"
    "filter is_move (trace (snd (zoomWorkaround zoomed_browser ?req ?act ?b0 ?s0))) =
       attempt_events (1, \<lparr>s_width = 1040, s_height = 867\<rparr>) @
       attempt_events (1, \<lparr>s_width = 1040, s_height = 866\<rparr>) @
       attempt_events (1, \<lparr>s_width = 1040, s_height = 865\<rparr>)"
    using 3 by (simp_all add: zoomed_run attempt_events_def)
  show ?thesis using far 1 2 answers near(2) 4 by (intro conjI) simp_all
qed

section \<open>Full-page capture: proofs\<close>

subsection \<open>Steps that keep an observation of the world\<close>

lemma keeps_resolve: "keeps f (resolve x)"
  by (simp add: keeps_def resolve_def)

lemma keeps_reject: "keeps f (reject e)"
  by (simp add: keeps_def reject_def)

lemma keeps_then_p: "keeps f m \<Longrightarrow> (\<And>x. keeps f (g x)) \<Longrightarrow> keeps f (then_p m g)"
  unfolding keeps_def then_p_def
  by (auto split: prod.splits outcome.splits) (metis snd_conv)+

lemma keeps_then_or: "keeps f m \<Longrightarrow> (\<And>x. keeps f (g x)) \<Longrightarrow> (\<And>e. keeps f (h e)) \<Longrightarrow> keeps f (then_or m g h)"
  unfolding keeps_def then_or_def
  by (auto split: prod.splits outcome.splits) (metis snd_conv)+

lemma keeps_unwired: "keeps f m \<Longrightarrow> keeps f (unwired m)"
  unfolding keeps_def unwired_def
  by (auto split: prod.splits outcome.splits) (metis snd_conv)+

lemma keeps_if: "keeps f a \<Longrightarrow> keeps f b \<Longrightarrow> keeps f (if c then a else b)"
  by simp

lemma keeps_case_option: "keeps f a \<Longrightarrow> (\<And>y. keeps f (b y)) \<Longrightarrow> keeps f (case x of None \<Rightarrow> a | Some y \<Rightarrow> b y)"
  by (cases x) simp_all

lemma keeps_case_prod: "(\<And>a b. keeps f (g a b)) \<Longrightarrow> keeps f (case p of (a, b) \<Rightarrow> g a b)"
  by (cases p) simp

lemma keeps_case_sum: "(\<And>a. keeps f (g a)) \<Longrightarrow> (\<And>b. keeps f (h b)) \<Longrightarrow> keeps f (case x of Inl a \<Rightarrow> g a | Inr b \<Rightarrow> h b)"
  by (cases x) simp_all

lemma keeps_on_image: "keeps f (on_image operation img)"
  by (simp add: keeps_def on_image_def split: prod.splits outcome.splits)

lemma keeps_image_getSize: "keeps f (image_getSize E img)"
  by (simp add: image_getSize_def keeps_reject keeps_resolve split: sum.splits)

lemma keeps_external:
  assumes "\<And>w. f (effect (w\<lparr>calls := calls w @ [c]\<rparr>)) = f w"
    and "\<And>w. f (w\<lparr>calls := calls w @ [c]\<rparr>) = f w"
  shows "keeps f (external E c result effect)"
  using assms by (simp add: keeps_def external_def Let_def split: option.splits)

lemma keeps_delay:
  assumes "\<And>w. f (w\<lparr>calls := calls w @ [Delay ms]\<rparr>) = f w"
  shows "keeps f (delay ms)"
  using assms by (simp add: keeps_def delay_def)

lemmas keeps_intros =
  keeps_resolve keeps_reject keeps_then_p keeps_then_or keeps_unwired keeps_if keeps_case_option
  keeps_case_prod keeps_case_sum keeps_on_image keeps_image_getSize keeps_external keeps_delay

lemma keeps_debug_save_page: "keeps page_state (debug_save E sd img)"
  unfolding debug_save_def by (intro keeps_intros)

lemma keeps_debug_save_tiling: "keeps tiling_calls (debug_save E sd img)"
  unfolding debug_save_def by (intro keeps_intros)

lemma captureViewport_keeps_page_state: "keeps page_state (captureViewport E cfg region sd)"
  unfolding captureViewport_def Let_def
  by (intro keeps_intros keeps_debug_save_page) (simp_all add: page_state_def)

lemma captureViewport_keeps_tiling_calls: "keeps tiling_calls (captureViewport E cfg region sd)"
  unfolding captureViewport_def Let_def
  by (intro keeps_intros keeps_debug_save_tiling) (simp_all add: tiling_calls_def)

subsection \<open>What each step of the capture does to the styles and the scroll position\<close>

lemma then_p_Resolved:
  "then_p m g w = (Resolved y, w') \<longleftrightarrow> (\<exists>x w1. m w = (Resolved x, w1) \<and> g x w1 = (Resolved y, w'))"
  by (auto simp: then_p_def split: prod.splits outcome.splits)

lemma keepsD: "m w = (r, w1) \<Longrightarrow> keeps f m \<Longrightarrow> f w1 = f w"
  by (metis keeps_def snd_conv)

lemma keeps_styles: "keeps page_state m \<Longrightarrow> keeps styles m"
  by (simp add: keeps_def page_state_def styles_def)

lemma keeps_throwing:
  assumes "\<And>w. f (w\<lparr>calls := calls w @ [c]\<rparr>) = f w"
  shows "keeps f (throwing c r)"
  using assms by (simp add: keeps_def throwing_def split: sum.splits)

lemma on_image_world: "on_image operation img w = (r, w1) \<Longrightarrow> w1 = w"
  by (auto simp: on_image_def split: prod.splits outcome.splits)

lemma resolve_eq: "resolve x w = (r, w1) \<longleftrightarrow> r = Resolved x \<and> w1 = w"
  by (auto simp: resolve_def)

lemma setPosition_keeps_styles: "keeps styles (setPosition E location)"
  unfolding setPosition_def by (intro keeps_intros) (simp_all add: styles_def)

lemma getCurrentPosition_keeps: "keeps page_state (getCurrentPosition E)"
  unfolding getCurrentPosition_def by (intro keeps_intros) (simp_all add: page_state_def)

lemma processPart_keeps_styles:
  "keeps styles (processPart E cfg part parts imageObj region sd)"
  unfolding processPart_def Let_def
  by (intro keeps_intros setPosition_keeps_styles keeps_styles[OF getCurrentPosition_keeps]
        keeps_styles[OF captureViewport_keeps_page_state])

lemma processParts_keeps_styles:
  "keeps styles (processParts E cfg imageObj region sd ps parts)"
  by (induction ps arbitrary: parts) (auto intro!: keeps_intros processPart_keeps_styles)

lemma tilingStage_keeps_styles:
  "keeps styles (tilingStage E cfg entire region sd screenshot imageObject)"
  unfolding tilingStage_def Let_def
  by (intro keeps_intros keeps_throwing processParts_keeps_styles) (simp_all add: styles_def)

lemma region_step_keeps_styles:
  "keeps styles (case regionProvider E of
               Some getRegionInLocation \<Rightarrow>
                 then_p (captureViewport E cfg None False) (\<lambda>image'.
                 then_p (external E GetRegionInLocation (getRegionInLocation image') (\<lambda>w. w))
                   (\<lambda>region. resolve (Some region)))
             | None \<Rightarrow> resolve None)"
  by (intro keeps_intros keeps_styles[OF captureViewport_keeps_page_state]) (simp_all add: styles_def)

lemma measure_keeps_page_state:
  "keeps page_state (then_or (external E c result (\<lambda>w. w)) g h)"
  if "\<And>x. keeps page_state (g x)" "\<And>e. keeps page_state (h e)"
  using that by (intro keeps_intros) (simp_all add: page_state_def)

lemma measure_world:
  assumes "then_or (external E c result (\<lambda>w. w)) (\<lambda>x. resolve x) (\<lambda>_. resolve d) w = (r, w1)"
  shows "w1 = w\<lparr>calls := calls w @ [c]\<rparr>"
  using assms
  by (auto simp: then_or_def external_def resolve_def Let_def split: option.splits)


lemma hideScrollbarsStep_body:
  assumes "hideScrollbarsStep E cfg h w = (Resolved (oo, obo), w1)"
  shows "position w1 = position w \<and>
         (if h then oo = Some (doc_overflow w) else oo = None \<and> doc_overflow w1 = doc_overflow w) \<and>
         (if h \<and> useCssTransition cfg \<and>
             isBodyOverflowHidden E
               (w\<lparr>doc_overflow := ''hidden'', calls := calls w @ [SetOverflow (Some ''hidden''), Delay 100]\<rparr>)
          then obo = Some (body_overflow w)
          else obo = None \<and> body_overflow w1 = body_overflow w)"
  using assms
  by (auto simp: hideScrollbarsStep_def setOverflow_def setBodyOverflow_def external_def delay_def
      then_p_def resolve_def Let_def split: if_splits option.splits)


lemma scrollToOriginStep_spec:
  assumes "scrollToOriginStep E cfg w = (Resolved op, w1)"
  shows "styles w1 = styles w \<and>
         (if fullPage cfg then op = Some (position w) \<and> position w1 = \<lparr>l_x = 0, l_y = 0\<rparr>
          else op = None \<and> position w1 = position w)"
  using assms
  by (auto simp: scrollToOriginStep_def getState_def setPosition_def getCurrentPosition_def
      external_def then_p_def resolve_def reject_def Let_def styles_def
      split: if_splits option.splits)

lemma restore_overflow_spec:
  assumes "(if h then then_p (setOverflow E oo) (\<lambda>_. resolve ()) else resolve ()) w = (Resolved u, w1)"
  shows "body_overflow w1 = body_overflow w \<and> position w1 = position w \<and>
         doc_overflow w1 = (if h then (case oo of None \<Rightarrow> ''undefined'' | Some v \<Rightarrow> v) else doc_overflow w)"
  using assms
  by (auto simp: setOverflow_def external_def delay_def then_p_def resolve_def Let_def
      split: if_splits option.splits)

lemma restore_body_spec:
  assumes "(case obo of None \<Rightarrow> resolve ()
            | Some v \<Rightarrow> if v \<noteq> [] then then_p (setBodyOverflow E (Some v)) (\<lambda>_. resolve ())
                        else resolve ()) w = (Resolved u, w1)"
  shows "doc_overflow w1 = doc_overflow w \<and> position w1 = position w \<and>
         body_overflow w1 = (case obo of None \<Rightarrow> body_overflow w
                             | Some v \<Rightarrow> if v \<noteq> [] then v else body_overflow w)"
  using assms
  by (auto simp: setBodyOverflow_def external_def delay_def then_p_def resolve_def Let_def
      split: if_splits option.splits)

lemma restore_position_spec:
  assumes "(if fp then case op of None \<Rightarrow> resolve ()
               | Some state \<Rightarrow> then_p (restoreState E state) (\<lambda>_. resolve ())
            else resolve ()) w = (Resolved u, w1)"
  shows "styles w1 = styles w \<and>
         position w1 = (if fp then (case op of None \<Rightarrow> position w | Some state \<Rightarrow> state) else position w)"
  using assms
  by (auto simp: restoreState_def external_def then_p_def resolve_def Let_def styles_def
      split: if_splits option.splits)

lemma final_crop_world:
  assumes "(if c then case region of None \<Rightarrow> resolve shot
               | Some r \<Rightarrow> then_p (on_image (operation r) shot) (\<lambda>p. resolve (snd p))
            else resolve shot) w = (res, w1)"
  shows "w1 = w"
  using assms
  by (auto simp: then_p_def resolve_def on_image_def split: if_splits option.splits prod.splits outcome.splits)

subsection \<open>The capture is its three stages in a row\<close>

lemma then_p_assoc: "then_p (then_p m f) g = then_p m (\<lambda>x. then_p (f x) g)"
  by (rule ext) (simp add: then_p_def split: prod.splits outcome.splits)

lemma then_p_resolve: "then_p (resolve x) f = f x"
  by (rule ext) (simp add: then_p_def resolve_def)

lemma then_p_run: "m w = (Resolved x, w1) \<Longrightarrow> then_p m f w = f x w1"
  by (simp add: then_p_def)



lemma keeps_snd: "keeps f m \<Longrightarrow> f (snd (m w)) = f w"
  by (simp add: keeps_def)

lemma getScreenshot_stages:
  "getScreenshot E cfg sd =
     then_p (originCapture E cfg sd) (\<lambda>v.
     then_p (tilingStage E cfg (c_entirePageSize v) (c_regionInScreenshot v) sd
               (c_screenshot v) (c_imageObject v))
       (restoreStage E cfg v))"
  unfolding getScreenshot_def originCapture_def restoreStage_def Let_def
  by (simp add: then_p_assoc then_p_resolve split_def cong: if_cong option.case_cong)

lemma getScreenshot_stops_with_originCapture:
  assumes "originCapture E cfg sd w = (r, w1)" "\<forall>v. r \<noteq> Resolved v"
  shows "snd (getScreenshot E cfg sd w) = w1 \<and> (\<forall>img. fst (getScreenshot E cfg sd w) \<noteq> Resolved img)"
  using assms by (cases r) (simp_all add: getScreenshot_stages then_p_def)

lemma getScreenshot_stops_with_tilingStage:
  assumes "originCapture E cfg sd w = (Resolved v, w0)"
    and "tilingStage E cfg (c_entirePageSize v) (c_regionInScreenshot v) sd (c_screenshot v)
           (c_imageObject v) w0 = (r, w1)"
    and "\<forall>img. r \<noteq> Resolved img"
  shows "snd (getScreenshot E cfg sd w) = w1 \<and> (\<forall>img. fst (getScreenshot E cfg sd w) \<noteq> Resolved img)"
  using assms by (cases r) (simp_all add: getScreenshot_stages then_p_def)

subsection \<open>Captures of a page through a viewport of 1000 by 800\<close>

text \<open>
  The page is 1000 by 2000.  With \<open>stuck_provider\<close> the scroll to the origin ends at \<open>(0, 5)\<close>
  and the capture is rejected there; with \<open>clamping_provider\<close> the capture goes through three
  tiles and is stitched, also when the overflow of the body is changed on the way; when the
  stitcher fails, the capture never settles.
\<close>

lemmas capture_defs =
  getScreenshot_def originCapture_def restoreStage_def hideScrollbarsStep_def scrollToOriginStep_def
  captureViewport_def tilingStage_def processPart_def setOverflow_def setBodyOverflow_def
  getState_def setPosition_def getCurrentPosition_def restoreState_def external_def delay_def
  throwing_def then_p_def then_or_def unwired_def resolve_def reject_def on_image_def
  image_getSize_def debug_save_def asObject_def packImage_def retrieveImageSize_def getSize_def
  setCoordinates_def MutableImage_new_def test_collaborators_def test_config_def test_world_def
  small_page_collaborators_def css_collaborators_def css_config_def unstitched_collaborators_def
  sized_ImageUtils_def clamping_provider_def stuck_provider_def getSubRegions_def
  getSubRegionsWithVaryingSize_def varying_rows.simps varying_cols.simps Region_new_def
  greaterThanZero_def greaterThanOrEqualToZero_def Let_def

lemma stuck_run:
  "getScreenshot (test_collaborators stuck_provider) test_config False test_world =
   (Rejected (Failure ''Could not scroll to the x/y corner of the screen''),
    \<lparr>doc_overflow = ''hidden'', body_overflow = ''auto'', position = \<lparr>l_x = 0, l_y = 5\<rparr>,
     calls = [GetEntireSize, GetDevicePixelRatio, SetOverflow (Some ''hidden''), Delay 100, GetState,
              SetPosition \<lparr>l_x = 0, l_y = 0\<rparr>, GetCurrentPosition]\<rparr>)"
  by (simp add: capture_defs)

lemma stuck_origin:
  "originCapture (test_collaborators stuck_provider) test_config False test_world =
   (Rejected (Failure ''Could not scroll to the x/y corner of the screen''),
    \<lparr>doc_overflow = ''hidden'', body_overflow = ''auto'', position = \<lparr>l_x = 0, l_y = 5\<rparr>,
     calls = [GetEntireSize, GetDevicePixelRatio, SetOverflow (Some ''hidden''), Delay 100, GetState,
              SetPosition \<lparr>l_x = 0, l_y = 0\<rparr>, GetCurrentPosition]\<rparr>)"
  by (simp add: capture_defs)

lemma clamped_run:
  "getScreenshot (test_collaborators clamping_provider) test_config False test_world =
   (Resolved (MutableImage_new (1000, 2000)),
    \<lparr>doc_overflow = ''scroll'', body_overflow = ''auto'', position = \<lparr>l_x = 0, l_y = 300\<rparr>,
     calls = [GetEntireSize, GetDevicePixelRatio, SetOverflow (Some ''hidden''), Delay 100, GetState,
              SetPosition \<lparr>l_x = 0, l_y = 0\<rparr>, GetCurrentPosition, Delay 0, TakeScreenshot,
              GetCurrentScrollPosition,
              GetSubRegions \<lparr>r_left = 0, r_top = 0, r_width = 1000, r_height = 2000,
                              r_coordinatesType = SCREENSHOT_AS_IS\<rparr>
                \<lparr>s_width = 1000, s_height = 750\<rparr> False,
              SetPosition \<lparr>l_x = 0, l_y = 750\<rparr>, GetCurrentPosition, Delay 0, TakeScreenshot,
              GetCurrentScrollPosition,
              SetPosition \<lparr>l_x = 0, l_y = 1500\<rparr>, GetCurrentPosition, Delay 0, TakeScreenshot,
              GetCurrentScrollPosition, StitchImage, SetOverflow (Some ''scroll''), Delay 100,
              RestoreState \<lparr>l_x = 0, l_y = 300\<rparr>]\<rparr>)"
  by (simp add: capture_defs)

lemma css_run:
  "getScreenshot css_collaborators css_config False test_world =
   (Resolved (MutableImage_new (1000, 2000)),
    \<lparr>doc_overflow = ''scroll'', body_overflow = ''auto'', position = \<lparr>l_x = 0, l_y = 300\<rparr>,
     calls = [GetEntireSize, GetDevicePixelRatio, SetOverflow (Some ''hidden''), Delay 100,
              GetIsBodyOverflowHidden, SetBodyOverflow (Some ''initial''), Delay 100, GetState,
              SetPosition \<lparr>l_x = 0, l_y = 0\<rparr>, GetCurrentPosition, Delay 0, TakeScreenshot,
              GetCurrentScrollPosition,
              GetSubRegions \<lparr>r_left = 0, r_top = 0, r_width = 1000, r_height = 2000,
                              r_coordinatesType = SCREENSHOT_AS_IS\<rparr>
                \<lparr>s_width = 1000, s_height = 750\<rparr> False,
              SetPosition \<lparr>l_x = 0, l_y = 750\<rparr>, GetCurrentPosition, Delay 0, TakeScreenshot,
              GetCurrentScrollPosition,
              SetPosition \<lparr>l_x = 0, l_y = 1500\<rparr>, GetCurrentPosition, Delay 0, TakeScreenshot,
              GetCurrentScrollPosition, StitchImage, SetOverflow (Some ''scroll''), Delay 100,
              SetBodyOverflow (Some ''auto''), Delay 100,
              RestoreState \<lparr>l_x = 0, l_y = 300\<rparr>]\<rparr>)"
  by (simp add: capture_defs)

lemma unstitched_origin:
  "originCapture unstitched_collaborators test_config False test_world =
   (Resolved
      \<lparr>c_entirePageSize = \<lparr>s_width = 1000, s_height = 2000\<rparr>,
       c_originalOverflow = Some ''scroll'', c_originalBodyOverflow = None,
       c_originalPosition = Some \<lparr>l_x = 0, l_y = 300\<rparr>, c_regionInScreenshot = None,
       c_imageObject = \<lparr>io_imageBuffer = Some (1000, 800), io_width = 1000, io_height = 800\<rparr>,
       c_screenshot =
         \<lparr>mi_imageBuffer = Some (1000, 800), mi_isParsed = False, mi_imageBmp = None,
          mi_width = 1000, mi_height = 800, mi_top = 0, mi_left = 0, mi_decodes = 0\<rparr>\<rparr>,
    \<lparr>doc_overflow = ''hidden'', body_overflow = ''auto'', position = \<lparr>l_x = 0, l_y = 0\<rparr>,
     calls = [GetEntireSize, GetDevicePixelRatio, SetOverflow (Some ''hidden''), Delay 100, GetState,
              SetPosition \<lparr>l_x = 0, l_y = 0\<rparr>, GetCurrentPosition, Delay 0, TakeScreenshot,
              GetCurrentScrollPosition]\<rparr>)"
  by (simp add: capture_defs)

lemma unstitched_tiling:
  "tilingStage unstitched_collaborators test_config \<lparr>s_width = 1000, s_height = 2000\<rparr> None False
     \<lparr>mi_imageBuffer = Some (1000, 800), mi_isParsed = False, mi_imageBmp = None,
      mi_width = 1000, mi_height = 800, mi_top = 0, mi_left = 0, mi_decodes = 0\<rparr>
     \<lparr>io_imageBuffer = Some (1000, 800), io_width = 1000, io_height = 800\<rparr>
     \<lparr>doc_overflow = ''hidden'', body_overflow = ''auto'', position = \<lparr>l_x = 0, l_y = 0\<rparr>,
      calls = [GetEntireSize, GetDevicePixelRatio, SetOverflow (Some ''hidden''), Delay 100, GetState,
               SetPosition \<lparr>l_x = 0, l_y = 0\<rparr>, GetCurrentPosition, Delay 0, TakeScreenshot,
               GetCurrentScrollPosition]\<rparr> =
   (Pending,
    \<lparr>doc_overflow = ''hidden'', body_overflow = ''auto'', position = \<lparr>l_x = 0, l_y = 1200\<rparr>,
     calls = [GetEntireSize, GetDevicePixelRatio, SetOverflow (Some ''hidden''), Delay 100, GetState,
              SetPosition \<lparr>l_x = 0, l_y = 0\<rparr>, GetCurrentPosition, Delay 0, TakeScreenshot,
              GetCurrentScrollPosition,
              GetSubRegions \<lparr>r_left = 0, r_top = 0, r_width = 1000, r_height = 2000,
                              r_coordinatesType = SCREENSHOT_AS_IS\<rparr>
                \<lparr>s_width = 1000, s_height = 750\<rparr> False,
              SetPosition \<lparr>l_x = 0, l_y = 750\<rparr>, GetCurrentPosition, Delay 0, TakeScreenshot,
              GetCurrentScrollPosition,
              SetPosition \<lparr>l_x = 0, l_y = 1500\<rparr>, GetCurrentPosition, Delay 0, TakeScreenshot,
              GetCurrentScrollPosition, StitchImage]\<rparr>)"
  by (simp add: capture_defs)

lemma small_page_origin:
  "originCapture small_page_collaborators test_config False test_world =
   (Resolved
      \<lparr>c_entirePageSize = \<lparr>s_width = 1000, s_height = 800\<rparr>,
       c_originalOverflow = Some ''scroll'', c_originalBodyOverflow = None,
       c_originalPosition = Some \<lparr>l_x = 0, l_y = 300\<rparr>, c_regionInScreenshot = None,
       c_imageObject = \<lparr>io_imageBuffer = Some (1000, 800), io_width = 1000, io_height = 800\<rparr>,
       c_screenshot =
         \<lparr>mi_imageBuffer = Some (1000, 800), mi_isParsed = False, mi_imageBmp = None,
          mi_width = 1000, mi_height = 800, mi_top = 0, mi_left = 0, mi_decodes = 0\<rparr>\<rparr>,
    \<lparr>doc_overflow = ''hidden'', body_overflow = ''auto'', position = \<lparr>l_x = 0, l_y = 0\<rparr>,
     calls = [GetEntireSize, GetDevicePixelRatio, SetOverflow (Some ''hidden''), Delay 100, GetState,
              SetPosition \<lparr>l_x = 0, l_y = 0\<rparr>, GetCurrentPosition, Delay 0, TakeScreenshot,
              GetCurrentScrollPosition]\<rparr>)"
  by (simp add: capture_defs)

lemma small_page_run:
  "getScreenshot small_page_collaborators test_config False test_world =
   (Resolved
      \<lparr>mi_imageBuffer = Some (1000, 800), mi_isParsed = False, mi_imageBmp = None,
       mi_width = 1000, mi_height = 800, mi_top = 0, mi_left = 0, mi_decodes = 0\<rparr>,
    \<lparr>doc_overflow = ''scroll'', body_overflow = ''auto'', position = \<lparr>l_x = 0, l_y = 300\<rparr>,
     calls = [GetEntireSize, GetDevicePixelRatio, SetOverflow (Some ''hidden''), Delay 100, GetState,
              SetPosition \<lparr>l_x = 0, l_y = 0\<rparr>, GetCurrentPosition, Delay 0, TakeScreenshot,
              GetCurrentScrollPosition, SetOverflow (Some ''scroll''), Delay 100,
              RestoreState \<lparr>l_x = 0, l_y = 300\<rparr>]\<rparr>)"
  by (simp add: capture_defs)

lemma viewport_origin:
  "originCapture (test_collaborators clamping_provider) (test_config\<lparr>fullPage := False\<rparr>) False
     test_world =
   (Resolved
      \<lparr>c_entirePageSize = \<lparr>s_width = 1000, s_height = 2000\<rparr>,
       c_originalOverflow = Some ''scroll'', c_originalBodyOverflow = None,
       c_originalPosition = None, c_regionInScreenshot = None,
       c_imageObject = \<lparr>io_imageBuffer = Some (1000, 800), io_width = 1000, io_height = 800\<rparr>,
       c_screenshot =
         \<lparr>mi_imageBuffer = Some (1000, 800), mi_isParsed = False, mi_imageBmp = None,
          mi_width = 1000, mi_height = 800, mi_top = 300, mi_left = 0, mi_decodes = 0\<rparr>\<rparr>,
    \<lparr>doc_overflow = ''hidden'', body_overflow = ''auto'', position = \<lparr>l_x = 0, l_y = 300\<rparr>,
     calls = [GetEntireSize, GetDevicePixelRatio, SetOverflow (Some ''hidden''), Delay 100,
              Delay 0, TakeScreenshot, GetCurrentScrollPosition]\<rparr>)"
  by (simp add: capture_defs)

lemma viewport_run:
  "getScreenshot (test_collaborators clamping_provider) (test_config\<lparr>fullPage := False\<rparr>) False test_world =
   (Resolved \<lparr>mi_imageBuffer = Some (1000, 800), mi_isParsed = False, mi_imageBmp = None,
              mi_width = 1000, mi_height = 800, mi_top = 300, mi_left = 0, mi_decodes = 0\<rparr>,
    \<lparr>doc_overflow = ''scroll'', body_overflow = ''auto'', position = \<lparr>l_x = 0, l_y = 300\<rparr>,
     calls = [GetEntireSize, GetDevicePixelRatio, SetOverflow (Some ''hidden''), Delay 100,
              Delay 0, TakeScreenshot, GetCurrentScrollPosition,
              SetOverflow (Some ''scroll''), Delay 100]\<rparr>)"
  by (simp add: capture_defs)


lemma unstitched_run:
  "getScreenshot unstitched_collaborators test_config False test_world =
   (Pending,
    \<lparr>doc_overflow = ''hidden'', body_overflow = ''auto'', position = \<lparr>l_x = 0, l_y = 1200\<rparr>,
     calls = [GetEntireSize, GetDevicePixelRatio, SetOverflow (Some ''hidden''), Delay 100, GetState,
              SetPosition \<lparr>l_x = 0, l_y = 0\<rparr>, GetCurrentPosition, Delay 0, TakeScreenshot,
              GetCurrentScrollPosition,
              GetSubRegions \<lparr>r_left = 0, r_top = 0, r_width = 1000, r_height = 2000,
                              r_coordinatesType = SCREENSHOT_AS_IS\<rparr>
                \<lparr>s_width = 1000, s_height = 750\<rparr> False,
              SetPosition \<lparr>l_x = 0, l_y = 750\<rparr>, GetCurrentPosition, Delay 0, TakeScreenshot,
              GetCurrentScrollPosition,
              SetPosition \<lparr>l_x = 0, l_y = 1500\<rparr>, GetCurrentPosition, Delay 0, TakeScreenshot,
              GetCurrentScrollPosition, StitchImage]\<rparr>)"
  by (simp add: capture_defs)

subsection \<open>Claim C3: the overflow styles and the scroll state after a capture\<close>

text \<open>
  C3, as stated, fails.  The chain of \<open>getScreenshot\<close> has no rejection handler after the
  scrollbars are hidden, so the restoring steps run only when every step before them resolved.
  In this capture the document overflow was \<open>scroll\<close> and the page was scrolled to \<open>(0, 300)\<close>;
  the scroll to the origin stops at \<open>(0, 5)\<close>, the capture is rejected, and the document overflow
  is left \<open>hidden\<close> and the page at \<open>(0, 5)\<close>.
\<close>

theorem C3_failed_capture_leaves_scrollbars_hidden_counterexample:
  "fst (getScreenshot (test_collaborators stuck_provider) test_config False test_world) =
     Rejected (Failure ''Could not scroll to the x/y corner of the screen'') \<and>
   doc_overflow test_world = ''scroll'' \<and>
   doc_overflow (snd (getScreenshot (test_collaborators stuck_provider) test_config False test_world))
     = ''hidden'' \<and>
   position test_world = \<lparr>l_x = 0, l_y = 300\<rparr> \<and>
   position (snd (getScreenshot (test_collaborators stuck_provider) test_config False test_world))
     = \<lparr>l_x = 0, l_y = 5\<rparr>"
  by (simp add: stuck_run) (simp add: test_world_def)

text \<open>
  C3, amended.  For every capture that resolves, whatever the collaborators do: the document
  overflow is what it was before the capture; the body overflow is what it was, when the capture
  did not change it or its value before the capture was a non-empty string; and for a full page
  the scroll position of the page is the one saved on entry.  The restoring steps are the last
  steps of the chain and run on no other path: when the steps up to the capture of the viewport
  do not resolve, or the tiling does not, the capture does not resolve either and leaves the
  world as that stage left it.
\<close>

theorem C3_successful_capture_restores:
  "(\<forall>img w'. getScreenshot E cfg sd w = (Resolved img, w') \<longrightarrow>
      doc_overflow w' = doc_overflow w \<and>
      (body_overflow w \<noteq> [] \<or> \<not> bodyOverflowChanged E cfg w \<longrightarrow> body_overflow w' = body_overflow w) \<and>
      (fullPage cfg \<longrightarrow> position w' = position w)) \<and>
   (\<forall>r wf. originCapture E cfg sd w = (r, wf) \<and> (\<forall>v. r \<noteq> Resolved v) \<longrightarrow>
      snd (getScreenshot E cfg sd w) = wf \<and> (\<forall>img. fst (getScreenshot E cfg sd w) \<noteq> Resolved img)) \<and>
   (\<forall>v wv r wf.
      originCapture E cfg sd w = (Resolved v, wv) \<and>
      tilingStage E cfg (c_entirePageSize v) (c_regionInScreenshot v) sd (c_screenshot v)
        (c_imageObject v) wv = (r, wf) \<and>
      (\<forall>img. r \<noteq> Resolved img) \<longrightarrow>
      snd (getScreenshot E cfg sd w) = wf \<and> (\<forall>img. fst (getScreenshot E cfg sd w) \<noteq> Resolved img))"
proof (intro conjI allI impI)
  fix img w'
  assume "getScreenshot E cfg sd w = (Resolved img, w')"
  then have "doc_overflow w' = doc_overflow w \<and>
      (body_overflow w \<noteq> [] \<or> \<not> bodyOverflowChanged E cfg w \<longrightarrow> body_overflow w' = body_overflow w) \<and>
      (fullPage cfg \<longrightarrow> position w' = position w)"
    unfolding getScreenshot_def Let_def then_p_Resolved case_prod_beta
  proof (elim exE conjE, goal_cases)
    case (1 entire w1 ratio w2 saved w3 op w4 region w5 shot w6 obj w7 shot2 w8 u1 w9 u2 w10 u3 w11 out w12)
    have a: "w2 = w\<lparr>calls := calls w @ [GetEntireSize, GetDevicePixelRatio]\<rparr>"
      using measure_world[OF 1(1)] measure_world[OF 1(2)] by simp
    have b: "position w3 = position w2 \<and>
           (if (case hideScrollbars cfg of None \<Rightarrow> useCssTransition cfg | Some h \<Rightarrow> h)
            then fst saved = Some (doc_overflow w2)
            else fst saved = None \<and> doc_overflow w3 = doc_overflow w2) \<and>
           (if bodyOverflowChanged E cfg w then snd saved = Some (body_overflow w2)
            else snd saved = None \<and> body_overflow w3 = body_overflow w2)"
      using hideScrollbarsStep_body[of E cfg _ w2 "fst saved" "snd saved" w3] 1(3)
      by (simp add: a bodyOverflowChanged_def)
    note c = scrollToOriginStep_spec[OF 1(4)]
    have d: "styles w8 = styles w4"
      using keepsD[OF 1(5) region_step_keeps_styles]
        keepsD[OF 1(6) keeps_styles[OF captureViewport_keeps_page_state]]
        on_image_world[OF 1(7)] keepsD[OF 1(8) tilingStage_keeps_styles]
      by simp
    note e = restore_overflow_spec[OF 1(9)]
    note f = restore_body_spec[OF 1(10)]
    note g = restore_position_spec[OF 1(11)]
    have h: "w' = w11" using final_crop_world[OF 1(12)] 1(13) by (simp add: resolve_eq)
    show ?case
      using b c d e f g unfolding h a
      by (auto simp: page_state_def styles_def split: if_splits option.splits)
  qed
  then show "doc_overflow w' = doc_overflow w"
    and "body_overflow w \<noteq> [] \<or> \<not> bodyOverflowChanged E cfg w \<Longrightarrow> body_overflow w' = body_overflow w"
    and "fullPage cfg \<Longrightarrow> position w' = position w"
    by blast+
next
  fix r w1
  assume "originCapture E cfg sd w = (r, w1) \<and> (\<forall>v. r \<noteq> Resolved v)"
  then have "snd (getScreenshot E cfg sd w) = w1 \<and> (\<forall>img. fst (getScreenshot E cfg sd w) \<noteq> Resolved img)"
    using getScreenshot_stops_with_originCapture[of E cfg sd w r w1] by blast
  then show "snd (getScreenshot E cfg sd w) = w1" and "\<And>img. fst (getScreenshot E cfg sd w) \<noteq> Resolved img"
    by blast+
next
  fix v w0 r w1
  assume "originCapture E cfg sd w = (Resolved v, w0) \<and>
      tilingStage E cfg (c_entirePageSize v) (c_regionInScreenshot v) sd (c_screenshot v)
        (c_imageObject v) w0 = (r, w1) \<and>
      (\<forall>img. r \<noteq> Resolved img)"
  then have "snd (getScreenshot E cfg sd w) = w1 \<and> (\<forall>img. fst (getScreenshot E cfg sd w) \<noteq> Resolved img)"
    using getScreenshot_stops_with_tilingStage[of E cfg sd w v w0 r w1] by blast
  then show "snd (getScreenshot E cfg sd w) = w1" and "\<And>img. fst (getScreenshot E cfg sd w) \<noteq> Resolved img"
    by blast+
qed

theorem C3_successful_capture_restores_witness:
  "bodyOverflowChanged css_collaborators css_config test_world \<and>
   body_overflow test_world = ''auto'' \<and>
   fullPage css_config \<and>
   fst (getScreenshot css_collaborators css_config False test_world) =
     Resolved (MutableImage_new (1000, 2000)) \<and>
   SetBodyOverflow (Some ''initial'')
     \<in> set (calls (snd (getScreenshot css_collaborators css_config False test_world))) \<and>
   doc_overflow (snd (getScreenshot css_collaborators css_config False test_world))
     = doc_overflow test_world \<and>
   body_overflow (snd (getScreenshot css_collaborators css_config False test_world))
     = body_overflow test_world \<and>
   position (snd (getScreenshot css_collaborators css_config False test_world))
     = position test_world \<and>
   fst (originCapture (test_collaborators stuck_provider) test_config False test_world) =
     Rejected (Failure ''Could not scroll to the x/y corner of the screen'') \<and>
   snd (getScreenshot (test_collaborators stuck_provider) test_config False test_world) =
     snd (originCapture (test_collaborators stuck_provider) test_config False test_world) \<and>
   fst (getScreenshot unstitched_collaborators test_config False test_world) = Pending \<and>
   doc_overflow (snd (getScreenshot unstitched_collaborators test_config False test_world)) = ''hidden'' \<and>
   position (snd (getScreenshot unstitched_collaborators test_config False test_world))
     = \<lparr>l_x = 0, l_y = 1200\<rparr>"
proof -
  have changed: "bodyOverflowChanged css_collaborators css_config test_world"
    by (simp add: bodyOverflowChanged_def css_collaborators_def css_config_def test_config_def)
  have before: "body_overflow test_world = ''auto''" "fullPage css_config"
    by (simp_all add: test_world_def css_config_def test_config_def)
  have resolved: "doc_overflow (snd (getScreenshot css_collaborators css_config False test_world))
                    = doc_overflow test_world \<and>
        (body_overflow test_world \<noteq> [] \<or> \<not> bodyOverflowChanged css_collaborators css_config test_world
           \<longrightarrow> body_overflow (snd (getScreenshot css_collaborators css_config False test_world))
                 = body_overflow test_world) \<and>
        (fullPage css_config
           \<longrightarrow> position (snd (getScreenshot css_collaborators css_config False test_world))
                 = position test_world)"
    by (rule C3_successful_capture_restores
              [where E = css_collaborators and cfg = css_config and sd = False and w = test_world,
               THEN conjunct1, rule_format])
       (simp add: css_run)
  have no_origin: "snd (getScreenshot (test_collaborators stuck_provider) test_config False test_world) =
          snd (originCapture (test_collaborators stuck_provider) test_config False test_world) \<and>
        (\<forall>img. fst (getScreenshot (test_collaborators stuck_provider) test_config False test_world)
               \<noteq> Resolved img)"
    by (rule C3_successful_capture_restores
              [where E = "test_collaborators stuck_provider" and cfg = test_config and sd = False
                 and w = test_world,
               THEN conjunct2, THEN conjunct1, rule_format,
               where r = "Rejected (Failure ''Could not scroll to the x/y corner of the screen'')"])
       (simp add: stuck_origin)
  have no_tiling: "snd (getScreenshot unstitched_collaborators test_config False test_world) =
          snd (tilingStage unstitched_collaborators test_config \<lparr>s_width = 1000, s_height = 2000\<rparr>
                 None False
                 \<lparr>mi_imageBuffer = Some (1000, 800), mi_isParsed = False, mi_imageBmp = None,
                  mi_width = 1000, mi_height = 800, mi_top = 0, mi_left = 0, mi_decodes = 0\<rparr>
                 \<lparr>io_imageBuffer = Some (1000, 800), io_width = 1000, io_height = 800\<rparr>
                 (snd (originCapture unstitched_collaborators test_config False test_world))) \<and>
        (\<forall>img. fst (getScreenshot unstitched_collaborators test_config False test_world) \<noteq> Resolved img)"
    by (rule C3_successful_capture_restores
              [where E = unstitched_collaborators and cfg = test_config and sd = False
                 and w = test_world,
               THEN conjunct2, THEN conjunct2, rule_format,
               where r = Pending
                 and v = "\<lparr>c_entirePageSize = \<lparr>s_width = 1000, s_height = 2000\<rparr>,
                           c_originalOverflow = Some ''scroll'', c_originalBodyOverflow = None,
                           c_originalPosition = Some \<lparr>l_x = 0, l_y = 300\<rparr>,
                           c_regionInScreenshot = None,
                           c_imageObject =
                             \<lparr>io_imageBuffer = Some (1000, 800), io_width = 1000, io_height = 800\<rparr>,
                           c_screenshot =
                             \<lparr>mi_imageBuffer = Some (1000, 800), mi_isParsed = False,
                              mi_imageBmp = None, mi_width = 1000, mi_height = 800, mi_top = 0,
                              mi_left = 0, mi_decodes = 0\<rparr>\<rparr>"
                 and wv = "snd (originCapture unstitched_collaborators test_config False test_world)"])
       (simp add: unstitched_origin unstitched_tiling)
  from no_tiling have left: "doc_overflow (snd (getScreenshot unstitched_collaborators test_config False test_world)) = ''hidden'' \<and>
        position (snd (getScreenshot unstitched_collaborators test_config False test_world))
          = \<lparr>l_x = 0, l_y = 1200\<rparr>"
    by (simp add: unstitched_origin unstitched_tiling)
  have settled: "fst (getScreenshot css_collaborators css_config False test_world) =
                   Resolved (MutableImage_new (1000, 2000)) \<and>
                 SetBodyOverflow (Some ''initial'')
                   \<in> set (calls (snd (getScreenshot css_collaborators css_config False test_world))) \<and>
                 fst (originCapture (test_collaborators stuck_provider) test_config False test_world) =
                   Rejected (Failure ''Could not scroll to the x/y corner of the screen'') \<and>
                 fst (getScreenshot unstitched_collaborators test_config False test_world) = Pending"
    by (simp add: css_run stuck_origin unstitched_run)
  have nonempty: "body_overflow test_world \<noteq> []"
    by (simp add: test_world_def)
  from resolved nonempty before(2)
  have restored: "doc_overflow (snd (getScreenshot css_collaborators css_config False test_world))
                    = doc_overflow test_world \<and>
                  body_overflow (snd (getScreenshot css_collaborators css_config False test_world))
                    = body_overflow test_world \<and>
                  position (snd (getScreenshot css_collaborators css_config False test_world))
                    = position test_world"
    by blast
  from changed before restored no_origin left settled show ?thesis
    by blast
qed

subsection \<open>Claim C4: a scroll that does not reach the requested offset\<close>











subsection \<open>Claim C8: no tiling when a single capture is enough\<close>

lemma tilingStage_skips:
  assumes "(\<not> fullPage cfg \<and> \<not> checkFrameOrElement cfg) \<or>
           (s_width entirePageSize \<le> io_width imageObject \<and> s_height entirePageSize \<le> io_height imageObject)"
  shows "tilingStage E cfg entirePageSize region sd screenshot imageObject = resolve screenshot"
  using assms by (auto simp: tilingStage_def Let_def)

lemma keeps_tiling_setOverflow: "keeps tiling_calls (setOverflow E v)"
  unfolding setOverflow_def by (intro keeps_intros) (simp_all add: tiling_calls_def)

lemma keeps_tiling_setBodyOverflow: "keeps tiling_calls (setBodyOverflow E v)"
  unfolding setBodyOverflow_def by (intro keeps_intros) (simp_all add: tiling_calls_def)

lemma keeps_tiling_restoreState: "keeps tiling_calls (restoreState E state)"
  unfolding restoreState_def by (intro keeps_intros) (simp_all add: tiling_calls_def)

lemma keeps_tiling_hideScrollbarsStep: "keeps tiling_calls (hideScrollbarsStep E cfg h)"
  unfolding hideScrollbarsStep_def
  by (intro keeps_intros keeps_tiling_setOverflow keeps_tiling_setBodyOverflow)
     (simp_all add: tiling_calls_def)

lemma keeps_tiling_scrollToOriginStep: "keeps tiling_calls (scrollToOriginStep E cfg)"
  unfolding scrollToOriginStep_def getState_def setPosition_def getCurrentPosition_def
  by (intro keeps_intros) (simp_all add: tiling_calls_def)

lemma originCapture_keeps_tiling_calls: "keeps tiling_calls (originCapture E cfg sd)"
  unfolding originCapture_def Let_def
  by (intro keeps_intros keeps_tiling_hideScrollbarsStep keeps_tiling_scrollToOriginStep
        captureViewport_keeps_tiling_calls)
     (simp_all add: tiling_calls_def)

lemma restoreStage_keeps_tiling_calls: "keeps tiling_calls (restoreStage E cfg v screenshot)"
  unfolding restoreStage_def Let_def
  by (intro keeps_intros keeps_tiling_setOverflow keeps_tiling_setBodyOverflow keeps_tiling_restoreState)

lemma getScreenshot_keeps_tiling_calls:
  assumes "\<not> fullPage cfg" "\<not> checkFrameOrElement cfg"
  shows "keeps tiling_calls (getScreenshot E cfg sd)"
  unfolding getScreenshot_stages tilingStage_skips[OF disjI1[OF conjI[OF assms]]]
  by (intro keeps_intros originCapture_keeps_tiling_calls restoreStage_keeps_tiling_calls)

lemma restoreStage_result:
  assumes "restoreStage E cfg v screenshot w = (Resolved img, w')"
  shows "img = (case (if checkFrameOrElement cfg then None else c_regionInScreenshot v) of
                  None \<Rightarrow> screenshot
                | Some region \<Rightarrow> snd (cropImage (imageUtils E) (editingDisabled E) region screenshot))"
  using assms unfolding restoreStage_def Let_def then_p_Resolved
  by (elim exE conjE)
     (auto simp: resolve_eq on_image_def then_p_def split: if_splits option.splits prod.splits outcome.splits)

lemma getScreenshot_without_tiling:
  assumes run: "originCapture E cfg sd w = (Resolved v, w0)"
    and skip: "(\<not> fullPage cfg \<and> \<not> checkFrameOrElement cfg) \<or>
               (s_width (c_entirePageSize v) \<le> io_width (c_imageObject v) \<and>
                s_height (c_entirePageSize v) \<le> io_height (c_imageObject v))"
  shows "getScreenshot E cfg sd w = restoreStage E cfg v (c_screenshot v) w0"
  by (simp add: getScreenshot_stages then_p_run[of "originCapture E cfg sd", OF run]
        tilingStage_skips[OF skip] then_p_resolve)

text \<open>
  C8.  Take a capture whose steps up to the capture of the viewport have resolved: \<open>v\<close> holds the
  size of the entire page, the captured image and its image object.  When the capture is neither
  of the full page nor of a frame or element, or when the captured image is at least as wide and
  as high as the entire page, \<open>getScreenshot\<close> goes from there straight to the restoring steps
  with the single captured image: it makes no call of the tiling logic (computing sub-regions,
  stitching), and when it resolves, its result is the captured image, cropped to the region in
  the screenshot when there is one and the capture is not of a frame or element.  And in every
  capture that is neither of the full page nor of a frame or element, however it ends,
  \<open>getScreenshot\<close> makes no call of the tiling logic.
\<close>

theorem C8_single_capture_skips_tiling:
  "(originCapture E cfg sd w = (Resolved v, wv) \<and>
    ((\<not> fullPage cfg \<and> \<not> checkFrameOrElement cfg) \<or>
     (s_width (c_entirePageSize v) \<le> io_width (c_imageObject v) \<and>
      s_height (c_entirePageSize v) \<le> io_height (c_imageObject v)))
    \<longrightarrow> getScreenshot E cfg sd w = restoreStage E cfg v (c_screenshot v) wv \<and>
        tiling_calls (snd (getScreenshot E cfg sd w)) = tiling_calls w \<and>
        (\<forall>img. fst (getScreenshot E cfg sd w) = Resolved img \<longrightarrow>
           img = (case (if checkFrameOrElement cfg then None else c_regionInScreenshot v) of
                    None \<Rightarrow> c_screenshot v
                  | Some region \<Rightarrow>
                      snd (cropImage (imageUtils E) (editingDisabled E) region (c_screenshot v))))) \<and>
   (\<not> fullPage cfg \<and> \<not> checkFrameOrElement cfg
      \<longrightarrow> tiling_calls (snd (getScreenshot E cfg sd w)) = tiling_calls w)"
proof (intro conjI impI allI)
  assume a: "originCapture E cfg sd w = (Resolved v, wv) \<and>
    ((\<not> fullPage cfg \<and> \<not> checkFrameOrElement cfg) \<or>
     (s_width (c_entirePageSize v) \<le> io_width (c_imageObject v) \<and>
      s_height (c_entirePageSize v) \<le> io_height (c_imageObject v)))"
  then have eq: "getScreenshot E cfg sd w = restoreStage E cfg v (c_screenshot v) wv"
    by (simp add: getScreenshot_without_tiling)
  then show "getScreenshot E cfg sd w = restoreStage E cfg v (c_screenshot v) wv" .
  have "tiling_calls wv = tiling_calls w"
    using a keepsD[OF _ originCapture_keeps_tiling_calls] by blast
  then show "tiling_calls (snd (getScreenshot E cfg sd w)) = tiling_calls w"
    by (simp add: eq keeps_snd[OF restoreStage_keeps_tiling_calls])
  fix img
  assume "fst (getScreenshot E cfg sd w) = Resolved img"
  then have "restoreStage E cfg v (c_screenshot v) wv =
               (Resolved img, snd (restoreStage E cfg v (c_screenshot v) wv))"
    by (simp add: eq prod_eq_iff)
  then show "img = (case (if checkFrameOrElement cfg then None else c_regionInScreenshot v) of
                    None \<Rightarrow> c_screenshot v
                  | Some region \<Rightarrow>
                      snd (cropImage (imageUtils E) (editingDisabled E) region (c_screenshot v)))"
    by (rule restoreStage_result)
next
  assume "\<not> fullPage cfg \<and> \<not> checkFrameOrElement cfg"
  then have "keeps tiling_calls (getScreenshot E cfg sd)"
    by (simp add: getScreenshot_keeps_tiling_calls)
  then show "tiling_calls (snd (getScreenshot E cfg sd w)) = tiling_calls w"
    by (simp add: keeps_def)
qed

theorem C8_single_capture_skips_tiling_witness:
  "fullPage test_config \<and>
   fst (originCapture small_page_collaborators test_config False test_world) =
     Resolved
       \<lparr>c_entirePageSize = \<lparr>s_width = 1000, s_height = 800\<rparr>,
        c_originalOverflow = Some ''scroll'', c_originalBodyOverflow = None,
        c_originalPosition = Some \<lparr>l_x = 0, l_y = 300\<rparr>, c_regionInScreenshot = None,
        c_imageObject = \<lparr>io_imageBuffer = Some (1000, 800), io_width = 1000, io_height = 800\<rparr>,
        c_screenshot =
          \<lparr>mi_imageBuffer = Some (1000, 800), mi_isParsed = False, mi_imageBmp = None,
           mi_width = 1000, mi_height = 800, mi_top = 0, mi_left = 0, mi_decodes = 0\<rparr>\<rparr> \<and>
   tiling_calls (snd (getScreenshot small_page_collaborators test_config False test_world)) = [] \<and>
   fst (getScreenshot small_page_collaborators test_config False test_world) =
     Resolved \<lparr>mi_imageBuffer = Some (1000, 800), mi_isParsed = False, mi_imageBmp = None,
               mi_width = 1000, mi_height = 800, mi_top = 0, mi_left = 0, mi_decodes = 0\<rparr> \<and>
   checkFrameOrElement (test_config\<lparr>fullPage := False\<rparr>) = False \<and>
   fullPage (test_config\<lparr>fullPage := False\<rparr>) = False \<and>
   tiling_calls (snd (getScreenshot (test_collaborators clamping_provider)
                        (test_config\<lparr>fullPage := False\<rparr>) False test_world)) = [] \<and>
   fst (getScreenshot (test_collaborators clamping_provider)
          (test_config\<lparr>fullPage := False\<rparr>) False test_world) =
     Resolved \<lparr>mi_imageBuffer = Some (1000, 800), mi_isParsed = False, mi_imageBmp = None,
               mi_width = 1000, mi_height = 800, mi_top = 300, mi_left = 0, mi_decodes = 0\<rparr>"
proof -
  let ?v = "\<lparr>c_entirePageSize = \<lparr>s_width = 1000, s_height = 800\<rparr>,
        c_originalOverflow = Some ''scroll'', c_originalBodyOverflow = None,
        c_originalPosition = Some \<lparr>l_x = 0, l_y = 300\<rparr>, c_regionInScreenshot = None,
        c_imageObject = \<lparr>io_imageBuffer = Some (1000, 800), io_width = 1000, io_height = 800\<rparr>,
        c_screenshot =
          \<lparr>mi_imageBuffer = Some (1000, 800), mi_isParsed = False, mi_imageBmp = None,
           mi_width = 1000, mi_height = 800, mi_top = 0, mi_left = 0,
           mi_decodes = 0\<rparr>\<rparr> :: (int \<times> int, int \<times> int) captured"
  have covered:
    "getScreenshot small_page_collaborators test_config False test_world =
       restoreStage small_page_collaborators test_config ?v (c_screenshot ?v)
         (snd (originCapture small_page_collaborators test_config False test_world)) \<and>
     tiling_calls (snd (getScreenshot small_page_collaborators test_config False test_world))
       = tiling_calls test_world \<and>
     (\<forall>img. fst (getScreenshot small_page_collaborators test_config False test_world) = Resolved img \<longrightarrow>
        img = (case (if checkFrameOrElement test_config then None else c_regionInScreenshot ?v) of
                 None \<Rightarrow> c_screenshot ?v
               | Some region \<Rightarrow>
                   snd (cropImage (imageUtils small_page_collaborators)
                          (editingDisabled small_page_collaborators) region (c_screenshot ?v))))"
    by (rule C8_single_capture_skips_tiling
              [where E = small_page_collaborators and cfg = test_config and sd = False
                 and w = test_world and v = ?v,
               THEN conjunct1, THEN mp])
       (simp add: small_page_origin)
  have viewport:
    "tiling_calls (snd (getScreenshot (test_collaborators clamping_provider)
                          (test_config\<lparr>fullPage := False\<rparr>) False test_world))
       = tiling_calls test_world"
    by (rule C8_single_capture_skips_tiling
              [where E = "test_collaborators clamping_provider"
                 and cfg = "test_config\<lparr>fullPage := False\<rparr>" and sd = False and w = test_world,
               THEN conjunct2, THEN mp])
       (simp add: test_config_def)
  show ?thesis
    using covered[THEN conjunct2] viewport
    by (simp add: small_page_origin small_page_run viewport_run)
       (simp add: test_config_def test_world_def tiling_calls_def)
qed

end
